(* ===== verification/Prelude.thy ===== *)
theory Prelude
  imports Main "HOL-Library.Sublist" "HOL-Library.Code_Target_Numeral"
begin

text \<open>
  Shared collections and generic lemmas of the development: the rule collections that carry
  the component proofs, Go's slices (which tell a nil slice from an empty one), and list facts
  that the models of the Go string library, the handle parser and the access-policy code use.
\<close>

named_theorems run_simps \<open>how an interaction program runs, one rule per call\<close>
named_theorems handler_defs \<open>definitions of the RPC handlers and of their steps\<close>
named_theorems go_errors \<open>the error values the driver returns\<close>

subsection \<open>Go slices\<close>

text \<open>A Go slice is nil or holds elements; a nil slice has no elements but differs from an
  empty one (it marshals differently and \<open>x != nil\<close> sees it).\<close>

type_synonym 'a slice = "'a list option"

definition elems :: "'a slice \<Rightarrow> 'a list" where
  "elems s = (case s of None \<Rightarrow> [] | Some xs \<Rightarrow> xs)"

definition slice_append :: "'a slice \<Rightarrow> 'a \<Rightarrow> 'a slice" where
  "slice_append s x = Some (elems s @ [x])"

lemma elems_simps [simp]: "elems None = []" "elems (Some xs) = xs"
  by (simp_all add: elems_def)

lemma elems_slice_append [simp]: "elems (slice_append s x) = elems s @ [x]"
  by (simp add: slice_append_def)

text \<open>\<open>slices.DeleteFunc\<close>: the kept elements, in order; a nil slice stays nil.\<close>

definition slice_delete :: "('a \<Rightarrow> bool) \<Rightarrow> 'a slice \<Rightarrow> 'a slice" where
  "slice_delete p s = map_option (filter (\<lambda>x. \<not> p x)) s"

lemma elems_slice_delete [simp]: "elems (slice_delete p s) = filter (\<lambda>x. \<not> p x) (elems s)"
  by (cases s) (simp_all add: slice_delete_def)

subsection \<open>Results\<close>

text \<open>Go's pair of a value and an error, where the value is only read when the error is nil:
  \<open>Inl\<close> the error, \<open>Inr\<close> the value.\<close>

definition bindR :: "'e + 'a \<Rightarrow> ('a \<Rightarrow> 'e + 'b) \<Rightarrow> 'e + 'b" where
  "bindR r f = (case r of Inl e \<Rightarrow> Inl e | Inr a \<Rightarrow> f a)"

lemma bindR_simps [simp]: "bindR (Inl e) f = Inl e" "bindR (Inr a) f = f a"
  by (simp_all add: bindR_def)

lemma bindR_eq_Inr_iff: "bindR r f = Inr b \<longleftrightarrow> (\<exists>a. r = Inr a \<and> f a = Inr b)"
  by (cases r) auto

lemma bindR_eq_Inl_iff: "bindR r f = Inl e \<longleftrightarrow> r = Inl e \<or> (\<exists>a. r = Inr a \<and> f a = Inl e)"
  by (cases r) auto

subsection \<open>Lists\<close>

lemma dropWhile_rev_hd:
  assumes "xs \<noteq> []" and "\<not> P (last xs)"
  shows "rev (dropWhile P (rev xs)) = xs"
  using assms by (cases xs rule: rev_cases) auto

lemma last_rev_dropWhile:
  assumes "rev (dropWhile P (rev xs)) \<noteq> []"
  shows "\<not> P (last (rev (dropWhile P (rev xs))))"
  using assms hd_dropWhile [of P "rev xs"] by (simp add: last_rev)

lemma prefix_rev_dropWhile: "prefix (rev (dropWhile P (rev xs))) xs"
proof -
  have "suffix (dropWhile P (rev xs)) (rev xs)" by (rule suffix_dropWhile)
  then show ?thesis by (simp add: suffix_to_prefix)
qed

lemma takeWhile_all_append:
  "\<forall>x \<in> set xs. P x \<Longrightarrow> ys = [] \<or> \<not> P (hd ys) \<Longrightarrow> takeWhile P (xs @ ys) = xs"
  by (induction xs) (cases ys, auto)

lemma dropWhile_all_append:
  "\<forall>x \<in> set xs. P x \<Longrightarrow> ys = [] \<or> \<not> P (hd ys) \<Longrightarrow> dropWhile P (xs @ ys) = ys"
  by (induction xs) (cases ys, auto)

end
