(* ===== verification/GoStrings.thy ===== *)
theory GoStrings
  imports Prelude
begin

text \<open>
  The part of Go's standard library that the driver's string handling uses: \<open>strings.Split\<close>,
  \<open>Join\<close>, \<open>Cut\<close>, \<open>Trim\<close>, \<open>TrimSpace\<close>, \<open>HasPrefix\<close>, \<open>TrimPrefix\<close>, \<open>Contains\<close>, \<open>ToLower\<close> and
  \<open>strconv.Atoi\<close> / \<open>Itoa\<close>. A Go string is a sequence of bytes, here a \<open>char list\<close>; an
  \<open>int\<close> is 64 bits wide, as on every platform the image is built for.
\<close>

subsection \<open>Splitting and joining\<close>

text \<open>\<open>strings.Split(s, sep)\<close> for a separator of one byte: always at least one part.\<close>

fun splitByte :: "char \<Rightarrow> string \<Rightarrow> string list" where
  "splitByte c [] = [[]]"
| "splitByte c (x # xs) =
     (if x = c then [] # splitByte c xs
      else (case splitByte c xs of [] \<Rightarrow> [[x]] | y # ys \<Rightarrow> (x # y) # ys))"

fun joinStr :: "string \<Rightarrow> string list \<Rightarrow> string" where
  "joinStr sep [] = []"
| "joinStr sep [x] = x"
| "joinStr sep (x # y # zs) = x @ sep @ joinStr sep (y # zs)"

lemma splitByte_not_Nil [simp]: "splitByte c s \<noteq> []"
  by (cases s) (auto split: list.split)

lemma join_split [simp]: "joinStr [c] (splitByte c s) = s"
proof (induction s)
  case Nil
  then show ?case by simp
next
  case (Cons x xs)
  obtain y ys where y: "splitByte c xs = y # ys"
    by (cases "splitByte c xs") auto
  with Cons show ?case
    by (cases ys) auto
qed

lemma splitByte_parts: "p \<in> set (splitByte c s) \<Longrightarrow> c \<notin> set p"
proof (induction s arbitrary: p)
  case Nil
  then show ?case by simp
next
  case (Cons x xs)
  obtain y ys where y: "splitByte c xs = y # ys"
    by (cases "splitByte c xs") auto
  show ?case
  proof (cases "x = c")
    case True
    with Cons show ?thesis by auto
  next
    case False
    with Cons.prems y have "p = x # y \<or> p \<in> set ys" by auto
    with False y Cons.IH show ?thesis by auto
  qed
qed

lemma splitByte_append:
  "c \<notin> set xs \<Longrightarrow> splitByte c (xs @ c # ys) = xs # splitByte c ys"
  by (induction xs) auto

lemma splitByte_no_sep: "c \<notin> set xs \<Longrightarrow> splitByte c xs = [xs]"
  by (induction xs) auto

lemma split_join:
  "xs \<noteq> [] \<Longrightarrow> \<forall>x \<in> set xs. c \<notin> set x \<Longrightarrow> splitByte c (joinStr [c] xs) = xs"
  by (induction "[c]" xs rule: joinStr.induct) (auto simp: splitByte_no_sep splitByte_append)

text \<open>\<open>strings.Cut\<close>: around the first occurrence of the separator.\<close>

fun cutStr :: "string \<Rightarrow> string \<Rightarrow> (string \<times> string) option" where
  "cutStr sep [] = (if sep = [] then Some ([], []) else None)"
| "cutStr sep (x # xs) =
     (if prefix sep (x # xs) then Some ([], drop (length sep) (x # xs))
      else map_option (\<lambda>(a, b). (x # a, b)) (cutStr sep xs))"

lemma cutStr_Some: "cutStr sep s = Some (a, b) \<Longrightarrow> s = a @ sep @ b"
  by (induction s arbitrary: a) (auto split: if_splits elim: prefixE)

definition containsStr :: "string \<Rightarrow> string \<Rightarrow> bool" where
  "containsStr s sub \<longleftrightarrow> cutStr sub s \<noteq> None"

lemma containsStr_iff: "containsStr s sub \<longleftrightarrow> (\<exists>a b. s = a @ sub @ b)"
proof
  assume "containsStr s sub"
  then show "\<exists>a b. s = a @ sub @ b"
    by (auto simp: containsStr_def dest: cutStr_Some)
next
  assume "\<exists>a b. s = a @ sub @ b"
  then obtain a b where s: "s = a @ sub @ b" by blast
  have "cutStr sub (a @ sub @ b) \<noteq> None"
  proof (induction a)
    case Nil
    show ?case
    proof (cases "sub @ b")
      case (Cons x xs)
      then have "prefix sub (x # xs)" by (metis prefixI)
      with Cons show ?thesis by simp
    qed simp
  next
    case (Cons x a)
    then show ?case by auto
  qed
  with s show "containsStr s sub" by (simp add: containsStr_def)
qed

definition trimPrefix :: "string \<Rightarrow> string \<Rightarrow> string" where
  "trimPrefix p s = (if prefix p s then drop (length p) s else s)"

text \<open>\<open>strings.Trim(s, cutset)\<close> for a cutset of ASCII bytes.\<close>

definition trimSet :: "char set \<Rightarrow> string \<Rightarrow> string" where
  "trimSet C s = rev (dropWhile (\<lambda>c. c \<in> C) (rev (dropWhile (\<lambda>c. c \<in> C) s)))"

subsection \<open>TrimSpace\<close>

text \<open>
  \<open>strings.TrimSpace\<close> drops leading and trailing runes that \<open>unicode.IsSpace\<close> accepts. These
  runes are finitely many, and a valid UTF-8 encoding is recognised at both ends by its bytes, so
  the function strips exactly these byte sequences: the six ASCII spaces, U+0085, U+00A0, U+1680,
  U+2000 to U+200A, U+2028, U+2029, U+202F, U+205F and U+3000.
\<close>

definition byte :: "nat \<Rightarrow> char" where
  "byte n = char_of n"

definition asciiSpaces :: "nat list" where
  "asciiSpaces = [9, 10, 11, 12, 13, 32]"

definition wideSpaces :: "nat list list" where
  "wideSpaces =
     [[0xC2, 0x85], [0xC2, 0xA0], [0xE1, 0x9A, 0x80]]
     @ map (\<lambda>b. [0xE2, 0x80, b]) [0x80 ..< 0x8B]
     @ [[0xE2, 0x80, 0xA8], [0xE2, 0x80, 0xA9], [0xE2, 0x80, 0xAF], [0xE2, 0x81, 0x9F],
        [0xE3, 0x80, 0x80]]"

definition spaceSeqs :: "string list" where
  "spaceSeqs = map (\<lambda>b. [byte b]) asciiSpaces @ map (map byte) wideSpaces"

function stripSeqs :: "string list \<Rightarrow> string \<Rightarrow> string" where
  "stripSeqs es s =
     (case find (\<lambda>e. e \<noteq> [] \<and> prefix e s) es of
        None \<Rightarrow> s
      | Some e \<Rightarrow> stripSeqs es (drop (length e) s))"
  by pat_completeness auto
termination
proof (relation "measure (\<lambda>(es, s). length s)")
  fix es :: "string list" and s e
  assume "find (\<lambda>e. e \<noteq> [] \<and> prefix e s) es = Some e"
  then have "e \<noteq> []" "prefix e s" by (auto simp: find_Some_iff)
  then show "((es, drop (length e) s), es, s) \<in> measure (\<lambda>(es, s). length s)"
    using prefix_length_le [of e s] by (cases e) auto
qed simp

declare stripSeqs.simps [simp del]

definition trimSpace :: "string \<Rightarrow> string" where
  "trimSpace s = rev (stripSeqs (map rev spaceSeqs) (rev (stripSeqs spaceSeqs s)))"

lemma stripSeqs_id:
  "\<forall>e \<in> set es. e \<noteq> [] \<longrightarrow> \<not> prefix e s \<Longrightarrow> stripSeqs es s = s"
  by (subst stripSeqs.simps) (auto split: option.split simp: find_Some_iff)

lemma stripSeqs_done: "e \<in> set es \<Longrightarrow> e \<noteq> [] \<Longrightarrow> \<not> prefix e (stripSeqs es s)"
proof (induction es s rule: stripSeqs.induct)
  case (1 es s)
  show ?case
  proof (cases "find (\<lambda>e. e \<noteq> [] \<and> prefix e s) es")
    case None
    then have "stripSeqs es s = s" by (subst stripSeqs.simps) simp
    with None "1.prems" show ?thesis by (auto simp: find_None_iff)
  next
    case (Some e')
    with 1 show ?thesis by (subst stripSeqs.simps) simp
  qed
qed

lemma stripSeqs_suffix: "suffix (stripSeqs es s) s"
proof (induction es s rule: stripSeqs.induct)
  case (1 es s)
  show ?case
  proof (cases "find (\<lambda>e. e \<noteq> [] \<and> prefix e s) es")
    case None
    then show ?thesis by (subst stripSeqs.simps) simp
  next
    case (Some e)
    with 1 have "suffix (stripSeqs es (drop (length e) s)) (drop (length e) s)" by simp
    then have "suffix (stripSeqs es (drop (length e) s)) s"
      using suffix_drop suffix_order.trans by blast
    with Some show ?thesis by (subst stripSeqs.simps) simp
  qed
qed

lemma trimSpace_done:
  assumes "e \<in> set spaceSeqs" and "e \<noteq> []"
  shows "\<not> prefix e (trimSpace s)" and "\<not> suffix e (trimSpace s)"
proof -
  let ?l = "stripSeqs spaceSeqs s"
  have pre: "prefix (trimSpace s) ?l"
    using stripSeqs_suffix [of "map rev spaceSeqs" "rev ?l"]
    by (simp add: trimSpace_def suffix_to_prefix)
  then show "\<not> prefix e (trimSpace s)"
    using stripSeqs_done [OF assms, of s] prefix_order.trans by blast
  have "rev e \<in> set (map rev spaceSeqs)" "rev e \<noteq> []" using assms by auto
  then show "\<not> suffix e (trimSpace s)"
    using stripSeqs_done [of "rev e" "map rev spaceSeqs" "rev ?l"]
    by (simp add: trimSpace_def suffix_to_prefix)
qed

lemma trimSpace_fixed:
  assumes "\<forall>e \<in> set spaceSeqs. \<not> prefix e s \<and> \<not> suffix e s"
  shows "trimSpace s = s"
proof -
  have "stripSeqs spaceSeqs s = s" by (rule stripSeqs_id) (use assms in auto)
  moreover have "stripSeqs (map rev spaceSeqs) (rev s) = rev s"
    by (rule stripSeqs_id) (use assms in \<open>auto simp: suffix_to_prefix\<close>)
  ultimately show ?thesis by (simp add: trimSpace_def)
qed

end
