(* ===== verification/GoStrconv.thy ===== *)
theory GoStrconv
  imports GoStrings
begin

text \<open>
  Go's \<open>strconv.Itoa\<close> and \<open>strconv.Atoi\<close> on the 64-bit \<open>int\<close>, and the hexadecimal digits of
  \<open>net/netip\<close>: decimal rendering, the scanner with its two error kinds, the range check, and
  the round trip between them.
\<close>

subsection \<open>The range of Go's int\<close>

definition int_range :: "int \<Rightarrow> bool" where
  "int_range i \<longleftrightarrow> - (2 ^ 63) \<le> i \<and> i < 2 ^ 63"

subsection \<open>Digits\<close>

definition digitChar :: "nat \<Rightarrow> char" where
  "digitChar n = byte (48 + n)"

definition digitVal :: "char \<Rightarrow> nat option" where
  "digitVal c =
     (let n = of_char c in if 48 \<le> n \<and> n \<le> (57::nat) then Some (n - 48) else None)"

lemma of_char_byte: "n < 256 \<Longrightarrow> of_char (byte n) = n"
  by (simp add: byte_def)

lemma byte_inj: "m < 256 \<Longrightarrow> n < 256 \<Longrightarrow> byte m = byte n \<longleftrightarrow> m = n"
  by (metis of_char_byte)

lemma digitVal_digitChar [simp]: "n < 10 \<Longrightarrow> digitVal (digitChar n) = Some n"
  by (simp add: digitVal_def digitChar_def of_char_byte)

lemma digitVal_less: "digitVal c = Some n \<Longrightarrow> n < 10"
  by (auto simp: digitVal_def Let_def split: if_splits)

lemma digitVal_minus [simp]: "digitVal CHR ''-'' = None" "digitVal CHR ''+'' = None"
  by (simp_all add: digitVal_def)

fun natDigits :: "nat \<Rightarrow> string" where
  "natDigits n =
     (if n < 10 then [digitChar n] else natDigits (n div 10) @ [digitChar (n mod 10)])"

declare natDigits.simps [simp del]

lemma natDigits_not_Nil [simp]: "natDigits n \<noteq> []"
  by (subst natDigits.simps) simp

lemma natDigits_digits: "c \<in> set (natDigits n) \<Longrightarrow> \<exists>d<10. c = digitChar d"
proof (induction n rule: natDigits.induct)
  case (1 n)
  show ?case
  proof (cases "n < 10")
    case True
    with "1.prems" show ?thesis by (subst (asm) natDigits.simps) auto
  next
    case False
    with "1.prems" have "c \<in> set (natDigits (n div 10)) \<or> c = digitChar (n mod 10)"
      by (subst (asm) natDigits.simps) auto
    with "1.IH" [OF False] show ?thesis
      by (metis mod_less_divisor zero_less_numeral)
  qed
qed

definition Itoa :: "int \<Rightarrow> string" where
  "Itoa i = (if i < 0 then CHR ''-'' # natDigits (nat (- i)) else natDigits (nat i))"

lemma Itoa_not_Nil [simp]: "Itoa i \<noteq> []"
  by (simp add: Itoa_def)

lemma Itoa_chars: "c \<in> set (Itoa i) \<Longrightarrow> c = CHR ''-'' \<or> (\<exists>d<10. c = digitChar d)"
  by (auto simp: Itoa_def dest: natDigits_digits split: if_splits)

subsection \<open>Atoi\<close>

text \<open>The scanner of \<open>strconv.ParseUint\<close>: it stops at the first byte that is no digit or at
  the first prefix that does not fit 64 bits, whichever comes first.\<close>

datatype numError = ErrSyntax | ErrRange

fun scanUint :: "nat \<Rightarrow> string \<Rightarrow> numError + nat" where
  "scanUint acc [] = Inr acc"
| "scanUint acc (c # cs) =
     (case digitVal c of
        None \<Rightarrow> Inl ErrSyntax
      | Some d \<Rightarrow>
          if acc * 10 + d < 2 ^ 64 then scanUint (acc * 10 + d) cs else Inl ErrRange)"

definition splitSign :: "string \<Rightarrow> bool \<times> string" where
  "splitSign s =
     (case s of
        [] \<Rightarrow> (False, [])
      | c # cs \<Rightarrow>
          if c = CHR ''-'' then (True, cs) else if c = CHR ''+'' then (False, cs) else (False, s))"

definition Atoi :: "string \<Rightarrow> numError + int" where
  "Atoi s =
     (let (neg, ds) = splitSign s in
      if ds = [] then Inl ErrSyntax
      else case scanUint 0 ds of
        Inl e \<Rightarrow> Inl e
      | Inr n \<Rightarrow>
          if \<not> neg \<and> 2 ^ 63 \<le> n then Inl ErrRange
          else if neg \<and> 2 ^ 63 < n then Inl ErrRange
          else Inr (if neg then - int n else int n))"

lemma Atoi_range: "Atoi s = Inr i \<Longrightarrow> int_range i"
  by (auto simp: Atoi_def int_range_def split: prod.splits sum.splits if_splits)

lemma scanUint_append:
  "scanUint acc (xs @ ys) =
     (case scanUint acc xs of Inl e \<Rightarrow> Inl e | Inr n \<Rightarrow> scanUint n ys)"
  by (induction xs arbitrary: acc) (auto split: option.split)

lemma scanUint_natDigits: "n < 2 ^ 64 \<Longrightarrow> scanUint 0 (natDigits n) = Inr n"
proof (induction n rule: natDigits.induct)
  case (1 n)
  show ?case
  proof (cases "n < 10")
    case True
    then show ?thesis by (subst natDigits.simps) simp
  next
    case False
    with 1 have "scanUint 0 (natDigits (n div 10)) = Inr (n div 10)" by simp
    moreover have "n div 10 * 10 + n mod 10 = n" by simp
    ultimately show ?thesis
      using False "1.prems" by (subst natDigits.simps) (simp add: scanUint_append)
  qed
qed

lemma digitChar_neq: "d < 10 \<Longrightarrow> digitChar d \<noteq> c" if "digitVal c = None"
  using that by auto

lemma digitChar_inj: "m < 10 \<Longrightarrow> n < 10 \<Longrightarrow> digitChar m = digitChar n \<longleftrightarrow> m = n"
  by (metis digitVal_digitChar option.inject)

lemma natDigits_inj: "natDigits m = natDigits n \<Longrightarrow> m = n"
proof (induction m arbitrary: n rule: natDigits.induct)
  case (1 m)
  show ?case
  proof (cases "m < 10 \<or> n < 10")
    case True
    with "1.prems" show ?thesis
      by (subst (asm) natDigits.simps, subst (asm) (2) natDigits.simps)
        (auto simp: digitChar_inj eq_commute [of "[]"] split: if_splits)
  next
    case False
    with "1.prems" have "natDigits (m div 10) = natDigits (n div 10)" "digitChar (m mod 10) = digitChar (n mod 10)"
      by (subst (asm) natDigits.simps, subst (asm) (2) natDigits.simps, simp)+
    with "1.IH" False have "m div 10 = n div 10" "m mod 10 = n mod 10" by (simp_all add: digitChar_inj)
    then show ?thesis by (metis div_mult_mod_eq)
  qed
qed

lemma Itoa_inject: "Itoa i = Itoa j \<longleftrightarrow> i = j"
proof
  have minus: "CHR ''-'' # s \<noteq> natDigits n" for s n
  proof
    assume "CHR ''-'' # s = natDigits n"
    then have "CHR ''-'' \<in> set (natDigits n)" by (metis list.set_intros(1))
    then obtain d where "d < 10" "digitChar d = CHR ''-''" by (auto dest: natDigits_digits)
    then show False using digitChar_neq by auto
  qed
  assume "Itoa i = Itoa j"
  then have "(i < 0) = (j < 0)" "nat \<bar>i\<bar> = nat \<bar>j\<bar>"
    using minus minus [symmetric] by (auto simp: Itoa_def dest: natDigits_inj split: if_splits)
  then show "i = j" by linarith
qed simp

lemma splitSign_natDigits [simp]: "splitSign (natDigits n) = (False, natDigits n)"
proof -
  obtain c cs where c: "natDigits n = c # cs" by (cases "natDigits n") auto
  then have "c \<in> set (natDigits n)" by simp
  then obtain d where "d < 10" "c = digitChar d" by (auto dest: natDigits_digits)
  then have "c \<noteq> CHR ''-''" "c \<noteq> CHR ''+''"
    using digitChar_neq by auto
  with c show ?thesis by (simp add: splitSign_def)
qed

lemma Atoi_Itoa [simp]:
  assumes "int_range i"
  shows "Atoi (Itoa i) = Inr i"
proof (cases "i < 0")
  case True
  with assms have "nat (- i) \<le> 2 ^ 63" by (simp add: int_range_def nat_le_iff)
  with True show ?thesis
    by (simp add: Atoi_def Itoa_def splitSign_def scanUint_natDigits)
next
  case False
  with assms have "nat i < 2 ^ 63" by (simp add: int_range_def nat_less_iff)
  with False show ?thesis by (simp add: Atoi_def Itoa_def scanUint_natDigits)
qed

lemma Itoa_inj:
  assumes "int_range i" and "int_range j" and "Itoa i = Itoa j"
  shows "i = j"
  using assms by (metis Atoi_Itoa sum.inject(2))

text \<open>A rendered number holds no separator and is left alone by \<open>TrimSpace\<close>.\<close>

definition plainChar :: "char \<Rightarrow> bool" where
  "plainChar c \<longleftrightarrow> 33 \<le> (of_char c :: nat) \<and> (of_char c :: nat) < 127"

lemma Itoa_plain: "c \<in> set (Itoa i) \<Longrightarrow> plainChar c"
  by (auto simp: plainChar_def digitChar_def of_char_byte dest!: Itoa_chars)

lemma Itoa_no_slash [simp]: "CHR ''/'' \<notin> set (Itoa i)"
proof
  assume "CHR ''/'' \<in> set (Itoa i)"
  then obtain d where "d < 10" "CHR ''/'' = digitChar d" using Itoa_chars by blast
  then have "digitVal CHR ''/'' = Some d" by simp
  then show False by (simp add: digitVal_def)
qed

lemma spaceSeqs_ends:
  assumes "e \<in> set spaceSeqs"
  shows "e \<noteq> []" and "\<not> plainChar (hd e)" and "\<not> plainChar (last e)"
  using assms
  by (auto simp: spaceSeqs_def asciiSpaces_def wideSpaces_def plainChar_def of_char_byte)

lemma trimSpace_plain:
  assumes "s = [] \<or> plainChar (hd s) \<and> plainChar (last s)"
  shows "trimSpace s = s"
proof (rule trimSpace_fixed, intro ballI)
  fix e assume e: "e \<in> set spaceSeqs"
  then have ne: "e \<noteq> []" by (rule spaceSeqs_ends)
  have "\<not> prefix e s"
  proof
    assume "prefix e s"
    with ne have "hd e = hd s" "s \<noteq> []" by (auto simp: prefix_def)
    with assms spaceSeqs_ends(2) [OF e] show False by simp
  qed
  moreover have "\<not> suffix e s"
  proof
    assume "suffix e s"
    with ne have "last e = last s" "s \<noteq> []" by (auto simp: suffix_def)
    with assms spaceSeqs_ends(3) [OF e] show False by simp
  qed
  ultimately show "\<not> prefix e s \<and> \<not> suffix e s" by simp
qed

subsection \<open>Hexadecimal\<close>

definition hexVal :: "char \<Rightarrow> nat option" where
  "hexVal c =
     (let n = of_char c in
      if 48 \<le> n \<and> n \<le> (57::nat) then Some (n - 48)
      else if 97 \<le> n \<and> n \<le> 102 then Some (n - 87)
      else if 65 \<le> n \<and> n \<le> 70 then Some (n - 55)
      else None)"

definition hexChar :: "nat \<Rightarrow> char" where
  "hexChar n = (if n < 10 then byte (48 + n) else byte (87 + n))"

lemma hexVal_hexChar [simp]: "n < 16 \<Longrightarrow> hexVal (hexChar n) = Some n"
  by (simp add: hexVal_def hexChar_def of_char_byte)

fun hexDigits :: "nat \<Rightarrow> string" where
  "hexDigits n =
     (if n < 16 then [hexChar n] else hexDigits (n div 16) @ [hexChar (n mod 16)])"

declare hexDigits.simps [simp del]

definition hexNat :: "string \<Rightarrow> nat" where
  "hexNat s = foldl (\<lambda>a c. a * 16 + the (hexVal c)) 0 s"

lemma hexDigits_not_Nil [simp]: "hexDigits n \<noteq> []"
  by (subst hexDigits.simps) simp

lemma hexDigits_hex: "c \<in> set (hexDigits n) \<Longrightarrow> hexVal c \<noteq> None"
proof (induction n rule: hexDigits.induct)
  case (1 n)
  show ?case
  proof (cases "n < 16")
    case True
    with "1.prems" show ?thesis by (subst (asm) hexDigits.simps) auto
  next
    case False
    with "1.prems" have "c \<in> set (hexDigits (n div 16)) \<or> c = hexChar (n mod 16)"
      by (subst (asm) hexDigits.simps) auto
    with "1.IH" False show ?thesis by auto
  qed
qed

lemma hexNat_hexDigits [simp]: "hexNat (hexDigits n) = n"
proof (induction n rule: hexDigits.induct)
  case (1 n)
  show ?case
  proof (cases "n < 16")
    case True
    then show ?thesis by (subst hexDigits.simps) (simp add: hexNat_def)
  next
    case False
    with 1 have "hexNat (hexDigits (n div 16)) = n div 16" by simp
    with False show ?thesis
      by (subst hexDigits.simps) (simp add: hexNat_def)
  qed
qed

lemma length_hexDigits: "n < 65536 \<Longrightarrow> length (hexDigits n) \<le> 4"
  by (subst hexDigits.simps, simp, subst hexDigits.simps, simp,
      subst hexDigits.simps, simp, subst hexDigits.simps, simp)

end
