(* ===== verification/DriverErrors.thy ===== *)
theory DriverErrors
  imports GoStrconv
begin

text \<open>
  Error values: gRPC status errors with their unrendered format string and arguments, the Linode
  API error, context, system and plain errors, and errors wrapped by \<open>%w\<close>; the observers the
  code uses on them (\<open>status.Code\<close>, \<open>errors.Is\<close>, \<open>os.IsNotExist\<close>); the sentinels of
  \<open>internal/driver/errors.go\<close>; and the mapping \<open>linodeError\<close> / \<open>linodeWaitError\<close> of
  \<open>internal/driver/controller_helpers.go\<close>. The linodego package is not part of the repository:
  its error predicates and its filter builder are the fields of the record \<open>linodego\<close>, and the
  locale \<open>linodego_api\<close> states what their documentation promises.
\<close>

subsection \<open>Error values\<close>

datatype code =
    OK | Canceled | Unknown | InvalidArgument | DeadlineExceeded | NotFound | AlreadyExists
  | PermissionDenied | ResourceExhausted | FailedPrecondition | Aborted | OutOfRange
  | Unimplemented | Internal | Unavailable | DataLoss | Unauthenticated

datatype errno = ENOENT | EIO | ErrNotExist | OtherErrno int

text \<open>
  \<open>StatusError c f as\<close> is \<open>status.Errorf(c, f, as...)\<close>, \<open>Errorf f as\<close> is \<open>fmt.Errorf(f, as...)\<close>
  without \<open>%w\<close>, and \<open>Wrapf f as e\<close> is \<open>fmt.Errorf\<close> with \<open>e\<close> as its \<open>%w\<close> argument.
  \<open>LinodeAPIError\<close> is \<open>linodego.Error{Code, Message}\<close>.
\<close>

datatype goError =
    StatusError code string "fmtArg list"
  | LinodeAPIError int string
  | ContextCanceled
  | ContextDeadlineExceeded
  | SysError errno string
  | NumError numError string
  | ErrorsNew string
  | Errorf string "fmtArg list"
  | Wrapf string "fmtArg list" goError
and fmtArg = AStr string | AInt int | AErr goError

text \<open>\<open>status.Code\<close> of a non-nil error: the code of the status error it is or wraps.\<close>

fun statusCode :: "goError \<Rightarrow> code" where
  "statusCode (StatusError c _ _) = c"
| "statusCode (Wrapf _ _ e) = statusCode e"
| "statusCode _ = Unknown"

text \<open>\<open>errors.Is(err, target)\<close> for the two context sentinels and for \<open>unix.ENOENT\<close>.\<close>

fun isCanceled :: "goError \<Rightarrow> bool" where
  "isCanceled ContextCanceled = True"
| "isCanceled (Wrapf _ _ e) = isCanceled e"
| "isCanceled _ = False"

fun isDeadlineExceeded :: "goError \<Rightarrow> bool" where
  "isDeadlineExceeded ContextDeadlineExceeded = True"
| "isDeadlineExceeded (Wrapf _ _ e) = isDeadlineExceeded e"
| "isDeadlineExceeded _ = False"

fun isENOENT :: "goError \<Rightarrow> bool" where
  "isENOENT (SysError n _) = (n = ENOENT)"
| "isENOENT (Wrapf _ _ e) = isENOENT e"
| "isENOENT _ = False"

text \<open>\<open>os.IsNotExist\<close> does not unwrap \<open>%w\<close> errors.\<close>

fun osIsNotExist :: "goError \<Rightarrow> bool" where
  "osIsNotExist (SysError n _) = (n = ENOENT \<or> n = ErrNotExist)"
| "osIsNotExist _ = False"

subsection \<open>errors.go\<close>

definition errNilDriver :: goError where
  [go_errors]: "errNilDriver = StatusError Internal ''nil driver'' []"

definition errNilMounter :: goError where
  [go_errors]: "errNilMounter = StatusError Internal ''nil mounter'' []"

definition errNoVolumeName :: goError where
  [go_errors]: "errNoVolumeName = StatusError InvalidArgument ''volume name is required'' []"

definition errNoVolumeCapabilities :: goError where
  [go_errors]: "errNoVolumeCapabilities =
     StatusError InvalidArgument ''volume capabilities are required'' []"

definition errNoVolumeCapability :: goError where
  [go_errors]: "errNoVolumeCapability =
     StatusError InvalidArgument ''no volume capability set'' []"

definition errNoMountVolumeCapability :: goError where
  [go_errors]: "errNoMountVolumeCapability =
     StatusError InvalidArgument ''no mount volume capability set'' []"

definition errNoVolumeContextMountTarget :: goError where
  [go_errors]: "errNoVolumeContextMountTarget =
     StatusError InvalidArgument ''mount-target or usable mount-target-ips is required'' []"

definition errNoVolumeID :: goError where
  [go_errors]: "errNoVolumeID = StatusError InvalidArgument ''volume ID is not set'' []"

definition errNoVolumePath :: goError where
  [go_errors]: "errNoVolumePath = StatusError InvalidArgument ''volume path is not set'' []"

definition errNoTargetPath :: goError where
  [go_errors]: "errNoTargetPath = StatusError InvalidArgument ''target path is not set'' []"

definition errNoStagingTargetPath :: goError where
  [go_errors]: "errNoStagingTargetPath =
     StatusError InvalidArgument ''staging target path is not set'' []"

definition errNotImplemented :: goError where
  [go_errors]: "errNotImplemented = StatusError Unimplemented ''operation not implemented'' []"

definition errInvalidRole :: goError where
  "errInvalidRole = ErrorsNew ''invalid driver role''"

definition errInvalidAccessPolicyMode :: goError where
  "errInvalidAccessPolicyMode = ErrorsNew ''invalid access policy mode''"

definition errInvalidMTLSMode :: goError where
  [go_errors]: "errInvalidMTLSMode = StatusError InvalidArgument
     ''invalid mtls-mode value, must be one of: required, optional, disabled'' []"

definition errLinodeClientNotFound :: goError where
  "errLinodeClientNotFound = ErrorsNew ''linode client not found or is nil''"

definition ErrTokenRequired :: goError where
  "ErrTokenRequired = ErrorsNew ''linode token required for controller role''"

definition errInternal :: "string \<Rightarrow> fmtArg list \<Rightarrow> goError" where
  [go_errors]: "errInternal f as = StatusError Internal f as"

definition errNotFound :: "string \<Rightarrow> fmtArg list \<Rightarrow> goError" where
  [go_errors]: "errNotFound f as = StatusError NotFound f as"

subsection \<open>The linodego package as a parameter\<close>

record linodego =
  IsNotFound :: "goError \<Rightarrow> bool"
  ErrHasStatus :: "goError \<Rightarrow> int list \<Rightarrow> bool"
  FilterJSON :: "(string \<times> string) list \<Rightarrow> goError + string"

text \<open>
  \<open>ErrHasStatus(err, codes...)\<close> checks whether \<open>err\<close> is a Linode API error with one of the given
  HTTP status codes, and \<open>IsNotFound(err)\<close> whether it is a 404 (package documentation). An API
  error carries one status code.
\<close>

locale linodego_api =
  fixes lg :: linodego
  assumes not_found: "IsNotFound lg e \<longleftrightarrow> ErrHasStatus lg e [404]"
    and any_status: "ErrHasStatus lg e cs \<longleftrightarrow> (\<exists>c \<in> set cs. ErrHasStatus lg e [c])"
    and one_status: "ErrHasStatus lg e [c] \<Longrightarrow> ErrHasStatus lg e [d] \<Longrightarrow> c = d"
    and api_status: "ErrHasStatus lg (LinodeAPIError c m) [d] \<longleftrightarrow> c = d"

subsection \<open>Mapping Linode errors to gRPC codes\<close>

definition linodeError :: "linodego \<Rightarrow> goError \<Rightarrow> string \<Rightarrow> goError" where
  "linodeError lg err message =
     (let f = ''%s: %v''; args = [AStr message, AErr err] in
      if IsNotFound lg err then StatusError NotFound f args
      else if ErrHasStatus lg err [400, 422] then StatusError InvalidArgument f args
      else if ErrHasStatus lg err [401, 403] then StatusError PermissionDenied f args
      else if ErrHasStatus lg err [409] then StatusError FailedPrecondition f args
      else if ErrHasStatus lg err [429, 502, 503, 504] then StatusError Unavailable f args
      else StatusError Internal f args)"

definition linodeWaitError :: "linodego \<Rightarrow> goError \<Rightarrow> string \<Rightarrow> goError" where
  "linodeWaitError lg err message =
     (if isCanceled err then StatusError Canceled ''%s: %v'' [AStr message, AErr err]
      else if isDeadlineExceeded err
        then StatusError DeadlineExceeded ''%s: %v'' [AStr message, AErr err]
      else linodeError lg err message)"

text \<open>The table of \<open>docs/architecture.md\<close>: the gRPC code of an HTTP status.\<close>

definition httpCode :: "int \<Rightarrow> code" where
  "httpCode h =
     (if h = 404 then NotFound
      else if h \<in> {400, 422} then InvalidArgument
      else if h \<in> {401, 403} then PermissionDenied
      else if h = 409 then FailedPrecondition
      else if h \<in> {429, 502, 503, 504} then Unavailable
      else Internal)"

lemma linodeError_form:
  "\<exists>c. linodeError lg err m = StatusError c ''%s: %v'' [AStr m, AErr err]
     \<and> c \<in> {NotFound, InvalidArgument, PermissionDenied, FailedPrecondition, Unavailable, Internal}"
  by (simp add: linodeError_def Let_def)

lemma linodeWaitError_form:
  "\<exists>c. linodeWaitError lg err m = StatusError c ''%s: %v'' [AStr m, AErr err] \<and> c \<noteq> OK"
  using linodeError_form [of lg err m] by (auto simp: linodeWaitError_def)

lemma linodeError_not_OK: "statusCode (linodeError lg err m) \<noteq> OK"
  using linodeError_form [of lg err m] by auto

lemma linodeWaitError_not_OK: "statusCode (linodeWaitError lg err m) \<noteq> OK"
  using linodeWaitError_form [of lg err m] by auto

context linodego_api
begin

lemma status_code:
  assumes "ErrHasStatus lg err [h]"
  shows "statusCode (linodeError lg err m) = httpCode h"
proof -
  have eq: "ErrHasStatus lg err [c] \<longleftrightarrow> c = h" for c
    using assms one_status by metis
  have has: "ErrHasStatus lg err cs \<longleftrightarrow> h \<in> set cs" for cs
  proof -
    have "(\<exists>c \<in> set cs. ErrHasStatus lg err [c]) \<longleftrightarrow> (\<exists>c \<in> set cs. c = h)"
      by (simp only: eq)
    then show ?thesis using any_status [of err cs] by blast
  qed
  have nf: "IsNotFound lg err \<longleftrightarrow> h = 404"
    by (simp only: not_found eq) blast
  show ?thesis
    unfolding linodeError_def httpCode_def Let_def has nf by simp
qed

lemma no_status_internal:
  assumes "\<And>h. \<not> ErrHasStatus lg err [h]"
  shows "statusCode (linodeError lg err m) = Internal"
proof -
  have "\<not> ErrHasStatus lg err cs" for cs
    using assms any_status [of err cs] by blast
  then show ?thesis by (simp add: linodeError_def Let_def not_found)
qed

lemma api_error_code: "statusCode (linodeError lg (LinodeAPIError h t) m) = httpCode h"
  by (rule status_code) (simp add: api_status)

end

end
