(* ===== verification/GoNetip.thy ===== *)
theory GoNetip
  imports GoStrconv
begin

text \<open>
  The part of Go's \<open>net/netip\<close> that the mount-target code and the metadata service use:
  \<open>ParseAddr\<close> for IPv4 and IPv6 (with zones and an embedded IPv4 tail), \<open>Is6\<close>, \<open>Is4In6\<close>,
  \<open>IsValid\<close> and \<open>String\<close>. An IPv6 address is its eight 16-bit groups and its zone; the
  parser of the library fills sixteen bytes two at a time, here one group at a time.
\<close>

subsection \<open>Addresses\<close>

datatype netAddr = AddrZero | Addr4 "nat list" | Addr6 "nat list" string

fun isValid :: "netAddr \<Rightarrow> bool" where
  "isValid AddrZero = False"
| "isValid _ = True"

fun is6 :: "netAddr \<Rightarrow> bool" where
  "is6 (Addr6 gs z) = True"
| "is6 _ = False"

fun is4In6 :: "netAddr \<Rightarrow> bool" where
  "is4In6 (Addr6 gs z) = (take 5 gs = replicate 5 0 \<and> gs ! 5 = 0xFFFF)"
| "is4In6 _ = False"

definition wf6 :: "nat list \<Rightarrow> bool" where
  "wf6 gs \<longleftrightarrow> length gs = 8 \<and> (\<forall>g \<in> set gs. g < 65536)"

subsection \<open>Parsing IPv4\<close>

text \<open>\<open>parseIPv4Fields\<close>: \<open>first\<close> says that no byte was read yet, \<open>dot\<close> that the previous byte
  was a dot, \<open>n\<close> counts the digits of the current field.\<close>

fun parse4 :: "bool \<Rightarrow> bool \<Rightarrow> nat \<Rightarrow> nat \<Rightarrow> nat list \<Rightarrow> string \<Rightarrow> nat list option" where
  "parse4 first dot n val fields [] =
     (if length fields < 3 then None else Some (fields @ [val]))"
| "parse4 first dot n val fields (c # cs) =
     (case digitVal c of
        Some d \<Rightarrow>
          if n = 1 \<and> val = 0 then None
          else if 255 < val * 10 + d then None
          else parse4 False False (Suc n) (val * 10 + d) fields cs
      | None \<Rightarrow>
          if c = CHR ''.'' then
            (if first \<or> cs = [] \<or> dot then None
             else if length fields = 3 then None
             else parse4 False True 0 0 (fields @ [val]) cs)
          else None)"

definition parseIPv4Fields :: "string \<Rightarrow> nat list option" where
  "parseIPv4Fields s = parse4 True False 0 0 [] s"

subsection \<open>Parsing IPv6\<close>

definition hexSpan :: "string \<Rightarrow> string" where
  "hexSpan s = takeWhile (\<lambda>c. hexVal c \<noteq> None) s"

definition hexRest :: "string \<Rightarrow> string" where
  "hexRest s = dropWhile (\<lambda>c. hexVal c \<noteq> None) s"

lemma hexRest_length: "length (hexRest s) \<le> length s"
  by (simp add: hexRest_def length_dropWhile_le)

text \<open>The main loop of \<open>parseIPv6\<close>: the groups so far, the position of the ellipsis, the rest of
  the input.\<close>

function parse6 :: "nat list \<Rightarrow> nat option \<Rightarrow> string \<Rightarrow> (nat list \<times> nat option) option" where
  "parse6 gs el s =
     (if 8 \<le> length gs then (if s = [] then Some (gs, el) else None)
      else
        let h = hexSpan s; r = hexRest s in
        if h = [] \<or> 4 < length h then None
        else if r \<noteq> [] \<and> hd r = CHR ''.'' then
          (if el = None \<and> length gs \<noteq> 6 then None
           else if 8 < length gs + 2 then None
           else (case parseIPv4Fields s of
                   None \<Rightarrow> None
                 | Some f \<Rightarrow>
                     Some (gs @ [f ! 0 * 256 + f ! 1, f ! 2 * 256 + f ! 3], el)))
        else
          let gs' = gs @ [hexNat h] in
          (case r of
             [] \<Rightarrow> Some (gs', el)
           | c # r' \<Rightarrow>
               if c \<noteq> CHR '':'' then None
               else (case r' of
                       [] \<Rightarrow> None
                     | c' # r'' \<Rightarrow>
                         if c' = CHR '':'' then
                           (if el \<noteq> None then None
                            else if r'' = [] then Some (gs', Some (length gs'))
                            else parse6 gs' (Some (length gs')) r'')
                         else parse6 gs' el r')))"
  by pat_completeness auto
termination
  by (relation "measure (\<lambda>(gs, el, s). 8 - length gs)") auto

declare parse6.simps [simp del]

definition expandEllipsis :: "nat list \<Rightarrow> nat option \<Rightarrow> nat list option" where
  "expandEllipsis gs el =
     (if length gs < 8 then
        (case el of
           None \<Rightarrow> None
         | Some e \<Rightarrow> Some (take e gs @ replicate (8 - length gs) 0 @ drop e gs))
      else if el \<noteq> None then None
      else Some gs)"

definition parse6Groups :: "string \<Rightarrow> nat list option" where
  "parse6Groups s =
     (if take 2 s = ''::'' then
        (if drop 2 s = [] then Some (replicate 8 0)
         else (case parse6 [] (Some 0) (drop 2 s) of
                 None \<Rightarrow> None
               | Some (gs, el) \<Rightarrow> expandEllipsis gs el))
      else (case parse6 [] None s of
              None \<Rightarrow> None
            | Some (gs, el) \<Rightarrow> expandEllipsis gs el))"

definition parseIPv6 :: "string \<Rightarrow> netAddr option" where
  "parseIPv6 s =
     (case cutStr ''%'' s of
        None \<Rightarrow> map_option (\<lambda>gs. Addr6 gs []) (parse6Groups s)
      | Some (a, zone) \<Rightarrow>
          if zone = [] then None
          else map_option (\<lambda>gs. Addr6 gs zone) (parse6Groups a))"

text \<open>\<open>ParseAddr\<close>: the first of the bytes \<open>.\<close>, \<open>:\<close> and \<open>%\<close> decides.\<close>

definition ParseAddr :: "string \<Rightarrow> netAddr option" where
  "ParseAddr s =
     (case find (\<lambda>c. c \<in> {CHR ''.'', CHR '':'', CHR ''%''}) s of
        None \<Rightarrow> None
      | Some c \<Rightarrow>
          if c = CHR ''.'' then map_option Addr4 (parseIPv4Fields s)
          else if c = CHR '':'' then parseIPv6 s
          else None)"

subsection \<open>Rendering\<close>

definition string4 :: "nat list \<Rightarrow> string" where
  "string4 fs = joinStr ''.'' (map natDigits fs)"

text \<open>The zero run that \<open>string6\<close> writes as \<open>::\<close>: the first of the longest runs of at least two
  groups; \<open>(255, 255)\<close> when there is none.\<close>

definition zeroRun :: "nat list \<Rightarrow> nat \<Rightarrow> nat" where
  "zeroRun gs i = length (takeWhile (\<lambda>g. g = 0) (drop i gs))"

definition bestRun :: "nat list \<Rightarrow> nat \<times> nat" where
  "bestRun gs =
     fold (\<lambda>i (zs, ze).
         let l = zeroRun gs i in if 2 \<le> l \<and> ze - zs < l then (i, i + l) else (zs, ze))
       [0 ..< 8] (255, 255)"

function emit6 :: "nat list \<Rightarrow> nat \<Rightarrow> nat \<Rightarrow> nat \<Rightarrow> string" where
  "emit6 gs zs ze i =
     (if 8 \<le> i then []
      else if i = zs then
        ''::'' @ (if 8 \<le> ze \<or> ze \<le> zs then [] else hexDigits (gs ! ze) @ emit6 gs zs ze (Suc ze))
      else (if 0 < i then '':'' else []) @ hexDigits (gs ! i) @ emit6 gs zs ze (Suc i))"
  by pat_completeness auto
termination
  by (relation "measure (\<lambda>(gs, zs, ze, i). 8 - i)") auto

declare emit6.simps [simp del]

definition string6 :: "nat list \<Rightarrow> string" where
  "string6 gs = (case bestRun gs of (zs, ze) \<Rightarrow> emit6 gs zs ze 0)"

definition withZone :: "string \<Rightarrow> string \<Rightarrow> string" where
  "withZone z s = (if z = [] then s else s @ ''%'' @ z)"

fun addrString :: "netAddr \<Rightarrow> string" where
  "addrString AddrZero = ''invalid IP''"
| "addrString (Addr4 fs) = string4 fs"
| "addrString (Addr6 gs z) =
     (if is4In6 (Addr6 gs z)
      then withZone z (''::ffff:'' @ string4 [gs ! 6 div 256, gs ! 6 mod 256,
                                              gs ! 7 div 256, gs ! 7 mod 256])
      else withZone z (string6 gs))"

end
