(* ===== verification/Resources.thy ===== *)
theory Resources
  imports DriverErrors GoNetip "HOL-Library.Word"
begin

text \<open>
  The data the driver exchanges with its environment: the Linode NFS resources and update
  options that \<open>pkg/linode-client\<close> passes, Kubernetes nodes and instance metadata, the CSI
  requests and responses, and \<open>statfs\<close>. A record holds the fields the driver reads or writes
  (time stamps and usage statistics, which it only copies, are left out). A Go pointer that may be
  nil is an \<open>option\<close>, a slice whose nil-ness is observable a \<open>slice\<close>; protobuf getters on a nil
  message return the zero value, as \<open>getMode\<close> and its kin do here.
\<close>

subsection \<open>Linode NFS resources\<close>

datatype NFSFilesystemStatus =
  NFSFilesystemStatusActive | NFSFilesystemStatusCreating | OtherFilesystemStatus string

datatype NFSAccessPolicyStatus =
  NFSAccessPolicyStatusActive | NFSAccessPolicyStatusUpdating | OtherPolicyStatus string

datatype NFSProtocolVersion = NFSProtocolVersionV4 | OtherProtocolVersion string

text \<open>The squash policies are strings; the three values are listed in
  \<open>docs/storage-class-parameters.md\<close>.\<close>

definition NFSSquashPolicyNone :: string where
  "NFSSquashPolicyNone = ''none''"

definition NFSSquashPolicyRootSquash :: string where
  "NFSSquashPolicyRootSquash = ''root_squash''"

definition NFSSquashPolicyAllSquash :: string where
  "NFSSquashPolicyAllSquash = ''all_squash''"

record NFSSpace =
  space_ID :: int
  space_Label :: string

record NFSSpaceAccessPolicy =
  sp_MTLSMode :: string

record NFSFilesystem =
  fs_ID :: int
  fs_SpaceID :: int
  fs_Label :: string
  fs_Region :: string
  fs_MaxCapacityBytes :: int
  fs_ProtocolVersions :: "NFSProtocolVersion list"
  fs_Status :: NFSFilesystemStatus
  fs_MountTargetIPs :: "string list"
  fs_MountTargetFQDN :: "string option"
  fs_SourceSnapshotID :: "int option"
  fs_Tags :: "string list"

record NFSFilesystemCreateOptions =
  cr_Label :: string
  cr_Region :: string
  cr_MaxCapacityBytes :: int
  cr_ProtocolVersions :: "NFSProtocolVersion list option"
  cr_Tags :: "string slice option"

record NFSFilesystemUpdateOptions =
  uf_MaxCapacityBytes :: "int option"

record NFSQuota =
  quota_ID :: int
  quota_FilesystemID :: int
  quota_IsRoot :: bool
  quota_MaxCapacityBytes :: "int option"

record NFSFilesystemAccessPolicy =
  pol_FilesystemID :: int
  pol_Label :: string
  pol_Enabled :: bool
  pol_LinodeACL :: "int list"
  pol_SquashPolicy :: string
  pol_Protocols :: "NFSProtocolVersion slice"
  pol_Status :: NFSAccessPolicyStatus

text \<open>\<open>pol_LinodeACL\<close> lists the \<open>ID\<close> fields of the ACL entries. In the update options each
  field is a pointer: \<open>None\<close> leaves the setting alone.\<close>

record NFSFilesystemAccessPolicyUpdateOptions =
  up_Label :: "string option"
  up_Enabled :: "bool option"
  up_LinodeIDs :: "int slice option"
  up_SquashPolicy :: "string option"
  up_Protocols :: "NFSProtocolVersion slice option"

text \<open>\<open>linodego.ListOptions\<close>, as \<open>NewListOptions(0, filter)\<close> builds it.\<close>

record ListOptions =
  lo_Page :: int
  lo_Filter :: string

subsection \<open>Kubernetes nodes and instance metadata\<close>

datatype NodeAddressType = NodeInternalIP | NodeExternalIP | OtherAddressType string

record KubeNode =
  node_Name :: string
  node_ProviderID :: string
  node_Labels :: "(string \<times> string) list"
  node_Addresses :: "(NodeAddressType \<times> string) list"

record InstanceData =
  inst_ID :: int
  inst_Region :: string

text \<open>Each \<open>netip.Prefix\<close> is kept as its address.\<close>

record NetworkData =
  net_IPv4Private :: "netAddr list"
  net_IPv4Public :: "netAddr list"
  net_SLAAC :: netAddr
  net_IPv6Ranges :: "netAddr list"

text \<open>Indexing a Go map: the zero value for a missing key.\<close>

definition mapGet :: "(string \<times> string) list \<Rightarrow> string \<Rightarrow> string" where
  "mapGet m k = (case map_of m k of None \<Rightarrow> [] | Some v \<Rightarrow> v)"

subsection \<open>CSI messages\<close>

datatype AccessMode =
    UNKNOWN | SINGLE_NODE_WRITER | SINGLE_NODE_READER_ONLY | MULTI_NODE_READER_ONLY
  | MULTI_NODE_SINGLE_WRITER | MULTI_NODE_MULTI_WRITER | SINGLE_NODE_SINGLE_WRITER
  | SINGLE_NODE_MULTI_WRITER | UnrecognizedMode int

datatype AccessType = AccessUnset | AccessBlock | AccessMount "string list"

record VolumeCapability =
  vc_AccessType :: AccessType
  vc_AccessMode :: "AccessMode option"

definition getMount :: "VolumeCapability \<Rightarrow> string list option" where
  "getMount c = (case vc_AccessType c of AccessMount flags \<Rightarrow> Some flags | _ \<Rightarrow> None)"

definition getMode :: "VolumeCapability \<Rightarrow> AccessMode" where
  "getMode c = (case vc_AccessMode c of None \<Rightarrow> UNKNOWN | Some m \<Rightarrow> m)"

record CapacityRange =
  cap_RequiredBytes :: int
  cap_LimitBytes :: int

definition getRequiredBytes :: "CapacityRange option \<Rightarrow> int" where
  "getRequiredBytes r = (case r of None \<Rightarrow> 0 | Some x \<Rightarrow> cap_RequiredBytes x)"

definition getLimitBytes :: "CapacityRange option \<Rightarrow> int" where
  "getLimitBytes r = (case r of None \<Rightarrow> 0 | Some x \<Rightarrow> cap_LimitBytes x)"

datatype VolumeContentSource = SourceUnset | SourceVolume string | SourceSnapshot string

record CreateVolumeRequest =
  cv_Name :: string
  cv_CapacityRange :: "CapacityRange option"
  cv_VolumeCapabilities :: "VolumeCapability option list"
  cv_Parameters :: "(string \<times> string) list"
  cv_VolumeContentSource :: "VolumeContentSource option"

record Volume =
  vol_VolumeId :: string
  vol_CapacityBytes :: int
  vol_VolumeContext :: "(string \<times> string) list"

record ControllerPublishVolumeRequest =
  pv_VolumeId :: string
  pv_NodeId :: string
  pv_VolumeCapability :: "VolumeCapability option"

record ControllerUnpublishVolumeRequest =
  uv_VolumeId :: string
  uv_NodeId :: string

record ValidateVolumeCapabilitiesRequest =
  vv_VolumeId :: string
  vv_VolumeCapabilities :: "VolumeCapability option list"

datatype ValidateVolumeCapabilitiesResponse =
    ValidateMessage string "fmtArg list"
  | ValidateConfirmed "(string \<times> string) list" "VolumeCapability option list"

record ControllerExpandVolumeRequest =
  ev_VolumeId :: string
  ev_CapacityRange :: "CapacityRange option"

record ControllerExpandVolumeResponse =
  er_CapacityBytes :: int
  er_NodeExpansionRequired :: bool

record ControllerGetVolumeResponse =
  gv_Volume :: Volume
  gv_PublishedNodeIds :: "string list"

record NodeStageVolumeRequest =
  ns_VolumeId :: string
  ns_StagingTargetPath :: string
  ns_VolumeCapability :: "VolumeCapability option"
  ns_VolumeContext :: "(string \<times> string) list"

record NodeUnstageVolumeRequest =
  nus_VolumeId :: string
  nus_StagingTargetPath :: string

record NodePublishVolumeRequest =
  np_VolumeId :: string
  np_StagingTargetPath :: string
  np_TargetPath :: string
  np_VolumeCapability :: "VolumeCapability option"
  np_Readonly :: bool

record NodeUnpublishVolumeRequest =
  nup_VolumeId :: string
  nup_TargetPath :: string

record NodeGetVolumeStatsRequest =
  st_VolumeId :: string
  st_VolumePath :: string

datatype UsageUnit = BYTES | INODES

record VolumeUsage =
  usage_Available :: "64 word"
  usage_Total :: "64 word"
  usage_Used :: "64 word"
  usage_Unit :: UsageUnit

text \<open>The fields of \<open>unix.Statfs_t\<close> that are read: \<open>uint64\<close> counters and an \<open>int64\<close> block
  size, all 64-bit words.\<close>

record Statfs =
  sf_Bsize :: "64 word"
  sf_Blocks :: "64 word"
  sf_Bfree :: "64 word"
  sf_Bavail :: "64 word"
  sf_Files :: "64 word"
  sf_Ffree :: "64 word"

end
