(* ===== verification/VolumeLocks.thy ===== *)
theory VolumeLocks
  imports Prelude
begin

text \<open>
  \<open>pkg/util/volume_lock.go\<close>: a set of keys with an ongoing operation. Both methods run under the
  mutex \<open>mux\<close>, so each is one atomic step on the set. The locale \<open>key_locks\<close> is the contract the
  RPC handlers rely on; it is interpreted on the model of the Go code below.
\<close>

subsection \<open>The contract\<close>

locale key_locks =
  fixes acquire :: "'k \<Rightarrow> 's \<Rightarrow> bool \<times> 's"
    and free :: "'k \<Rightarrow> 's \<Rightarrow> 's"
    and held :: "'s \<Rightarrow> 'k set"
  assumes acquire_result: "fst (acquire k s) \<longleftrightarrow> k \<notin> held s"
    and acquire_held: "held (snd (acquire k s)) = insert k (held s)"
    and free_held: "held (free k s) = held s - {k}"
begin

lemma exclusive: "\<not> fst (acquire k (snd (acquire k s)))"
  by (simp add: acquire_result acquire_held)

lemma balanced: "fst (acquire k s) \<Longrightarrow> held (free k (snd (acquire k s))) = held s"
  by (simp add: acquire_result acquire_held free_held)

lemma reacquire: "fst (acquire k (free k s))"
  by (simp add: acquire_result free_held)

lemma independent: "j \<noteq> k \<Longrightarrow> fst (acquire j (snd (acquire k s))) = fst (acquire j s)"
  by (simp add: acquire_result acquire_held)

end

subsection \<open>The code\<close>

record VolumeLocks =
  vl_locks :: "string set"

definition NewVolumeLocks :: VolumeLocks where
  "NewVolumeLocks = \<lparr>vl_locks = {}\<rparr>"

definition TryAcquire :: "string \<Rightarrow> VolumeLocks \<Rightarrow> bool \<times> VolumeLocks" where
  "TryAcquire volumeID vl =
     (if volumeID \<in> vl_locks vl then (False, vl)
      else (True, vl\<lparr>vl_locks := insert volumeID (vl_locks vl)\<rparr>))"

definition Release :: "string \<Rightarrow> VolumeLocks \<Rightarrow> VolumeLocks" where
  "Release volumeID vl = vl\<lparr>vl_locks := vl_locks vl - {volumeID}\<rparr>"

interpretation vl: key_locks TryAcquire Release vl_locks
  by unfold_locales (auto simp: TryAcquire_def Release_def)

lemma TryAcquire_held [simp]: "volumeID \<in> vl_locks vl \<Longrightarrow> TryAcquire volumeID vl = (False, vl)"
  by (simp add: TryAcquire_def)

lemma TryAcquire_free [simp]:
  "volumeID \<notin> vl_locks vl \<Longrightarrow>
     TryAcquire volumeID vl = (True, vl\<lparr>vl_locks := insert volumeID (vl_locks vl)\<rparr>)"
  by (simp add: TryAcquire_def)

lemma Release_acquired [simp]:
  "volumeID \<notin> vl_locks vl \<Longrightarrow>
     Release volumeID (vl\<lparr>vl_locks := insert volumeID (vl_locks vl)\<rparr>) = vl"
  by (simp add: Release_def)

end
