(* ===== verification/Effects.thy ===== *)
theory Effects
  imports Resources VolumeLocks
begin

text \<open>
  The driver as interaction programs. A handler performs calls on the Go interfaces it was built
  with (\<open>LinodeClient\<close>, \<open>KubeNodeClient\<close>, \<open>InstanceMetadataClient\<close>, the mounter, the file
  system), on the lock set and on the mutex-guarded fields of its process. \<open>eff\<close> has one
  constructor per such call, with its arguments and the continuation of its result; a \<open>prog\<close> is a
  tree of calls. The implementations behind the interfaces are parameters (the record \<open>env\<close>);
  \<open>run\<close> executes a program alone, and \<open>step\<close> performs a single call, which is how the
  interleaving semantics moves.
\<close>

subsection \<open>Calls\<close>

text \<open>The waiting calls carry the timeout of their context in seconds.\<close>

datatype 'k eff =
    ListNFSSpaces ListOptions "goError + NFSSpace list \<Rightarrow> 'k"
  | GetNFSSpace int "goError + NFSSpace \<Rightarrow> 'k"
  | ListNFSFilesystems int ListOptions "goError + NFSFilesystem list \<Rightarrow> 'k"
  | GetNFSFilesystemInSpace int int "goError + NFSFilesystem \<Rightarrow> 'k"
  | CreateNFSFilesystem int NFSFilesystemCreateOptions "goError + NFSFilesystem \<Rightarrow> 'k"
  | WaitForNFSFilesystemStatus nat int int NFSFilesystemStatus "goError + NFSFilesystem \<Rightarrow> 'k"
  | DeleteNFSFilesystem int int "goError option \<Rightarrow> 'k"
  | ListNFSQuotas int int "goError + NFSQuota list \<Rightarrow> 'k"
  | UpdateNFSFilesystem int int NFSFilesystemUpdateOptions "goError + NFSFilesystem \<Rightarrow> 'k"
  | GetNFSSpaceAccessPolicy int "goError + NFSSpaceAccessPolicy option \<Rightarrow> 'k"
  | GetNFSFilesystemAccessPolicy int int "goError + NFSFilesystemAccessPolicy \<Rightarrow> 'k"
  | UpdateNFSFilesystemAccessPolicy int int NFSFilesystemAccessPolicyUpdateOptions
      "goError + NFSFilesystemAccessPolicy \<Rightarrow> 'k"
  | WaitForNFSFilesystemAccessPolicyStatus nat int int NFSAccessPolicyStatus
      "goError + NFSFilesystemAccessPolicy \<Rightarrow> 'k"
  | GetNode string "goError + KubeNode \<Rightarrow> 'k"
  | ListNodes "goError + KubeNode list \<Rightarrow> 'k"
  | GetInstance "goError + InstanceData \<Rightarrow> 'k"
  | GetNetwork "goError + NetworkData option \<Rightarrow> 'k"
  | IsLikelyNotMountPoint string "bool \<times> goError option \<Rightarrow> 'k"
  | Mount string string string "string list" "goError option \<Rightarrow> 'k"
  | CleanupMountPoint string bool "goError option \<Rightarrow> 'k"
  | MkdirAll string "goError option \<Rightarrow> 'k"
  | UnixStatfs string "goError + Statfs \<Rightarrow> 'k"
  | LocksTryAcquire string "bool \<Rightarrow> 'k"
  | LocksRelease string "unit \<Rightarrow> 'k"
  | LockRegionMu "unit \<Rightarrow> 'k"
  | UnlockRegionMu "unit \<Rightarrow> 'k"
  | ReadRegion "string \<Rightarrow> 'k"
  | WriteRegion string "unit \<Rightarrow> 'k"
  | ReadReady "bool \<Rightarrow> 'k"
  | WriteReady bool "unit \<Rightarrow> 'k"

datatype 'a prog = Ret 'a | Do "'a prog eff"

subsection \<open>Sequencing\<close>

primrec bindP :: "'a prog \<Rightarrow> ('a \<Rightarrow> 'b prog) \<Rightarrow> 'b prog" where
  "bindP (Ret a) f = f a"
| "bindP (Do e) f = Do (map_eff (\<lambda>p. bindP p f) e)"

text \<open>\<open>if err != nil { return nil, err }\<close> after a call.\<close>

definition bindE :: "('e + 'a) prog \<Rightarrow> ('a \<Rightarrow> ('e + 'b) prog) \<Rightarrow> ('e + 'b) prog" where
  "bindE p f = bindP p (\<lambda>r. case r of Inl e \<Rightarrow> Ret (Inl e) | Inr a \<Rightarrow> f a)"

text \<open>\<open>if err != nil { return nil, h(err) }\<close>: the error is mapped first.\<close>

definition mapErr :: "('e \<Rightarrow> 'f) \<Rightarrow> ('e + 'a) prog \<Rightarrow> ('f + 'a) prog" where
  "mapErr h p = bindP p (\<lambda>r. case r of Inl e \<Rightarrow> Ret (Inl (h e)) | Inr a \<Rightarrow> Ret (Inr a))"

text \<open>A call that returns only an error.\<close>

definition checkErr :: "goError option prog \<Rightarrow> (goError + unit) prog" where
  "checkErr p = bindP p (\<lambda>r. case r of None \<Rightarrow> Ret (Inr ()) | Some e \<Rightarrow> Ret (Inl e))"

abbreviation okE :: "'a \<Rightarrow> (goError + 'a) prog" where
  "okE a \<equiv> Ret (Inr a)"

abbreviation failE :: "goError \<Rightarrow> (goError + 'a) prog" where
  "failE e \<equiv> Ret (Inl e)"

text \<open>A single call, returning its result.\<close>

abbreviation call :: "(('a \<Rightarrow> 'a prog) \<Rightarrow> 'a prog eff) \<Rightarrow> 'a prog" where
  "call c \<equiv> Do (c Ret)"

text \<open>A pure step that may fail.\<close>

abbreviation liftE :: "goError + 'a \<Rightarrow> (goError + 'a) prog" where
  "liftE r \<equiv> Ret r"

lemma bindP_Ret [simp]: "bindP p Ret = p"
proof (induction p)
  case (Do e)
  then have "map_eff (\<lambda>p. bindP p Ret) e = map_eff id e"
    by (intro eff.map_cong) auto
  then show ?case by (simp add: eff.map_id)
qed simp

lemma bindP_assoc: "bindP (bindP p f) g = bindP p (\<lambda>a. bindP (f a) g)"
proof (induction p)
  case (Do e)
  then have "map_eff (\<lambda>p. bindP (bindP p f) g) e = map_eff (\<lambda>p. bindP p (\<lambda>a. bindP (f a) g)) e"
    by (intro eff.map_cong) auto
  then show ?case by (simp add: eff.map_comp comp_def)
qed simp

lemma bindE_Ret [simp]:
  "bindE (Ret (Inl e)) f = Ret (Inl e)" "bindE (Ret (Inr a)) f = f a"
  by (simp_all add: bindE_def)

lemma mapErr_Ret [simp]:
  "mapErr h (Ret (Inl e)) = Ret (Inl (h e))" "mapErr h (Ret (Inr a)) = Ret (Inr a)"
  by (simp_all add: mapErr_def)

subsection \<open>The interfaces\<close>

text \<open>\<open>pkg/linode-client\<close>: the interface \<open>LinodeClient\<close>; a call reads and changes the backend.\<close>

record 'w LinodeClient =
  lc_ListNFSSpaces :: "ListOptions \<Rightarrow> 'w \<Rightarrow> (goError + NFSSpace list) \<times> 'w"
  lc_GetNFSSpace :: "int \<Rightarrow> 'w \<Rightarrow> (goError + NFSSpace) \<times> 'w"
  lc_ListNFSFilesystems :: "int \<Rightarrow> ListOptions \<Rightarrow> 'w \<Rightarrow> (goError + NFSFilesystem list) \<times> 'w"
  lc_GetNFSFilesystemInSpace :: "int \<Rightarrow> int \<Rightarrow> 'w \<Rightarrow> (goError + NFSFilesystem) \<times> 'w"
  lc_CreateNFSFilesystem ::
    "int \<Rightarrow> NFSFilesystemCreateOptions \<Rightarrow> 'w \<Rightarrow> (goError + NFSFilesystem) \<times> 'w"
  lc_WaitForNFSFilesystemStatus ::
    "nat \<Rightarrow> int \<Rightarrow> int \<Rightarrow> NFSFilesystemStatus \<Rightarrow> 'w \<Rightarrow> (goError + NFSFilesystem) \<times> 'w"
  lc_DeleteNFSFilesystem :: "int \<Rightarrow> int \<Rightarrow> 'w \<Rightarrow> goError option \<times> 'w"
  lc_ListNFSQuotas :: "int \<Rightarrow> int \<Rightarrow> 'w \<Rightarrow> (goError + NFSQuota list) \<times> 'w"
  lc_UpdateNFSFilesystem ::
    "int \<Rightarrow> int \<Rightarrow> NFSFilesystemUpdateOptions \<Rightarrow> 'w \<Rightarrow> (goError + NFSFilesystem) \<times> 'w"
  lc_GetNFSSpaceAccessPolicy :: "int \<Rightarrow> 'w \<Rightarrow> (goError + NFSSpaceAccessPolicy option) \<times> 'w"
  lc_GetNFSFilesystemAccessPolicy ::
    "int \<Rightarrow> int \<Rightarrow> 'w \<Rightarrow> (goError + NFSFilesystemAccessPolicy) \<times> 'w"
  lc_UpdateNFSFilesystemAccessPolicy ::
    "int \<Rightarrow> int \<Rightarrow> NFSFilesystemAccessPolicyUpdateOptions \<Rightarrow> 'w
       \<Rightarrow> (goError + NFSFilesystemAccessPolicy) \<times> 'w"
  lc_WaitForNFSFilesystemAccessPolicyStatus ::
    "nat \<Rightarrow> int \<Rightarrow> int \<Rightarrow> NFSAccessPolicyStatus \<Rightarrow> 'w
       \<Rightarrow> (goError + NFSFilesystemAccessPolicy) \<times> 'w"

text \<open>\<open>internal/driver/metadata.go\<close>: \<open>KubeNodeClient\<close> and \<open>InstanceMetadataClient\<close>.\<close>

record 'w MetadataClients =
  mc_GetNode :: "string \<Rightarrow> 'w \<Rightarrow> (goError + KubeNode) \<times> 'w"
  mc_ListNodes :: "'w \<Rightarrow> (goError + KubeNode list) \<times> 'w"
  mc_GetInstance :: "'w \<Rightarrow> (goError + InstanceData) \<times> 'w"
  mc_GetNetwork :: "'w \<Rightarrow> (goError + NetworkData option) \<times> 'w"

text \<open>The host: \<open>mount.Interface\<close> with \<open>mount.CleanupMountPoint\<close>, \<open>filesystem.FileSystem\<close> and
  \<open>unix.Statfs\<close>.\<close>

record 'w Host =
  h_IsLikelyNotMountPoint :: "string \<Rightarrow> 'w \<Rightarrow> (bool \<times> goError option) \<times> 'w"
  h_Mount :: "string \<Rightarrow> string \<Rightarrow> string \<Rightarrow> string list \<Rightarrow> 'w \<Rightarrow> goError option \<times> 'w"
  h_CleanupMountPoint :: "string \<Rightarrow> bool \<Rightarrow> 'w \<Rightarrow> goError option \<times> 'w"
  h_MkdirAll :: "string \<Rightarrow> 'w \<Rightarrow> goError option \<times> 'w"
  h_Statfs :: "string \<Rightarrow> 'w \<Rightarrow> (goError + Statfs) \<times> 'w"

record 'w env =
  env_client :: "'w LinodeClient"
  env_metadata :: "'w MetadataClients"
  env_host :: "'w Host"

subsection \<open>The process state\<close>

text \<open>The world behind the interfaces and the fields the handlers of a process share: the lock
  set, the cached region with its mutex, and the \<open>ready\<close> flag.\<close>

record 'w proc =
  proc_world :: 'w
  proc_locks :: VolumeLocks
  proc_region :: string
  proc_regionMu :: bool
  proc_ready :: bool

definition onWorld :: "('w \<Rightarrow> 'r \<times> 'w) \<Rightarrow> ('r \<Rightarrow> 'k) \<Rightarrow> 'w proc \<Rightarrow> 'k \<times> 'w proc" where
  "onWorld f k s = (case f (proc_world s) of (r, w) \<Rightarrow> (k r, s\<lparr>proc_world := w\<rparr>))"

fun step :: "'w env \<Rightarrow> 'k eff \<Rightarrow> 'w proc \<Rightarrow> 'k \<times> 'w proc" where
  "step v (ListNFSSpaces o' k) s = onWorld (lc_ListNFSSpaces (env_client v) o') k s"
| "step v (GetNFSSpace i k) s = onWorld (lc_GetNFSSpace (env_client v) i) k s"
| "step v (ListNFSFilesystems i o' k) s =
     onWorld (lc_ListNFSFilesystems (env_client v) i o') k s"
| "step v (GetNFSFilesystemInSpace i j k) s =
     onWorld (lc_GetNFSFilesystemInSpace (env_client v) i j) k s"
| "step v (CreateNFSFilesystem i o' k) s =
     onWorld (lc_CreateNFSFilesystem (env_client v) i o') k s"
| "step v (WaitForNFSFilesystemStatus t i j st k) s =
     onWorld (lc_WaitForNFSFilesystemStatus (env_client v) t i j st) k s"
| "step v (DeleteNFSFilesystem i j k) s = onWorld (lc_DeleteNFSFilesystem (env_client v) i j) k s"
| "step v (ListNFSQuotas i j k) s = onWorld (lc_ListNFSQuotas (env_client v) i j) k s"
| "step v (UpdateNFSFilesystem i j o' k) s =
     onWorld (lc_UpdateNFSFilesystem (env_client v) i j o') k s"
| "step v (GetNFSSpaceAccessPolicy i k) s =
     onWorld (lc_GetNFSSpaceAccessPolicy (env_client v) i) k s"
| "step v (GetNFSFilesystemAccessPolicy i j k) s =
     onWorld (lc_GetNFSFilesystemAccessPolicy (env_client v) i j) k s"
| "step v (UpdateNFSFilesystemAccessPolicy i j o' k) s =
     onWorld (lc_UpdateNFSFilesystemAccessPolicy (env_client v) i j o') k s"
| "step v (WaitForNFSFilesystemAccessPolicyStatus t i j st k) s =
     onWorld (lc_WaitForNFSFilesystemAccessPolicyStatus (env_client v) t i j st) k s"
| "step v (GetNode n k) s = onWorld (mc_GetNode (env_metadata v) n) k s"
| "step v (ListNodes k) s = onWorld (mc_ListNodes (env_metadata v)) k s"
| "step v (GetInstance k) s = onWorld (mc_GetInstance (env_metadata v)) k s"
| "step v (GetNetwork k) s = onWorld (mc_GetNetwork (env_metadata v)) k s"
| "step v (IsLikelyNotMountPoint p k) s = onWorld (h_IsLikelyNotMountPoint (env_host v) p) k s"
| "step v (Mount a b c d k) s = onWorld (h_Mount (env_host v) a b c d) k s"
| "step v (CleanupMountPoint p b k) s = onWorld (h_CleanupMountPoint (env_host v) p b) k s"
| "step v (MkdirAll p k) s = onWorld (h_MkdirAll (env_host v) p) k s"
| "step v (UnixStatfs p k) s = onWorld (h_Statfs (env_host v) p) k s"
| "step v (LocksTryAcquire x k) s =
     (case TryAcquire x (proc_locks s) of (b, l) \<Rightarrow> (k b, s\<lparr>proc_locks := l\<rparr>))"
| "step v (LocksRelease x k) s = (k (), s\<lparr>proc_locks := Release x (proc_locks s)\<rparr>)"
| "step v (LockRegionMu k) s = (k (), s\<lparr>proc_regionMu := True\<rparr>)"
| "step v (UnlockRegionMu k) s = (k (), s\<lparr>proc_regionMu := False\<rparr>)"
| "step v (ReadRegion k) s = (k (proc_region s), s)"
| "step v (WriteRegion r k) s = (k (), s\<lparr>proc_region := r\<rparr>)"
| "step v (ReadReady k) s = (k (proc_ready s), s)"
| "step v (WriteReady b k) s = (k (), s\<lparr>proc_ready := b\<rparr>)"

text \<open>A blocked call: the mutex of the region cache is held. No other call blocks.\<close>

fun canStep :: "'k eff \<Rightarrow> 'w proc \<Rightarrow> bool" where
  "canStep (LockRegionMu k) s = (\<not> proc_regionMu s)"
| "canStep e s = True"

lemma step_map: "step v (map_eff f e) s = map_prod f id (step v e s)"
  by (cases e) (simp_all add: onWorld_def split: prod.split)

subsection \<open>Running a program alone\<close>

primrec run :: "'a prog \<Rightarrow> 'w env \<Rightarrow> 'w proc \<Rightarrow> 'a \<times> 'w proc" where
  "run (Ret a) v s = (a, s)"
| "run (Do e) v s = (case step v (map_eff run e) s of (g, s') \<Rightarrow> g v s')"

lemma run_Do: "run (Do e) v s = (case step v e s of (p, s') \<Rightarrow> run p v s')"
  by (simp add: step_map split: prod.split)

declare run.simps(2) [simp del]

lemma run_bindP [run_simps]:
  "run (bindP p f) v s = (case run p v s of (a, s') \<Rightarrow> run (f a) v s')"
proof (induction p arbitrary: s)
  case (Do e)
  obtain p s' where ps: "step v e s = (p, s')" by (cases "step v e s")
  have "p \<in> set_eff e"
    using ps by (cases e) (auto simp: onWorld_def split: prod.splits)
  with Do.IH have "run (bindP p f) v s' = (case run p v s' of (a, s'') \<Rightarrow> run (f a) v s'')" .
  with ps show ?case by (simp add: run_Do step_map)
qed simp

lemma run_bindE [run_simps]:
  "run (bindE p f) v s =
     (case run p v s of (r, s') \<Rightarrow> (case r of Inl e \<Rightarrow> (Inl e, s') | Inr a \<Rightarrow> run (f a) v s'))"
  by (simp add: bindE_def run_bindP split: prod.split sum.split)

lemma run_mapErr [run_simps]:
  "run (mapErr h p) v s =
     (case run p v s of (r, s') \<Rightarrow> (case r of Inl e \<Rightarrow> (Inl (h e), s') | Inr a \<Rightarrow> (Inr a, s')))"
  by (simp add: mapErr_def run_bindP split: prod.split sum.split)

lemma run_checkErr [run_simps]:
  "run (checkErr p) v s =
     (case run p v s of (r, s') \<Rightarrow> (case r of None \<Rightarrow> (Inr (), s') | Some e \<Rightarrow> (Inl e, s')))"
  by (simp add: checkErr_def run_bindP split: prod.split option.split)

lemmas run_Ret [run_simps] = run.simps(1)

declare run_Do [run_simps] and onWorld_def [run_simps]

subsection \<open>The lock around an operation\<close>

definition VolumeOperationAlreadyExistsFmt :: string where
  "VolumeOperationAlreadyExistsFmt =
     ''An operation with the given volume key %s already exists.'' @ [byte 10]
     @ '' --- Most likely a long process is still running to completion. Retrying.''"

text \<open>\<open>if acquired := locks.TryAcquire(key); !acquired { return Aborted }; defer locks.Release(key)\<close>
  around the rest of a handler: the lock is released on every return of the body.\<close>

definition withVolumeLock :: "string \<Rightarrow> (goError + 'a) prog \<Rightarrow> (goError + 'a) prog" where
  "withVolumeLock key body =
     bindP (call (LocksTryAcquire key)) (\<lambda>acquired.
       if \<not> acquired then
         failE (StatusError Aborted VolumeOperationAlreadyExistsFmt [AStr key])
       else bindP body (\<lambda>r. bindP (call (LocksRelease key)) (\<lambda>_. Ret r)))"

lemma run_withVolumeLock_busy:
  "key \<in> vl_locks (proc_locks s) \<Longrightarrow>
     run (withVolumeLock key body) v s =
       (Inl (StatusError Aborted VolumeOperationAlreadyExistsFmt [AStr key]), s)"
  by (simp add: withVolumeLock_def run_simps)

lemma run_withVolumeLock_free:
  "key \<notin> vl_locks (proc_locks s) \<Longrightarrow>
     run (withVolumeLock key body) v s =
       (case run body v
              (s\<lparr>proc_locks := (proc_locks s)\<lparr>vl_locks := insert key (vl_locks (proc_locks s))\<rparr>\<rparr>) of
          (r, s') \<Rightarrow> (r, s'\<lparr>proc_locks := Release key (proc_locks s')\<rparr>))"
  by (simp add: withVolumeLock_def run_simps split: prod.split)

subsection \<open>Programs without calls on the lock set\<close>

fun lockCall :: "'k eff \<Rightarrow> bool" where
  "lockCall (LocksTryAcquire x k) = True"
| "lockCall (LocksRelease x k) = True"
| "lockCall e = False"

primrec lockFree :: "'a prog \<Rightarrow> bool" where
  "lockFree (Ret a) = True"
| "lockFree (Do e) = (\<not> lockCall e \<and> (\<forall>b \<in> set_eff (map_eff lockFree e). b))"

lemma lockCall_map [simp]: "lockCall (map_eff f e) = lockCall e"
  by (cases e) simp_all

lemma lockFree_Do: "lockFree (Do e) \<longleftrightarrow> \<not> lockCall e \<and> (\<forall>p \<in> set_eff e. lockFree p)"
  by (simp add: eff.set_map)

declare lockFree.simps(2) [simp del]

lemma lockFree_call: "\<not> lockCall e \<Longrightarrow> (\<And>p. p \<in> set_eff e \<Longrightarrow> lockFree p) \<Longrightarrow> lockFree (Do e)"
  by (simp add: lockFree_Do)

lemma lockFree_bindP:
  assumes "lockFree p" and "\<And>a. lockFree (f a)"
  shows "lockFree (bindP p f)"
  using assms(1)
proof (induction p)
  case (Ret a)
  show ?case using assms(2) by simp
next
  case (Do e)
  then show ?case by (auto simp: lockFree_Do eff.set_map)
qed

lemma lockFree_bindE: "lockFree p \<Longrightarrow> (\<And>a. lockFree (f a)) \<Longrightarrow> lockFree (bindE p f)"
  by (auto simp: bindE_def intro: lockFree_bindP split: sum.split)

lemma lockFree_mapErr: "lockFree p \<Longrightarrow> lockFree (mapErr h p)"
  by (auto simp: mapErr_def intro: lockFree_bindP split: sum.split)

lemma lockFree_checkErr: "lockFree p \<Longrightarrow> lockFree (checkErr p)"
  by (auto simp: checkErr_def intro: lockFree_bindP split: option.split)

lemmas lockFree_intros = lockFree_bindP lockFree_bindE lockFree_mapErr lockFree_checkErr lockFree_call

lemma step_locks: "\<not> lockCall e \<Longrightarrow> proc_locks (snd (step v e s)) = proc_locks s"
  by (cases e) (simp_all add: onWorld_def split: prod.split)

lemma step_set: "fst (step v e s) \<in> set_eff e"
  by (cases e) (auto simp: onWorld_def split: prod.split)

lemma lockFree_run: "lockFree p \<Longrightarrow> proc_locks (snd (run p v s)) = proc_locks s"
proof (induction p arbitrary: s)
  case (Do e)
  obtain p s' where ps: "step v e s = (p, s')" by (cases "step v e s")
  from Do.prems have "\<not> lockCall e" and sub: "\<And>p. p \<in> set_eff e \<Longrightarrow> lockFree p"
    by (simp_all add: lockFree_Do)
  moreover from ps step_set [of v e s] have "p \<in> set_eff e" by simp
  ultimately show ?case
    using Do.IH [of p s'] ps step_locks [of e v s] by (simp add: run_Do)
qed simp

text \<open>The lock set is the same before and after a locked operation, whatever the operation
  returns and whether or not the key was free.\<close>

lemma run_withVolumeLock_locks:
  assumes "lockFree body"
  shows "proc_locks (snd (run (withVolumeLock key body) v s)) = proc_locks s"
proof (cases "key \<in> vl_locks (proc_locks s)")
  case True
  then show ?thesis by (simp add: run_withVolumeLock_busy)
next
  case False
  let ?s = "s\<lparr>proc_locks := (proc_locks s)\<lparr>vl_locks := insert key (vl_locks (proc_locks s))\<rparr>\<rparr>"
  obtain r s' where rs: "run body v ?s = (r, s')" by (cases "run body v ?s")
  with lockFree_run [OF assms, of v ?s] have "proc_locks s' = proc_locks ?s" by simp
  with False rs show ?thesis by (simp add: run_withVolumeLock_free)
qed

end
