(* ===== verification/ControllerHelpers.thy ===== *)
theory ControllerHelpers
  imports Effects
begin

text \<open>
  The pure part of \<open>internal/driver/controller_helpers.go\<close>: StorageClass parameters, tags, volume
  and snapshot handles, capacities, volume capabilities, the volume context, mount targets, access
  policies, list filters and filesystem labels. The steps that call the Linode API are in
  theory \<open>ControllerServer\<close>.
\<close>

subsection \<open>Constants\<close>

definition Name :: string where
  "Name = ''linodenfs.csi.linode.com''"

definition storageClassParamNamespace :: string where
  "storageClassParamNamespace = Name @ ''/''"

definition storageClassParamSpaceID :: string where
  "storageClassParamSpaceID = storageClassParamNamespace @ ''space-id''"

definition storageClassParamSpaceLabel :: string where
  "storageClassParamSpaceLabel = storageClassParamNamespace @ ''space-label''"

definition storageClassParamRootSquash :: string where
  "storageClassParamRootSquash = storageClassParamNamespace @ ''filesystem-root-squash''"

definition storageClassParamTags :: string where
  "storageClassParamTags = storageClassParamNamespace @ ''tags''"

definition volumeContextSpaceID :: string where
  "volumeContextSpaceID = ''space-id''"

definition volumeContextFilesystemID :: string where
  "volumeContextFilesystemID = ''filesystem-id''"

definition volumeContextMountTarget :: string where
  "volumeContextMountTarget = ''mount-target''"

definition volumeContextMountTargetIPs :: string where
  "volumeContextMountTargetIPs = ''mount-target-ips''"

definition volumeContextRegion :: string where
  "volumeContextRegion = ''region''"

definition volumeContextSpaceMTLSMode :: string where
  "volumeContextSpaceMTLSMode = ''mtls-mode''"

definition mtlsModeRequired :: string where
  "mtlsModeRequired = ''required''"

definition mtlsModeOptional :: string where
  "mtlsModeOptional = ''optional''"

definition mtlsModeDisabled :: string where
  "mtlsModeDisabled = ''disabled''"

definition filterFieldLabel :: string where
  "filterFieldLabel = ''label''"

definition filterFieldRegion :: string where
  "filterFieldRegion = ''region''"

definition nfsLabelMaxBytes :: nat where
  "nfsLabelMaxBytes = 63"

text \<open>\<open>waitTimeout\<close>, in seconds.\<close>

definition waitTimeout :: nat where
  "waitTimeout = 5 * 60"

lemmas volumeContext_keys =
  volumeContextSpaceID_def volumeContextFilesystemID_def volumeContextMountTarget_def
  volumeContextMountTargetIPs_def volumeContextRegion_def volumeContextSpaceMTLSMode_def

lemmas storageClass_keys =
  storageClassParamSpaceID_def storageClassParamSpaceLabel_def storageClassParamRootSquash_def
  storageClassParamTags_def storageClassParamNamespace_def Name_def

lemmas squash_policies =
  NFSSquashPolicyNone_def NFSSquashPolicyRootSquash_def NFSSquashPolicyAllSquash_def

subsection \<open>StorageClass parameters\<close>

record createVolumeParameters =
  par_region :: string
  par_spaceID :: int
  par_spaceLabel :: string
  par_tags :: "string slice"
  par_squashPolicy :: string
  par_squashPolicySet :: bool

definition splitTags :: "string \<Rightarrow> string slice" where
  "splitTags value =
     (if trimSpace value = [] then None
      else Some (filter (\<lambda>tag. tag \<noteq> []) (map trimSpace (splitByte CHR '','' value))))"

text \<open>The squash part of the parser: the policy and whether it was set.\<close>

definition parseSquash :: "string \<Rightarrow> goError + string \<times> bool" where
  "parseSquash value =
     (if value \<noteq> [] then
        (if value \<in> {NFSSquashPolicyNone, NFSSquashPolicyRootSquash, NFSSquashPolicyAllSquash}
         then Inr (value, True)
         else Inl (StatusError InvalidArgument ''unsupported %s value %q''
                    [AStr storageClassParamRootSquash, AStr value]))
      else Inr ([], False))"

definition parseSpaceID :: "string \<Rightarrow> goError + int" where
  "parseSpaceID spaceID =
     (if spaceID \<noteq> [] then
        (case Atoi spaceID of
           Inr i \<Rightarrow>
             if i \<le> 0 then
               Inl (StatusError InvalidArgument ''StorageClass parameter %s %q must be a positive integer''
                     [AStr storageClassParamSpaceID, AStr spaceID])
             else Inr i
         | Inl e \<Rightarrow>
             Inl (StatusError InvalidArgument ''StorageClass parameter %s %q must be a positive integer''
                   [AStr storageClassParamSpaceID, AStr spaceID]))
      else Inr 0)"

definition parseCreateVolumeParameters ::
    "(string \<times> string) list \<Rightarrow> goError + createVolumeParameters" where
  "parseCreateVolumeParameters params =
     (let spaceID = trimSpace (mapGet params storageClassParamSpaceID);
          spaceLabel = trimSpace (mapGet params storageClassParamSpaceLabel);
          tags = splitTags (mapGet params storageClassParamTags) in
      bindR (parseSpaceID spaceID) (\<lambda>i.
      if i = 0 \<and> spaceLabel = [] then
        Inl (StatusError InvalidArgument
          ''StorageClass must set either %s or %s for a pre-created NFS Storage Space''
          [AStr storageClassParamSpaceID, AStr storageClassParamSpaceLabel])
      else if i \<noteq> 0 \<and> spaceLabel \<noteq> [] then
        Inl (StatusError InvalidArgument ''StorageClass parameters %s and %s are mutually exclusive''
          [AStr storageClassParamSpaceID, AStr storageClassParamSpaceLabel])
      else
        bindR (parseSquash (trimSpace (mapGet params storageClassParamRootSquash))) (\<lambda>(sq, set').
        Inr \<lparr>par_region = [], par_spaceID = i, par_spaceLabel = spaceLabel, par_tags = tags,
             par_squashPolicy = sq, par_squashPolicySet = set'\<rparr>)))"

subsection \<open>Handles\<close>

record volumeHandle =
  vh_spaceID :: int
  vh_filesystemID :: int

record snapshotHandle =
  sh_spaceID :: int
  sh_filesystemID :: int
  sh_snapshotID :: int

definition parseVolumeHandle :: "string \<Rightarrow> goError + volumeHandle" where
  "parseVolumeHandle volumeID =
     (let badFormat = StatusError InvalidArgument
            ''volume id %q must have format {space_id}/{filesystem_id}'' [AStr volumeID] in
      case splitByte CHR ''/'' (trimSpace volumeID) of
        [a, b] \<Rightarrow>
          if a = [] \<or> b = [] then Inl badFormat
          else (case Atoi a of
              Inl e \<Rightarrow> Inl (StatusError InvalidArgument ''volume id %q has invalid space id''
                         [AStr volumeID])
            | Inr spaceID \<Rightarrow>
                (case Atoi b of
                   Inl e \<Rightarrow> Inl (StatusError InvalidArgument
                              ''volume id %q has invalid filesystem id'' [AStr volumeID])
                 | Inr filesystemID \<Rightarrow>
                     Inr \<lparr>vh_spaceID = spaceID, vh_filesystemID = filesystemID\<rparr>))
      | _ \<Rightarrow> Inl badFormat)"

definition formatVolumeHandle :: "int \<Rightarrow> int \<Rightarrow> string" where
  "formatVolumeHandle spaceID filesystemID = Itoa spaceID @ ''/'' @ Itoa filesystemID"

definition formatSnapshotHandle :: "int \<Rightarrow> int \<Rightarrow> int \<Rightarrow> string" where
  "formatSnapshotHandle spaceID filesystemID snapshotID =
     Itoa spaceID @ ''/'' @ Itoa filesystemID @ ''/'' @ Itoa snapshotID"

definition parseSnapshotHandle :: "string \<Rightarrow> goError + snapshotHandle" where
  "parseSnapshotHandle snapshotID =
     (case splitByte CHR ''/'' (trimSpace snapshotID) of
        [a, b, c] \<Rightarrow>
          (case (Atoi a, Atoi b, Atoi c) of
             (Inr i, Inr j, Inr k) \<Rightarrow>
               Inr \<lparr>sh_spaceID = i, sh_filesystemID = j, sh_snapshotID = k\<rparr>
           | _ \<Rightarrow> Inl (StatusError InvalidArgument ''snapshot id %q must contain integer IDs''
                     [AStr snapshotID]))
      | _ \<Rightarrow> Inl (StatusError InvalidArgument
                ''snapshot id %q must have format {space_id}/{filesystem_id}/{snapshot_id}''
                [AStr snapshotID]))"

definition parseSnapshotContentSource ::
    "VolumeContentSource option \<Rightarrow> goError + snapshotHandle option" where
  "parseSnapshotContentSource source =
     (case source of
        None \<Rightarrow> Inr None
      | Some (SourceSnapshot snapshotID) \<Rightarrow>
          if snapshotID = [] then
            Inl (StatusError InvalidArgument ''snapshot id is required'' [])
          else (case parseSnapshotHandle snapshotID of
              Inl e \<Rightarrow> Inl (StatusError NotFound ''snapshot id %q was not found''
                         [AStr snapshotID])
            | Inr h \<Rightarrow> Inr (Some h))
      | Some _ \<Rightarrow> Inl (StatusError InvalidArgument ''unsupported volume content source'' []))"

definition parseVolumeHandleAndNodeID :: "string \<Rightarrow> string \<Rightarrow> goError + volumeHandle \<times> int" where
  "parseVolumeHandleAndNodeID volumeID nodeID =
     bindR (parseVolumeHandle volumeID) (\<lambda>handle.
       case Atoi nodeID of
         Inl e \<Rightarrow> Inl (StatusError InvalidArgument ''node id %q must be a Linode ID'' [AStr nodeID])
       | Inr linodeID \<Rightarrow> Inr (handle, linodeID))"

subsection \<open>Capacities\<close>

definition requestedCapacityBytes :: "CapacityRange option \<Rightarrow> int" where
  "requestedCapacityBytes r =
     (case r of
        None \<Rightarrow> 0
      | Some c \<Rightarrow> if cap_RequiredBytes c > 0 then cap_RequiredBytes c else cap_LimitBytes c)"

definition validateExistingFilesystemCapacity ::
    "NFSFilesystem \<Rightarrow> CapacityRange option \<Rightarrow> goError + unit" where
  "validateExistingFilesystemCapacity filesystem r =
     (let capacityBytes = fs_MaxCapacityBytes filesystem in
      if capacityBytes = 0 then Inr ()
      else if getRequiredBytes r > capacityBytes
           \<or> (getLimitBytes r \<noteq> 0 \<and> capacityBytes > getLimitBytes r) then
        Inl (StatusError AlreadyExists
          ''NFS filesystem %q already exists with incompatible capacity %d''
          [AStr (fs_Label filesystem), AInt capacityBytes])
      else Inr ())"

subsection \<open>Volume capabilities\<close>

text \<open>The message of an unsupported capability, with its format arguments.\<close>

definition volumeCapabilitySupported ::
    "VolumeCapability option \<Rightarrow> bool \<times> string \<times> fmtArg list" where
  "volumeCapabilitySupported capability =
     (case capability of
        None \<Rightarrow> (False, ''no volume capability set'', [])
      | Some c \<Rightarrow>
          if getMount c = None then
            (False, ''only mount volume capabilities are supported'', [])
          else (case getMode c of
              UNKNOWN \<Rightarrow> (False, ''volume access mode is required'', [])
            | UnrecognizedMode n \<Rightarrow>
                (False, ''unsupported volume access mode %s'', [AStr (Itoa n)])
            | _ \<Rightarrow> (True, [], [])))"

definition capabilityError :: "VolumeCapability option \<Rightarrow> goError + unit" where
  "capabilityError c =
     (case volumeCapabilitySupported c of (supported, f, args) \<Rightarrow>
        if supported then Inr () else Inl (StatusError InvalidArgument f args))"

fun checkCapabilities :: "VolumeCapability option list \<Rightarrow> goError + unit" where
  "checkCapabilities [] = Inr ()"
| "checkCapabilities (c # cs) = bindR (capabilityError c) (\<lambda>_. checkCapabilities cs)"

definition validateCreateVolumeCapabilities ::
    "VolumeCapability option list \<Rightarrow> goError + unit" where
  "validateCreateVolumeCapabilities cs =
     (if cs = [] then Inl errNoVolumeCapabilities else checkCapabilities cs)"

subsection \<open>Mount targets and the CSI volume\<close>

definition filesystemMountTarget :: "NFSFilesystem \<Rightarrow> string" where
  "filesystemMountTarget filesystem =
     (case fs_MountTargetFQDN filesystem of None \<Rightarrow> [] | Some fqdn \<Rightarrow> fqdn)"

definition mountTargetIP :: "string \<Rightarrow> string" where
  "mountTargetIP target =
     (case cutStr '':/'' target of
        None \<Rightarrow> []
      | Some (host, rest) \<Rightarrow>
          (case ParseAddr (trimSet {CHR ''['', CHR '']''} host) of
             None \<Rightarrow> []
           | Some address \<Rightarrow>
               if \<not> is6 address \<or> is4In6 address then [] else addrString address))"

definition validateFilesystemMountTarget :: "NFSFilesystem \<Rightarrow> goError + unit" where
  "validateFilesystemMountTarget filesystem =
     (if filesystemMountTarget filesystem \<noteq> [] then Inr ()
      else if \<exists>target \<in> set (fs_MountTargetIPs filesystem). mountTargetIP target \<noteq> [] then Inr ()
      else Inl (StatusError FailedPrecondition ''NFS filesystem %d does not have a mount target''
             [AInt (fs_ID filesystem)]))"

definition volumeContext :: "NFSFilesystem \<Rightarrow> string \<Rightarrow> (string \<times> string) list" where
  "volumeContext filesystem mtlsMode =
     [(volumeContextSpaceID, Itoa (fs_SpaceID filesystem)),
      (volumeContextFilesystemID, Itoa (fs_ID filesystem)),
      (volumeContextMountTarget, filesystemMountTarget filesystem),
      (volumeContextMountTargetIPs, joinStr '','' (fs_MountTargetIPs filesystem)),
      (volumeContextRegion, fs_Region filesystem)]
     @ (if mtlsMode \<noteq> [] then [(volumeContextSpaceMTLSMode, mtlsMode)] else [])"

definition csiVolume :: "NFSFilesystem \<Rightarrow> string \<Rightarrow> Volume" where
  "csiVolume filesystem mtlsMode =
     \<lparr>vol_VolumeId = formatVolumeHandle (fs_SpaceID filesystem) (fs_ID filesystem),
      vol_CapacityBytes = fs_MaxCapacityBytes filesystem,
      vol_VolumeContext = volumeContext filesystem mtlsMode\<rparr>"

subsection \<open>Access policies\<close>

definition filesystemPolicyLinodeIDs :: "NFSFilesystemAccessPolicy \<Rightarrow> int slice" where
  "filesystemPolicyLinodeIDs policy =
     (if pol_LinodeACL policy = [] then None
      else Some (filter (\<lambda>i. i \<noteq> 0) (pol_LinodeACL policy)))"

definition publishedNodeIDs :: "int list \<Rightarrow> string list" where
  "publishedNodeIDs linodeIDs = map Itoa linodeIDs"

definition csiControllerVolumeStatus :: "NFSFilesystemAccessPolicy \<Rightarrow> string list" where
  "csiControllerVolumeStatus policy =
     (if \<not> pol_Enabled policy then []
      else publishedNodeIDs (elems (filesystemPolicyLinodeIDs policy)))"

definition filesystemPolicyUpdate ::
    "NFSFilesystemAccessPolicy \<Rightarrow> bool \<Rightarrow> int slice \<Rightarrow> NFSFilesystemAccessPolicyUpdateOptions" where
  "filesystemPolicyUpdate policy enabled linodeIDs =
     \<lparr>up_Label = Some (pol_Label policy), up_Enabled = Some enabled,
      up_LinodeIDs = Some linodeIDs, up_SquashPolicy = Some (pol_SquashPolicy policy),
      up_Protocols = (if pol_Protocols policy \<noteq> None then Some (pol_Protocols policy) else None)\<rparr>"

subsection \<open>List filters and labels\<close>

definition listOptionsForExactFields ::
    "linodego \<Rightarrow> (string \<times> string) list \<Rightarrow> goError + ListOptions" where
  "listOptionsForExactFields lg exact =
     (case FilterJSON lg exact of
        Inl err \<Rightarrow> Inl (StatusError Internal ''build Linode API filter: %v'' [AErr err])
      | Inr bytes \<Rightarrow> Inr \<lparr>lo_Page = 0, lo_Filter = bytes\<rparr>)"

text \<open>\<open>strings.ToLower\<close>: bytewise on ASCII strings; on others it maps runes by the Unicode
  tables, which are the parameter \<open>uni\<close>.\<close>

definition lowerByte :: "char \<Rightarrow> char" where
  "lowerByte c = (let n = of_char c in if 65 \<le> n \<and> n \<le> (90::nat) then byte (n + 32) else c)"

definition isASCII :: "string \<Rightarrow> bool" where
  "isASCII s \<longleftrightarrow> (\<forall>c \<in> set s. (of_char c :: nat) < 128)"

definition normalizeLabel :: "(string \<Rightarrow> string) \<Rightarrow> string \<Rightarrow> string" where
  "normalizeLabel uni name = (if isASCII name then map lowerByte name else uni name)"

definition truncateNFSLabelToMaxBytes :: "string \<Rightarrow> string" where
  "truncateNFSLabelToMaxBytes label =
     (if length label \<le> nfsLabelMaxBytes then label
      else rev (dropWhile (\<lambda>c. c = CHR ''-'') (rev (take nfsLabelMaxBytes label))))"

definition validateExistingSnapshotClone ::
    "NFSFilesystem \<Rightarrow> int \<Rightarrow> string \<Rightarrow> goError + unit" where
  "validateExistingSnapshotClone filesystem sourceSnapshotID region =
     (case fs_SourceSnapshotID filesystem of
        None \<Rightarrow> Inl (StatusError AlreadyExists
          ''NFS filesystem %d (%q) does not identify a source snapshot; requested snapshot %d''
          [AInt (fs_ID filesystem), AStr (fs_Label filesystem), AInt sourceSnapshotID])
      | Some s \<Rightarrow>
          if s \<noteq> sourceSnapshotID then Inl (StatusError AlreadyExists
            ''NFS filesystem %d (%q) was cloned from snapshot %d, requested snapshot %d''
            [AInt (fs_ID filesystem), AStr (fs_Label filesystem), AInt s, AInt sourceSnapshotID])
          else if fs_Region filesystem \<noteq> region then Inl (StatusError AlreadyExists
            ''NFS filesystem %q already exists in incompatible region %q''
            [AStr (fs_Label filesystem), AStr (fs_Region filesystem)])
          else Inr ())"

definition validateExistingFilesystem ::
    "NFSFilesystem \<Rightarrow> createVolumeParameters \<Rightarrow> goError + unit" where
  "validateExistingFilesystem filesystem params =
     (if fs_Tags filesystem \<noteq> elems (par_tags params) then
        Inl (StatusError AlreadyExists ''NFS filesystem %q already exists with incompatible tags''
               [AStr (fs_Label filesystem)])
      else Inr ())"

end
