(* ===== verification/Metadata.thy ===== *)
theory Metadata
  imports Effects
begin

text \<open>
  \<open>internal/driver/metadata.go\<close>: node identity from the instance metadata service with a fallback
  to the Kubernetes node, and the workload region, cached under a mutex after its first successful
  discovery. The construction of the two clients (kubeconfig loading, HTTP) is outside the model.
\<close>

subsection \<open>Constants and errors\<close>

definition regionTopologyLabel :: string where
  "regionTopologyLabel = ''topology.kubernetes.io/region''"

definition betaRegionTopologyLabel :: string where
  "betaRegionTopologyLabel = ''failure-domain.beta.kubernetes.io/region''"

definition errMetadataNodeNameRequired :: goError where
  "errMetadataNodeNameRequired = ErrorsNew ''metadata service requires node name''"

definition errMetadataRegionNotFound :: goError where
  "errMetadataRegionNotFound = ErrorsNew ''node region label not found''"

definition errMetadataAllowlistIP :: goError where
  "errMetadataAllowlistIP = ErrorsNew ''node allowlist IP not found''"

definition errMetadataClusterNodes :: goError where
  "errMetadataClusterNodes = ErrorsNew ''cluster has no nodes''"

record NodeMetadata =
  nm_KubernetesName :: string
  nm_LinodeID :: int
  nm_Region :: string
  nm_AllowlistIP :: string

text \<open>\<open>ms_instanceClient\<close>: whether the instance metadata client is not nil.\<close>

record metadataService =
  ms_nodeName :: string
  ms_instanceClient :: bool

definition newMetadataServiceWithClients :: "string \<Rightarrow> bool \<Rightarrow> metadataService" where
  "newMetadataServiceWithClients nodeName instanceClient =
     \<lparr>ms_nodeName = nodeName, ms_instanceClient = instanceClient\<rparr>"

subsection \<open>Pure helpers\<close>

definition linodeScheme :: string where
  "linodeScheme = ''linode://''"

definition linodeIDFromProviderID :: "string \<Rightarrow> goError + int" where
  "linodeIDFromProviderID providerID =
     (if providerID = [] then Inl (ErrorsNew ''provider ID is not set'')
      else if \<not> prefix linodeScheme providerID then
        Inl (Errorf ''invalid provider ID format %q'' [AStr providerID])
      else (case Atoi (trimPrefix linodeScheme providerID) of
          Inl e \<Rightarrow> Inl (Wrapf ''parse Linode ID from provider ID: %w'' []
                     (NumError e (trimPrefix linodeScheme providerID)))
        | Inr linodeID \<Rightarrow> Inr linodeID))"

definition regionFromNode :: "KubeNode option \<Rightarrow> goError + string" where
  "regionFromNode node =
     (case node of
        None \<Rightarrow> Inl (ErrorsNew ''node is nil'')
      | Some n \<Rightarrow>
          if mapGet (node_Labels n) regionTopologyLabel \<noteq> [] then
            Inr (mapGet (node_Labels n) regionTopologyLabel)
          else if mapGet (node_Labels n) betaRegionTopologyLabel \<noteq> [] then
            Inr (mapGet (node_Labels n) betaRegionTopologyLabel)
          else Inl errMetadataRegionNotFound)"

fun firstAddress :: "NodeAddressType list \<Rightarrow> (NodeAddressType \<times> string) list \<Rightarrow> string option" where
  "firstAddress [] addresses = None"
| "firstAddress (t # ts) addresses =
     (case find (\<lambda>(type, address). type = t \<and> address \<noteq> []) addresses of
        Some (type, address) \<Rightarrow> Some address
      | None \<Rightarrow> firstAddress ts addresses)"

definition allowlistIPFromNode :: "KubeNode option \<Rightarrow> goError + string" where
  "allowlistIPFromNode node =
     (case node of
        None \<Rightarrow> Inl (ErrorsNew ''node is nil'')
      | Some n \<Rightarrow>
          (case firstAddress [NodeInternalIP, NodeExternalIP] (node_Addresses n) of
             Some address \<Rightarrow> Inr address
           | None \<Rightarrow> Inl errMetadataAllowlistIP))"

definition allowlistIPFromNetwork :: "NetworkData option \<Rightarrow> goError + string" where
  "allowlistIPFromNetwork network =
     (case network of
        None \<Rightarrow> Inl errMetadataAllowlistIP
      | Some n \<Rightarrow>
          (case find isValid (net_IPv4Private n) of
             Some a \<Rightarrow> Inr (addrString a)
           | None \<Rightarrow>
          (case find isValid (net_IPv4Public n) of
             Some a \<Rightarrow> Inr (addrString a)
           | None \<Rightarrow>
             if isValid (net_SLAAC n) then Inr (addrString (net_SLAAC n))
             else (case find isValid (net_IPv6Ranges n) of
                     Some a \<Rightarrow> Inr (addrString a)
                   | None \<Rightarrow> Inl errMetadataAllowlistIP))))"

definition wrapNode :: "KubeNode \<Rightarrow> goError + 'a \<Rightarrow> goError + 'a" where
  "wrapNode node r =
     (case r of Inl e \<Rightarrow> Inl (Wrapf ''node %q: %w'' [AStr (node_Name node)] e) | Inr a \<Rightarrow> Inr a)"

text \<open>The facts \<open>NodeByName\<close> reads off a Kubernetes node.\<close>

definition nodeMetadata :: "KubeNode \<Rightarrow> goError + NodeMetadata" where
  "nodeMetadata node =
     bindR (wrapNode node (linodeIDFromProviderID (node_ProviderID node))) (\<lambda>linodeID.
     bindR (wrapNode node (regionFromNode (Some node))) (\<lambda>region.
     bindR (wrapNode node (allowlistIPFromNode (Some node))) (\<lambda>allowlistIP.
     Inr \<lparr>nm_KubernetesName = node_Name node, nm_LinodeID = linodeID, nm_Region = region,
          nm_AllowlistIP = allowlistIP\<rparr>)))"

subsection \<open>The service\<close>

definition NodeByName :: "string \<Rightarrow> (goError + NodeMetadata) prog" where
  "NodeByName name =
     (if name = [] then failE errMetadataNodeNameRequired
      else bindE (mapErr (\<lambda>err. Wrapf ''get kubernetes node %q: %w'' [AStr name] err)
                   (call (GetNode name)))
             (\<lambda>node. liftE (nodeMetadata node)))"

definition currentNodeFromMetadata :: "metadataService \<Rightarrow> (goError + NodeMetadata) prog" where
  "currentNodeFromMetadata s =
     bindE (mapErr (Wrapf ''get instance metadata: %w'' []) (call GetInstance)) (\<lambda>inst.
     if inst_ID inst = 0 then
       failE (ErrorsNew ''instance metadata did not include a Linode ID'')
     else if inst_Region inst = [] then failE errMetadataRegionNotFound
     else
       bindE (mapErr (Wrapf ''get network metadata: %w'' []) (call GetNetwork)) (\<lambda>network.
       bindE (liftE (allowlistIPFromNetwork network)) (\<lambda>allowlistIP.
       okE \<lparr>nm_KubernetesName = ms_nodeName s, nm_LinodeID = inst_ID inst,
            nm_Region = inst_Region inst, nm_AllowlistIP = allowlistIP\<rparr>)))"

definition CurrentNode :: "metadataService \<Rightarrow> (goError + NodeMetadata) prog" where
  "CurrentNode s =
     (if ms_nodeName s = [] then failE errMetadataNodeNameRequired
      else if ms_instanceClient s then
        bindP (currentNodeFromMetadata s) (\<lambda>r.
          case r of Inr node \<Rightarrow> okE node | Inl err \<Rightarrow> NodeByName (ms_nodeName s))
      else NodeByName (ms_nodeName s))"

text \<open>The discovery of \<open>Region\<close>: the first listed node's region, stored in the cache.\<close>

definition discoverRegion :: "(goError + string) prog" where
  "discoverRegion =
     bindE (mapErr (Wrapf ''list kubernetes nodes: %w'' []) (call ListNodes)) (\<lambda>nodes.
       case nodes of
         [] \<Rightarrow> failE errMetadataClusterNodes
       | node # rest \<Rightarrow>
           bindE (liftE (wrapNode node (regionFromNode (Some node)))) (\<lambda>region.
           bindP (call (WriteRegion region)) (\<lambda>_. okE region)))"

definition Region :: "(goError + string) prog" where
  "Region =
     bindP (call LockRegionMu) (\<lambda>_.
     bindP (call ReadRegion) (\<lambda>cached.
     bindP (if cached \<noteq> [] then okE cached else discoverRegion) (\<lambda>r.
     bindP (call UnlockRegionMu) (\<lambda>_. Ret r))))"

subsection \<open>Facts\<close>

lemma find_cong_pred: "find P xs = Some x \<Longrightarrow> x \<in> set xs \<and> P x"
  by (auto simp: find_Some_iff)

lemma regionFromNode_not_Nil: "regionFromNode n = Inr r \<Longrightarrow> r \<noteq> []"
  by (auto simp: regionFromNode_def split: option.splits if_splits)

lemma wrapNode_simps [simp]:
  "wrapNode n (Inr a) = Inr a"
  "wrapNode n (Inl e) = Inl (Wrapf ''node %q: %w'' [AStr (node_Name n)] e)"
  by (simp_all add: wrapNode_def)

lemma wrapNode_Inr_iff [simp]: "wrapNode n r = Inr a \<longleftrightarrow> r = Inr a"
  by (cases r) simp_all

lemma lockFree_Region [simp]: "lockFree Region"
  by (auto simp: Region_def discoverRegion_def intro!: lockFree_intros split: list.split)

lemma lockFree_NodeByName [simp]: "lockFree (NodeByName n)"
  by (auto simp: NodeByName_def intro!: lockFree_intros)

lemma lockFree_CurrentNode [simp]: "lockFree (CurrentNode s)"
  by (auto simp: CurrentNode_def currentNodeFromMetadata_def
      intro!: lockFree_intros split: sum.split)

lemma run_Region:
  "run Region v s =
     (if proc_region s \<noteq> [] then (Inr (proc_region s), s\<lparr>proc_regionMu := False\<rparr>)
      else case mc_ListNodes (env_metadata v) (proc_world s) of (r, w) \<Rightarrow>
        let s' = s\<lparr>proc_world := w, proc_regionMu := False\<rparr> in
        (case r of
           Inl e \<Rightarrow> (Inl (Wrapf ''list kubernetes nodes: %w'' [] e), s')
         | Inr [] \<Rightarrow> (Inl errMetadataClusterNodes, s')
         | Inr (n # ns) \<Rightarrow>
             (case wrapNode n (regionFromNode (Some n)) of
                Inl e \<Rightarrow> (Inl e, s')
              | Inr region \<Rightarrow> (Inr region, s'\<lparr>proc_region := region\<rparr>))))"
  by (auto simp: Region_def discoverRegion_def run_simps Let_def split: prod.splits sum.splits list.splits)

text \<open>Once \<open>Region\<close> has succeeded the region is non-empty and cached, and every later call
  returns it without asking Kubernetes: the world is left alone.\<close>

lemma region_cached:
  assumes "run Region v s = (Inr region, s')"
  shows "region \<noteq> [] \<and> proc_region s' = region
    \<and> run Region v' s' = (Inr region, s'\<lparr>proc_regionMu := False\<rparr>)"
proof -
  have "region \<noteq> [] \<and> proc_region s' = region"
    using assms regionFromNode_not_Nil
    by (auto simp: run_Region Let_def split: if_splits prod.splits sum.splits list.splits)
  then show ?thesis by (auto simp: run_Region)
qed

text \<open>A failed discovery leaves the cache as it was (empty), so that a later request tries
  again.\<close>

lemma region_failure_not_cached:
  assumes "run Region v s = (Inl e, s')"
  shows "proc_region s = [] \<and> proc_region s' = []"
  using assms
  by (auto simp: run_Region Let_def split: if_splits prod.splits sum.splits list.splits)

lemma linodeID_roundtrip:
  "int_range i \<Longrightarrow> linodeIDFromProviderID (linodeScheme @ Itoa i) = Inr i"
  by (simp add: linodeIDFromProviderID_def trimPrefix_def linodeScheme_def)

end
