(* ===== verification/Capabilities.thy ===== *)
theory Capabilities
  imports Metadata
begin

text \<open>
  \<open>internal/driver/capabilities.go\<close> (the capabilities of a role and an access-policy mode) and the
  configuration fields of the struct \<open>LinodeDriver\<close> of \<open>internal/driver/driver.go\<close>.
\<close>

definition AccessPolicyModeSpace :: string where
  "AccessPolicyModeSpace = ''space''"

definition AccessPolicyModeNode :: string where
  "AccessPolicyModeNode = ''node''"

definition RoleController :: string where
  "RoleController = ''controller''"

definition RoleNode :: string where
  "RoleNode = ''node''"

datatype PluginCapability = CONTROLLER_SERVICE | VolumeExpansion_ONLINE

datatype ControllerCapability =
  CREATE_DELETE_VOLUME | GET_VOLUME | EXPAND_VOLUME | PUBLISH_UNPUBLISH_VOLUME

datatype NodeCapability = STAGE_UNSTAGE_VOLUME | GET_VOLUME_STATS

definition pluginCapabilities :: "string \<Rightarrow> PluginCapability list" where
  "pluginCapabilities role =
     (if role = RoleController then [CONTROLLER_SERVICE] @ [VolumeExpansion_ONLINE] else [])"

definition controllerServiceCapabilities :: "string \<Rightarrow> ControllerCapability list" where
  "controllerServiceCapabilities accessPolicyMode =
     [CREATE_DELETE_VOLUME, GET_VOLUME, EXPAND_VOLUME]
     @ (if accessPolicyMode = AccessPolicyModeNode then [PUBLISH_UNPUBLISH_VOLUME] else [])"

definition nodeServiceCapabilities :: "NodeCapability list" where
  "nodeServiceCapabilities = [STAGE_UNSTAGE_VOLUME, GET_VOLUME_STATS]"

text \<open>The fields of \<open>LinodeDriver\<close> that the handlers read; \<open>drv_metadata\<close> is the metadata
  provider, nil before the driver is set up.\<close>

record LinodeDriver =
  drv_name :: string
  drv_vendorVersion :: string
  drv_accessPolicyMode :: string
  drv_pluginCaps :: "PluginCapability list"
  drv_controllerCaps :: "ControllerCapability list"
  drv_nodeCaps :: "NodeCapability list"
  drv_metadata :: "metadataService option"

end
