(* ===== verification/ControllerServer.thy ===== *)
theory ControllerServer
  imports ControllerHelpers Capabilities
begin

text \<open>
  The controller RPCs of \<open>internal/driver/controllerserver.go\<close> and the steps of
  \<open>internal/driver/controller_helpers.go\<close> that call the Linode API, as interaction programs.
  The server record holds the driver's configuration, the linodego package and the Unicode lower
  case mapping; the client is the environment the program runs in, the lock set is part of the
  process state. Every result is an error or a response.
\<close>

record ControllerServer =
  cs_driver :: LinodeDriver
  cs_linodego :: linodego
  cs_unicodeLower :: "string \<Rightarrow> string"

abbreviation lerr :: "ControllerServer \<Rightarrow> string \<Rightarrow> (goError + 'a) prog \<Rightarrow> (goError + 'a) prog" where
  "lerr s message \<equiv> mapErr (\<lambda>err. linodeError (cs_linodego s) err message)"

abbreviation lwerr :: "ControllerServer \<Rightarrow> string \<Rightarrow> (goError + 'a) prog \<Rightarrow> (goError + 'a) prog" where
  "lwerr s message \<equiv> mapErr (\<lambda>err. linodeWaitError (cs_linodego s) err message)"

subsection \<open>Steps shared by the RPCs\<close>

definition waitForFilesystemAccessPolicyActive ::
    "ControllerServer \<Rightarrow> int \<Rightarrow> int \<Rightarrow> (goError + unit) prog" where
  "waitForFilesystemAccessPolicyActive s spaceID filesystemID =
     bindE (lwerr s ''wait for NFS filesystem access policy active''
              (call (WaitForNFSFilesystemAccessPolicyStatus waitTimeout spaceID filesystemID
                       NFSAccessPolicyStatusActive)))
       (\<lambda>_. okE ())"

definition getFilesystemPolicyForVolumeAndNode ::
    "string \<Rightarrow> string \<Rightarrow> (goError + volumeHandle \<times> int \<times> NFSFilesystemAccessPolicy) prog" where
  "getFilesystemPolicyForVolumeAndNode volumeID nodeID =
     bindE (liftE (parseVolumeHandleAndNodeID volumeID nodeID)) (\<lambda>(handle, linodeID).
     bindE (call (GetNFSFilesystemAccessPolicy (vh_spaceID handle) (vh_filesystemID handle)))
       (\<lambda>policy. okE (handle, linodeID, policy)))"

definition resolveSpace ::
    "ControllerServer \<Rightarrow> createVolumeParameters \<Rightarrow> (goError + NFSSpace) prog" where
  "resolveSpace s params =
     (if par_spaceID params \<noteq> 0 then
        lerr s ''get NFS space'' (call (GetNFSSpace (par_spaceID params)))
      else
        bindE (liftE (listOptionsForExactFields (cs_linodego s)
                        [(filterFieldLabel, par_spaceLabel params)])) (\<lambda>options.
        bindE (lerr s ''list NFS spaces'' (call (ListNFSSpaces options))) (\<lambda>spaces.
          case spaces of
            [] \<Rightarrow> failE (StatusError NotFound ''NFS space with label %q was not found''
                     [AStr (par_spaceLabel params)])
          | [space] \<Rightarrow> okE space
          | _ \<Rightarrow> failE (StatusError FailedPrecondition ''multiple NFS spaces match label %q''
                     [AStr (par_spaceLabel params)]))))"

definition findExistingFilesystem ::
    "ControllerServer \<Rightarrow> int \<Rightarrow> string \<Rightarrow> string \<Rightarrow> (goError + NFSFilesystem option) prog" where
  "findExistingFilesystem s spaceID label region =
     bindE (liftE (listOptionsForExactFields (cs_linodego s)
                     [(filterFieldLabel, label), (filterFieldRegion, region)])) (\<lambda>options.
     bindE (lerr s ''list NFS filesystems'' (call (ListNFSFilesystems spaceID options)))
       (\<lambda>filesystems.
          case filesystems of
            [] \<Rightarrow> okE None
          | [filesystem] \<Rightarrow>
              if fs_Label filesystem \<noteq> label \<or> fs_Region filesystem \<noteq> region
                 \<or> fs_SpaceID filesystem \<noteq> spaceID then
                failE (StatusError AlreadyExists
                  ''NFS filesystem %q already exists with incompatible parameters'' [AStr label])
              else okE (Some filesystem)
          | _ \<Rightarrow> failE (StatusError FailedPrecondition
                  ''multiple NFS filesystems match label %q in space %d''
                  [AStr label, AInt spaceID])))"

definition getSpaceAccessPolicy ::
    "ControllerServer \<Rightarrow> int \<Rightarrow> (goError + NFSSpaceAccessPolicy) prog" where
  "getSpaceAccessPolicy s spaceID =
     bindE (lerr s ''get NFS space access policy'' (call (GetNFSSpaceAccessPolicy spaceID)))
       (\<lambda>policy.
          case policy of
            None \<Rightarrow> failE (StatusError Internal
                      ''get NFS space access policy for Space %d returned no policy''
                      [AInt spaceID])
          | Some p \<Rightarrow> okE p)"

text \<open>The target of \<open>setInitialSquashPolicy\<close> for the policy it read: the enabled flag, the node
  ACL, and whether an update has to be sent.\<close>

definition squashTarget ::
    "ControllerServer \<Rightarrow> NFSFilesystemAccessPolicy \<Rightarrow> string \<Rightarrow> bool \<times> int slice \<times> bool" where
  "squashTarget s policy squashPolicy =
     (let (enabled, linodeIDs) =
            (if drv_accessPolicyMode (cs_driver s) = AccessPolicyModeSpace then (True, Some [])
             else (pol_Enabled policy, filesystemPolicyLinodeIDs policy));
          linodeIDsMatch = (elems linodeIDs = pol_LinodeACL policy) in
      (enabled, linodeIDs,
       pol_SquashPolicy policy \<noteq> squashPolicy \<or> enabled \<noteq> pol_Enabled policy \<or> \<not> linodeIDsMatch))"

definition setInitialSquashPolicy ::
    "ControllerServer \<Rightarrow> int \<Rightarrow> int \<Rightarrow> string \<Rightarrow> (goError + unit) prog" where
  "setInitialSquashPolicy s spaceID filesystemID squashPolicy =
     bindE (lerr s ''get NFS filesystem access policy''
              (call (GetNFSFilesystemAccessPolicy spaceID filesystemID))) (\<lambda>policy.
     case squashTarget s policy squashPolicy of (enabled, linodeIDs, needed) \<Rightarrow>
     bindE
       (if needed then
          bindE (lerr s ''update NFS filesystem squash policy''
                   (call (UpdateNFSFilesystemAccessPolicy spaceID filesystemID
                      ((filesystemPolicyUpdate policy enabled linodeIDs)
                         \<lparr>up_SquashPolicy := Some squashPolicy\<rparr>))))
            (\<lambda>_. okE ())
        else okE ())
       (\<lambda>_. waitForFilesystemAccessPolicyActive s spaceID filesystemID))"

definition finalizeFilesystemVolume ::
    "ControllerServer \<Rightarrow> NFSFilesystem \<Rightarrow> createVolumeParameters \<Rightarrow> NFSSpaceAccessPolicy
       \<Rightarrow> (goError + Volume) prog" where
  "finalizeFilesystemVolume s filesystem params spacePolicy =
     bindE (liftE (validateFilesystemMountTarget filesystem)) (\<lambda>_.
     bindE
       (if par_squashPolicySet params then
          setInitialSquashPolicy s (fs_SpaceID filesystem) (fs_ID filesystem)
            (par_squashPolicy params)
        else okE ())
       (\<lambda>_. okE (csiVolume filesystem (sp_MTLSMode spacePolicy))))"

definition checkSource :: "NFSFilesystem \<Rightarrow> snapshotHandle option \<Rightarrow> string \<Rightarrow> goError + unit" where
  "checkSource filesystem source region =
     (case source of
        None \<Rightarrow> Inr ()
      | Some h \<Rightarrow> validateExistingSnapshotClone filesystem (sh_snapshotID h) region)"

definition handleExistingFilesystem ::
    "ControllerServer \<Rightarrow> NFSFilesystem \<Rightarrow> createVolumeParameters \<Rightarrow> NFSSpaceAccessPolicy
       \<Rightarrow> CapacityRange option \<Rightarrow> snapshotHandle option \<Rightarrow> (goError + Volume) prog" where
  "handleExistingFilesystem s existing params spacePolicy capacityRange source =
     bindE (liftE (checkSource existing source (par_region params))) (\<lambda>_.
     bindE (lwerr s ''wait for NFS filesystem active''
              (call (WaitForNFSFilesystemStatus waitTimeout (fs_SpaceID existing)
                       (fs_ID existing) NFSFilesystemStatusActive))) (\<lambda>active.
     bindE (liftE (validateExistingFilesystemCapacity active capacityRange)) (\<lambda>_.
     bindE (liftE (checkSource active source (par_region params))) (\<lambda>_.
     bindE (liftE (validateExistingFilesystem active params)) (\<lambda>_.
     finalizeFilesystemVolume s active params spacePolicy)))))"

subsection \<open>CreateVolume\<close>

text \<open>The checks of the request that precede every call, and the parameters they yield.\<close>

definition checkCreateRequest :: "CreateVolumeRequest \<Rightarrow> goError + createVolumeParameters" where
  "checkCreateRequest req =
     (if cv_Name req = [] then Inl errNoVolumeName
      else
        bindR (validateCreateVolumeCapabilities (cv_VolumeCapabilities req)) (\<lambda>_.
        bindR (parseSnapshotContentSource (cv_VolumeContentSource req)) (\<lambda>snapshot.
        if snapshot \<noteq> None then
          Inl (StatusError Unimplemented
                ''snapshot-based volume creation is temporarily unavailable'' [])
        else parseCreateVolumeParameters (cv_Parameters req))))"

definition createOptions ::
    "string \<Rightarrow> createVolumeParameters \<Rightarrow> int \<Rightarrow> NFSFilesystemCreateOptions" where
  "createOptions label params capacityBytes =
     \<lparr>cr_Label = label, cr_Region = par_region params, cr_MaxCapacityBytes = capacityBytes,
      cr_ProtocolVersions = Some [NFSProtocolVersionV4],
      cr_Tags = (if par_tags params \<noteq> None then Some (par_tags params) else None)\<rparr>"

definition createFilesystem ::
    "ControllerServer \<Rightarrow> int \<Rightarrow> string \<Rightarrow> createVolumeParameters \<Rightarrow> NFSSpaceAccessPolicy \<Rightarrow> int
       \<Rightarrow> (goError + Volume) prog" where
  "createFilesystem s spaceID label params spacePolicy capacityBytes =
     bindE (lerr s ''create NFS filesystem''
              (call (CreateNFSFilesystem spaceID (createOptions label params capacityBytes))))
       (\<lambda>created.
     bindE (lwerr s ''wait for NFS filesystem active''
              (call (WaitForNFSFilesystemStatus waitTimeout (fs_SpaceID created) (fs_ID created)
                       NFSFilesystemStatusActive))) (\<lambda>filesystem.
     finalizeFilesystemVolume s filesystem params spacePolicy))"

definition volumeLabel :: "ControllerServer \<Rightarrow> string \<Rightarrow> string" where
  "volumeLabel s name = truncateNFSLabelToMaxBytes (normalizeLabel (cs_unicodeLower s) name)"

definition CreateVolume :: "ControllerServer \<Rightarrow> CreateVolumeRequest \<Rightarrow> (goError + Volume) prog" where
  "CreateVolume s req =
     bindE (liftE (checkCreateRequest req)) (\<lambda>params0.
     bindE (mapErr (\<lambda>err. StatusError FailedPrecondition ''resolve region: %v'' [AErr err]) Region)
       (\<lambda>region.
     let params = params0\<lparr>par_region := region\<rparr> in
     bindE (resolveSpace s params) (\<lambda>space.
     bindE (getSpaceAccessPolicy s (space_ID space)) (\<lambda>spacePolicy.
     let label = volumeLabel s (cv_Name req) in
     bindE (findExistingFilesystem s (space_ID space) label (par_region params)) (\<lambda>found.
     let capacityBytes = requestedCapacityBytes (cv_CapacityRange req) in
     case found of
       Some existing \<Rightarrow>
         handleExistingFilesystem s existing params spacePolicy (cv_CapacityRange req) None
     | None \<Rightarrow>
         createFilesystem s (space_ID space) label params spacePolicy capacityBytes)))))"

subsection \<open>DeleteVolume\<close>

definition DeleteVolume :: "ControllerServer \<Rightarrow> string \<Rightarrow> (goError + unit) prog" where
  "DeleteVolume s volumeID =
     (if volumeID = [] then failE errNoVolumeID
      else
        (case parseVolumeHandle volumeID of
           Inl err \<Rightarrow> okE ()
         | Inr handle \<Rightarrow>
             bindP (call (DeleteNFSFilesystem (vh_spaceID handle) (vh_filesystemID handle)))
               (\<lambda>r. case r of
                  None \<Rightarrow> okE ()
                | Some err \<Rightarrow>
                    if IsNotFound (cs_linodego s) err then okE ()
                    else failE (linodeError (cs_linodego s) err ''delete NFS filesystem''))))"

subsection \<open>ControllerPublishVolume and ControllerUnpublishVolume\<close>

definition updatePolicyAndWait ::
    "ControllerServer \<Rightarrow> volumeHandle \<Rightarrow> NFSFilesystemAccessPolicyUpdateOptions
       \<Rightarrow> (goError + unit) prog" where
  "updatePolicyAndWait s handle options =
     bindE (lerr s ''update NFS filesystem access policy''
              (call (UpdateNFSFilesystemAccessPolicy (vh_spaceID handle) (vh_filesystemID handle)
                       options)))
       (\<lambda>_. waitForFilesystemAccessPolicyActive s (vh_spaceID handle) (vh_filesystemID handle))"

definition publishLocked ::
    "ControllerServer \<Rightarrow> ControllerPublishVolumeRequest \<Rightarrow> (goError + unit) prog" where
  "publishLocked s req =
     bindP (getFilesystemPolicyForVolumeAndNode (pv_VolumeId req) (pv_NodeId req)) (\<lambda>r.
       case r of
         Inl err \<Rightarrow>
           if statusCode err = InvalidArgument then failE err
           else failE (linodeError (cs_linodego s) err ''get NFS filesystem access policy'')
       | Inr (handle, linodeID, policy) \<Rightarrow>
           let linodeIDs = filesystemPolicyLinodeIDs policy in
           if linodeID \<in> set (elems linodeIDs) \<and> pol_Enabled policy then okE ()
           else
             let linodeIDs' = (if linodeID \<in> set (elems linodeIDs) then linodeIDs
                               else slice_append linodeIDs linodeID) in
             updatePolicyAndWait s handle (filesystemPolicyUpdate policy True linodeIDs'))"

definition ControllerPublishVolume ::
    "ControllerServer \<Rightarrow> ControllerPublishVolumeRequest \<Rightarrow> (goError + unit) prog" where
  "ControllerPublishVolume s req =
     (if pv_VolumeId req = [] then failE errNoVolumeID
      else if pv_NodeId req = [] then
        failE (StatusError InvalidArgument ''node id is required'' [])
      else
        bindE (liftE (capabilityError (pv_VolumeCapability req))) (\<lambda>_.
        withVolumeLock (pv_VolumeId req) (publishLocked s req)))"

definition unpublishLocked ::
    "ControllerServer \<Rightarrow> ControllerUnpublishVolumeRequest \<Rightarrow> (goError + unit) prog" where
  "unpublishLocked s req =
     bindP (getFilesystemPolicyForVolumeAndNode (uv_VolumeId req) (uv_NodeId req)) (\<lambda>r.
       case r of
         Inl err \<Rightarrow>
           if IsNotFound (cs_linodego s) err then okE ()
           else if statusCode err = InvalidArgument then failE err
           else failE (linodeError (cs_linodego s) err ''get NFS filesystem access policy'')
       | Inr (handle, linodeID, policy) \<Rightarrow>
           let linodeIDs = filesystemPolicyLinodeIDs policy in
           if linodeID \<notin> set (elems linodeIDs) then okE ()
           else
             updatePolicyAndWait s handle
               (filesystemPolicyUpdate policy (pol_Enabled policy)
                  (slice_delete (\<lambda>existing. existing = linodeID) linodeIDs)))"

definition ControllerUnpublishVolume ::
    "ControllerServer \<Rightarrow> ControllerUnpublishVolumeRequest \<Rightarrow> (goError + unit) prog" where
  "ControllerUnpublishVolume s req =
     (if uv_VolumeId req = [] then failE errNoVolumeID
      else if uv_NodeId req = [] then okE ()
      else withVolumeLock (uv_VolumeId req) (unpublishLocked s req))"

subsection \<open>ValidateVolumeCapabilities\<close>

text \<open>The loop over the capabilities: the message of the first unsupported one.\<close>

fun firstUnsupported :: "VolumeCapability option list \<Rightarrow> (string \<times> fmtArg list) option" where
  "firstUnsupported [] = None"
| "firstUnsupported (c # cs) =
     (case volumeCapabilitySupported c of (supported, message) \<Rightarrow>
        if supported then firstUnsupported cs else Some message)"

definition ValidateVolumeCapabilities ::
    "ControllerServer \<Rightarrow> ValidateVolumeCapabilitiesRequest
       \<Rightarrow> (goError + ValidateVolumeCapabilitiesResponse) prog" where
  "ValidateVolumeCapabilities s req =
     (if vv_VolumeId req = [] then failE errNoVolumeID
      else
        (case parseVolumeHandle (vv_VolumeId req) of
           Inl err \<Rightarrow> failE (errNotFound ''volume not found'' [])
         | Inr handle \<Rightarrow>
             if vv_VolumeCapabilities req = [] then failE errNoVolumeCapabilities
             else
               (case firstUnsupported (vv_VolumeCapabilities req) of
                  Some (f, args) \<Rightarrow> okE (ValidateMessage f args)
                | None \<Rightarrow>
                    bindE (lerr s ''get NFS filesystem''
                             (call (GetNFSFilesystemInSpace (vh_spaceID handle)
                                      (vh_filesystemID handle)))) (\<lambda>filesystem.
                    bindE (liftE (validateFilesystemMountTarget filesystem)) (\<lambda>_.
                    okE (ValidateConfirmed (volumeContext filesystem [])
                           (vv_VolumeCapabilities req)))))))"

subsection \<open>ControllerExpandVolume\<close>

text \<open>The first root quota of the list.\<close>

definition rootQuota :: "NFSQuota list \<Rightarrow> NFSQuota option" where
  "rootQuota quotas = find quota_IsRoot quotas"

definition expandLocked ::
    "ControllerServer \<Rightarrow> volumeHandle \<Rightarrow> int \<Rightarrow> int \<Rightarrow> int
       \<Rightarrow> (goError + ControllerExpandVolumeResponse) prog" where
  "expandLocked s handle requiredBytes limitBytes capacityBytes =
     bindE (lerr s ''list NFS filesystem quotas''
              (call (ListNFSQuotas (vh_spaceID handle) (vh_filesystemID handle)))) (\<lambda>quotas.
     case rootQuota quotas of
       None \<Rightarrow> failE (StatusError FailedPrecondition ''NFS filesystem %d has no root quota''
                  [AInt (vh_filesystemID handle)])
     | Some quota \<Rightarrow>
         (case quota_MaxCapacityBytes quota of
            None \<Rightarrow> failE (StatusError FailedPrecondition
                       ''NFS filesystem %d root quota has no capacity''
                       [AInt (vh_filesystemID handle)])
          | Some current \<Rightarrow>
              if (current \<ge> requiredBytes \<and> (limitBytes = 0 \<or> current \<le> limitBytes))
                 \<or> capacityBytes = current then
                okE \<lparr>er_CapacityBytes = current, er_NodeExpansionRequired = False\<rparr>
              else if capacityBytes < current then
                failE (StatusError InvalidArgument
                  ''requested capacity %d is smaller than the current root quota capacity %d''
                  [AInt capacityBytes, AInt current])
              else
                bindE (lerr s ''update NFS filesystem''
                         (call (UpdateNFSFilesystem (vh_spaceID handle) (vh_filesystemID handle)
                                  \<lparr>uf_MaxCapacityBytes = Some capacityBytes\<rparr>))) (\<lambda>_.
                okE \<lparr>er_CapacityBytes = capacityBytes, er_NodeExpansionRequired = False\<rparr>)))"

definition ControllerExpandVolume ::
    "ControllerServer \<Rightarrow> ControllerExpandVolumeRequest
       \<Rightarrow> (goError + ControllerExpandVolumeResponse) prog" where
  "ControllerExpandVolume s req =
     (if ev_VolumeId req = [] then failE errNoVolumeID
      else
        bindE (liftE (parseVolumeHandle (ev_VolumeId req))) (\<lambda>handle.
        case ev_CapacityRange req of
          None \<Rightarrow> failE (StatusError InvalidArgument ''capacity range is required'' [])
        | Some r \<Rightarrow>
            let requiredBytes = cap_RequiredBytes r; limitBytes = cap_LimitBytes r;
                capacityBytes = requestedCapacityBytes (Some r) in
            if requiredBytes < 0 \<or> limitBytes < 0
               \<or> (requiredBytes > 0 \<and> limitBytes > 0 \<and> requiredBytes > limitBytes) then
              failE (StatusError InvalidArgument ''capacity range is invalid'' [])
            else if capacityBytes \<le> 0 then
              failE (StatusError InvalidArgument
                ''requested capacity must be greater than zero'' [])
            else withVolumeLock (ev_VolumeId req)
                   (expandLocked s handle requiredBytes limitBytes capacityBytes)))"

subsection \<open>The remaining RPCs\<close>

definition ControllerGetCapabilities ::
    "ControllerServer \<Rightarrow> (goError + ControllerCapability list) prog" where
  "ControllerGetCapabilities s = okE (drv_controllerCaps (cs_driver s))"

definition GetCapacity :: "ControllerServer \<Rightarrow> (goError + unit) prog" where
  "GetCapacity s = failE errNotImplemented"

definition ListVolumes :: "ControllerServer \<Rightarrow> (goError + unit) prog" where
  "ListVolumes s = failE errNotImplemented"

definition ControllerGetVolume ::
    "ControllerServer \<Rightarrow> string \<Rightarrow> (goError + ControllerGetVolumeResponse) prog" where
  "ControllerGetVolume s volumeID =
     (if volumeID = [] then failE errNoVolumeID
      else
        bindE (liftE (parseVolumeHandle volumeID)) (\<lambda>handle.
        bindE (lerr s ''get NFS filesystem''
                 (call (GetNFSFilesystemInSpace (vh_spaceID handle) (vh_filesystemID handle))))
          (\<lambda>filesystem.
        bindE (liftE (validateFilesystemMountTarget filesystem)) (\<lambda>_.
        bindE (lerr s ''get NFS filesystem access policy''
                 (call (GetNFSFilesystemAccessPolicy (vh_spaceID handle)
                          (vh_filesystemID handle)))) (\<lambda>policy.
        okE \<lparr>gv_Volume = csiVolume filesystem [],
             gv_PublishedNodeIds = csiControllerVolumeStatus policy\<rparr>)))))"

end
