(* ===== verification/NodeServer.thy ===== *)
theory NodeServer
  imports ControllerHelpers Capabilities
begin

text \<open>
  The node RPCs of \<open>internal/driver/nodeserver.go\<close> and their helpers in
  \<open>internal/driver/nodeserver_helpers.go\<close> as interaction programs over the mounter, the file system
  and \<open>statfs\<close>. The volume capability may be nil in the helpers, as protobuf getters allow.
\<close>

record NodeServer =
  nsrv_driver :: LinodeDriver

definition bindMountOption :: string where "bindMountOption = ''bind''"
definition nfsFilesystemType :: string where "nfsFilesystemType = ''nfs''"
definition mtlsMountOption :: string where "mtlsMountOption = ''xprtsec=mtls''"

definition NewNodeServer :: "LinodeDriver option \<Rightarrow> 'm option \<Rightarrow> goError + NodeServer" where
  "NewNodeServer driver mounter =
     (case driver of
        None \<Rightarrow> Inl errNilDriver
      | Some d \<Rightarrow> (case mounter of None \<Rightarrow> Inl errNilMounter | Some m \<Rightarrow> Inr \<lparr>nsrv_driver = d\<rparr>))"

subsection \<open>Helpers\<close>

text \<open>Whether the path is likely no mount point; a missing directory is created.\<close>

definition ensureMountPoint :: "string \<Rightarrow> (goError + bool) prog" where
  "ensureMountPoint path =
     bindP (call (IsLikelyNotMountPoint path)) (\<lambda>(notMnt, err).
       case err of
         None \<Rightarrow> okE notMnt
       | Some e \<Rightarrow>
           if osIsNotExist e then
             bindE (mapErr (\<lambda>e'. errInternal ''Failed to create directory (%q): %v'' [AStr path, AErr e'])
                      (checkErr (call (MkdirAll path))))
               (\<lambda>_. okE notMnt)
           else failE (errInternal ''Unknown error when checking mount point (%q): %v''
                         [AStr path, AErr e]))"

text \<open>Protobuf getters on a capability that may be nil.\<close>

definition capMount :: "VolumeCapability option \<Rightarrow> string list option" where
  "capMount c = (case c of None \<Rightarrow> None | Some vc \<Rightarrow> getMount vc)"

definition capMode :: "VolumeCapability option \<Rightarrow> AccessMode" where
  "capMode c = (case c of None \<Rightarrow> UNKNOWN | Some vc \<Rightarrow> getMode vc)"

definition readOnlyPublish :: "NodePublishVolumeRequest \<Rightarrow> bool" where
  "readOnlyPublish req \<longleftrightarrow>
     np_Readonly req \<or> capMode (np_VolumeCapability req) = SINGLE_NODE_READER_ONLY
     \<or> capMode (np_VolumeCapability req) = MULTI_NODE_READER_ONLY"

definition publishOptions :: "NodePublishVolumeRequest \<Rightarrow> string list" where
  "publishOptions req =
     [bindMountOption]
     @ (case capMount (np_VolumeCapability req) of None \<Rightarrow> [] | Some flags \<Rightarrow> flags)
     @ (if readOnlyPublish req then [''ro''] else [])"

text \<open>A failed mount cleans up the staging path; an error of the cleanup is only logged.\<close>

definition nodePublishVolume :: "NodePublishVolumeRequest \<Rightarrow> (goError + unit) prog" where
  "nodePublishVolume req =
     bindP (call (Mount (np_StagingTargetPath req) (np_TargetPath req) nfsFilesystemType
                    (publishOptions req))) (\<lambda>r.
       case r of
         None \<Rightarrow> okE ()
       | Some err \<Rightarrow>
           bindP (call (CleanupMountPoint (np_StagingTargetPath req) False)) (\<lambda>unmntErr.
             failE (errInternal ''NodePublishVolume could not mount %s at %s: %v''
                      [AStr (np_StagingTargetPath req), AStr (np_TargetPath req), AErr err])))"

definition remoteportsDNS :: string where
  "remoteportsDNS = ''remoteports=dns''"

text \<open>The rewriting of one mount option: its comma-separated parts equal to \<open>remoteports=dns\<close> name
  the addresses instead.\<close>

definition rewriteOption :: "string list \<Rightarrow> string \<Rightarrow> string" where
  "rewriteOption ips option' =
     (if \<not> containsStr option' remoteportsDNS then option'
      else
        let parts = splitByte CHR '','' option';
            changed = (remoteportsDNS \<in> set parts) in
        if changed then
          joinStr '','' (map (\<lambda>part. if part = remoteportsDNS
                                   then ''remoteports='' @ joinStr ''~'' ips else part) parts)
        else option')"

text \<open>The mount flags of the capability, or the defaults when there are none, with the resolved
  addresses filled in.\<close>

definition stageOptions :: "NodeStageVolumeRequest \<Rightarrow> string list \<Rightarrow> string list" where
  "stageOptions req ips =
     (let flags = (case capMount (ns_VolumeCapability req) of None \<Rightarrow> [] | Some fl \<Rightarrow> fl);
          options = (if flags = [] then [''vers=4.1'', ''proto=tcp6''] else flags) in
      if ips \<noteq> [] then map (rewriteOption ips) options else options)"

definition mountStage :: "NodeStageVolumeRequest \<Rightarrow> string \<Rightarrow> string list \<Rightarrow> (goError + unit) prog" where
  "mountStage req source options =
     mapErr (\<lambda>err. errInternal ''NodeStageVolume failed to stage volume %s at path %s: %v''
               [AStr (ns_VolumeId req), AStr (ns_StagingTargetPath req), AErr err])
       (checkErr (call (Mount source (ns_StagingTargetPath req) nfsFilesystemType options)))"

definition nodeStageVolume ::
    "NodeStageVolumeRequest \<Rightarrow> string \<Rightarrow> string list \<Rightarrow> (goError + unit) prog" where
  "nodeStageVolume req source ips =
     (let mtlsMode = mapGet (ns_VolumeContext req) volumeContextSpaceMTLSMode;
          options = stageOptions req ips in
      if mtlsMode = mtlsModeRequired then mountStage req source (options @ [mtlsMountOption])
      else if mtlsMode = mtlsModeOptional then
        bindP (call (Mount source (ns_StagingTargetPath req) nfsFilesystemType
                       (options @ [mtlsMountOption]))) (\<lambda>r.
          case r of None \<Rightarrow> okE () | Some err \<Rightarrow> mountStage req source options)
      else mountStage req source options)"

text \<open>The loop of \<open>nodeMountTargets\<close>: it reads \<open>targets\<close> by index and overwrites its front with
  the addresses found so far; the first usable target becomes the source.\<close>

fun mountTargetsLoop ::
    "nat \<Rightarrow> nat \<Rightarrow> string list \<Rightarrow> string \<Rightarrow> nat \<Rightarrow> string \<times> string list \<times> nat" where
  "mountTargetsLoop 0 i targets source count = (source, targets, count)"
| "mountTargetsLoop (Suc left) i targets source count =
     (let target = targets ! i; ip = mountTargetIP target in
      if ip \<noteq> [] then
        mountTargetsLoop left (Suc i) (targets[count := ip])
          (if source = [] then target else source) (Suc count)
      else mountTargetsLoop left (Suc i) targets source count)"

definition nodeMountTargets :: "(string \<times> string) list \<Rightarrow> string \<times> string list" where
  "nodeMountTargets values =
     (let fqdn = mapGet values volumeContextMountTarget in
      if fqdn \<noteq> [] then (fqdn, [])
      else
        let targets = splitByte CHR '','' (mapGet values volumeContextMountTargetIPs) in
        (case mountTargetsLoop (length targets) 0 targets [] 0 of
           (source, targets', count) \<Rightarrow> (source, take count targets')))"

definition allowedMTLSMode :: "string \<Rightarrow> bool" where
  "allowedMTLSMode mode \<longleftrightarrow> mode \<in> {mtlsModeRequired, mtlsModeOptional, mtlsModeDisabled}"

subsection \<open>The RPCs\<close>

definition NodeGetInfo :: "NodeServer \<Rightarrow> (goError + string) prog" where
  "NodeGetInfo s =
     (case drv_metadata (nsrv_driver s) of
        None \<Rightarrow> failE (StatusError Internal ''metadata service is not configured'' [])
      | Some m \<Rightarrow>
          bindE (mapErr (\<lambda>err. StatusError Internal ''resolve node metadata: %v'' [AErr err])
                   (CurrentNode m))
            (\<lambda>node. okE (Itoa (nm_LinodeID node))))"

definition NodeGetCapabilities :: "NodeServer \<Rightarrow> (goError + NodeCapability list) prog" where
  "NodeGetCapabilities s = okE (drv_nodeCaps (nsrv_driver s))"

text \<open>The checks of \<open>NodeStageVolume\<close> before the lock: the mount source and the addresses.\<close>

definition checkStageRequest :: "NodeStageVolumeRequest \<Rightarrow> goError + string \<times> string list" where
  "checkStageRequest req =
     (if ns_VolumeId req = [] then Inl errNoVolumeID
      else if ns_StagingTargetPath req = [] then Inl errNoStagingTargetPath
      else if ns_VolumeCapability req = None then Inl errNoVolumeCapability
      else if capMount (ns_VolumeCapability req) = None then Inl errNoMountVolumeCapability
      else
        (case nodeMountTargets (ns_VolumeContext req) of (source, ips) \<Rightarrow>
           if source = [] then Inl errNoVolumeContextMountTarget
           else
             let mtlsMode = mapGet (ns_VolumeContext req) volumeContextSpaceMTLSMode in
             if mtlsMode \<noteq> [] \<and> \<not> allowedMTLSMode mtlsMode then Inl errInvalidMTLSMode
             else Inr (source, ips)))"

definition stageLocked ::
    "NodeStageVolumeRequest \<Rightarrow> string \<Rightarrow> string list \<Rightarrow> (goError + unit) prog" where
  "stageLocked req source ips =
     bindE (ensureMountPoint (ns_StagingTargetPath req)) (\<lambda>notMnt.
       if \<not> notMnt then okE () else nodeStageVolume req source ips)"

definition NodeStageVolume :: "NodeServer \<Rightarrow> NodeStageVolumeRequest \<Rightarrow> (goError + unit) prog" where
  "NodeStageVolume s req =
     bindE (liftE (checkStageRequest req)) (\<lambda>(source, ips).
       withVolumeLock (ns_VolumeId req) (stageLocked req source ips))"

definition cleanupAt :: "string \<Rightarrow> string \<Rightarrow> (goError + unit) prog" where
  "cleanupAt path message =
     mapErr (\<lambda>err. errInternal message [AStr path, AErr err])
       (checkErr (call (CleanupMountPoint path True)))"

definition NodeUnstageVolume :: "NodeServer \<Rightarrow> NodeUnstageVolumeRequest \<Rightarrow> (goError + unit) prog" where
  "NodeUnstageVolume s req =
     (if nus_VolumeId req = [] then failE errNoVolumeID
      else if nus_StagingTargetPath req = [] then failE errNoStagingTargetPath
      else withVolumeLock (nus_VolumeId req)
             (cleanupAt (nus_StagingTargetPath req)
                ''NodeUnstageVolume failed to unmount at path %s: %v''))"

definition nodePublishLocked :: "NodePublishVolumeRequest \<Rightarrow> (goError + unit) prog" where
  "nodePublishLocked req =
     bindE (ensureMountPoint (np_TargetPath req)) (\<lambda>notMnt.
       if \<not> notMnt then okE () else nodePublishVolume req)"

definition NodePublishVolume :: "NodeServer \<Rightarrow> NodePublishVolumeRequest \<Rightarrow> (goError + unit) prog" where
  "NodePublishVolume s req =
     (if np_VolumeId req = [] then failE errNoVolumeID
      else if np_StagingTargetPath req = [] then failE errNoStagingTargetPath
      else if np_TargetPath req = [] then failE errNoTargetPath
      else if np_VolumeCapability req = None then failE errNoVolumeCapability
      else withVolumeLock (np_TargetPath req) (nodePublishLocked req))"

definition NodeUnpublishVolume ::
    "NodeServer \<Rightarrow> NodeUnpublishVolumeRequest \<Rightarrow> (goError + unit) prog" where
  "NodeUnpublishVolume s req =
     (if nup_VolumeId req = [] then failE errNoVolumeID
      else if nup_TargetPath req = [] then failE errNoTargetPath
      else withVolumeLock (nup_TargetPath req)
             (cleanupAt (nup_TargetPath req) ''NodeUnpublishVolume could not unmount %s: %v''))"

text \<open>The conversions between \<open>uint64\<close> and \<open>int64\<close> keep the bits, and the products wrap.\<close>

definition volumeUsage :: "Statfs \<Rightarrow> VolumeUsage list" where
  "volumeUsage f =
     [\<lparr>usage_Available = sf_Bavail f * sf_Bsize f, usage_Total = sf_Blocks f * sf_Bsize f,
       usage_Used = (sf_Blocks f - sf_Bfree f) * sf_Bsize f, usage_Unit = BYTES\<rparr>,
      \<lparr>usage_Available = sf_Ffree f, usage_Total = sf_Files f,
       usage_Used = sf_Files f - sf_Ffree f, usage_Unit = INODES\<rparr>]"

definition NodeGetVolumeStats ::
    "NodeServer \<Rightarrow> NodeGetVolumeStatsRequest \<Rightarrow> (goError + VolumeUsage list) prog" where
  "NodeGetVolumeStats s req =
     (if st_VolumeId req = [] then failE errNoVolumeID
      else if st_VolumePath req = [] then failE errNoVolumePath
      else
        bindP (call (UnixStatfs (st_VolumePath req))) (\<lambda>r.
          case r of
            Inl err \<Rightarrow>
              if isENOENT err then failE (errNotFound ''volume path not found: %v'' [AErr err])
              else failE (errInternal ''failed to get stats: %v'' [AErr err])
          | Inr statfs \<Rightarrow> okE (volumeUsage statfs)))"

definition NodeExpandVolume :: "NodeServer \<Rightarrow> (goError + unit) prog" where
  "NodeExpandVolume s = failE errNotImplemented"

end
