(* ===== verification/Driver.thy ===== *)
theory Driver
  imports ControllerServer NodeServer
begin

text \<open>
  \<open>internal/driver/driver.go\<close>, \<open>internal/driver/identityserver.go\<close>, \<open>internal/driver/test_services.go\<close>,
  the registration part of \<open>internal/driver/server.go\<close>, the configuration in \<open>main.go\<close> and in
  \<open>pkg/linode-client/client.go\<close>: how a process is configured, which servers its role gets, and what
  the server registers (\<open>Run\<close> is in theory \<open>GrpcServer\<close>, \<open>handle\<close> and \<open>main\<close> are in \<open>ProcessSetup\<close>). A nil pointer is \<open>None\<close>; a Go interface value is nil or holds a pointer, which may
  itself be nil. Constructors of other packages (Kubernetes and metadata clients, the certificate
  pool, the linodego client) are parameters that return their error, if any.
\<close>

subsection \<open>The driver\<close>

text \<open>The struct \<open>LinodeDriver\<close> with its servers. \<open>ds_client\<close> says whether the client is not nil; the
  controller's lock set and the node's are part of the process state of the effects.\<close>

record driverState =
  ds_driver :: LinodeDriver
  ds_ids :: bool
  ds_cs :: bool
  ds_ns :: bool
  ds_client :: bool
  ds_ready :: bool

definition GetLinodeDriver :: driverState where
  "GetLinodeDriver =
     \<lparr>ds_driver = \<lparr>drv_name = [], drv_vendorVersion = [],
        drv_accessPolicyMode = AccessPolicyModeSpace, drv_pluginCaps = [],
        drv_controllerCaps = controllerServiceCapabilities AccessPolicyModeSpace,
        drv_nodeCaps = nodeServiceCapabilities, drv_metadata = None\<rparr>,
      ds_ids = False, ds_cs = False, ds_ns = False, ds_client = False, ds_ready = False\<rparr>"

text \<open>The constructors: whether the driver and its dependencies are not nil.\<close>

definition NewIdentityServer :: "bool \<Rightarrow> goError + unit" where
  "NewIdentityServer driver =
     (if \<not> driver then Inl (Errorf ''linode driver cannot be nil'' []) else Inr ())"

definition NewControllerServer :: "bool \<Rightarrow> bool \<Rightarrow> goError + unit" where
  "NewControllerServer driver client =
     (if \<not> driver then Inl errNilDriver
      else if \<not> client then Inl errLinodeClientNotFound
      else Inr ())"

definition newNodeServerCheck :: "bool \<Rightarrow> bool \<Rightarrow> goError + unit" where
  "newNodeServerCheck driver mounter =
     map_sum id (\<lambda>_. ())
       (NewNodeServer (if driver then Some (ds_driver GetLinodeDriver) else None)
          (if mounter then Some () else None))"

text \<open>The errors of \<open>newKubeNodeClient\<close> (by kubeconfig path) and \<open>newInstanceMetadataClient\<close>.\<close>

record metadataConstructors =
  new_KubeNodeClient :: "string \<Rightarrow> goError option"
  new_InstanceMetadataClient :: "goError option"

definition newMetadataService ::
    "metadataConstructors \<Rightarrow> string \<Rightarrow> string \<Rightarrow> string \<Rightarrow> goError + metadataService" where
  "newMetadataService mk nodeName role kubeconfigPath =
     (case new_KubeNodeClient mk kubeconfigPath of
        Some err \<Rightarrow> Inl (Wrapf ''create kubernetes metadata client: %w'' [] err)
      | None \<Rightarrow>
          Inr (newMetadataServiceWithClients nodeName
                 (role = RoleNode \<and> new_InstanceMetadataClient mk = None)))"

text \<open>The servers of a role, built on the configured driver.\<close>

definition setupServers :: "bool \<Rightarrow> bool \<Rightarrow> string \<Rightarrow> driverState \<Rightarrow> (goError + unit) \<times> driverState" where
  "setupServers client mounter role d =
     (case NewIdentityServer True of
        Inl err \<Rightarrow> (Inl (Wrapf ''new identity server: %w'' [] err), d)
      | Inr _ \<Rightarrow>
          let d = d\<lparr>ds_ids := True\<rparr> in
          if role = RoleController then
            (case NewControllerServer True client of
               Inl err \<Rightarrow> (Inl (Wrapf ''new controller server: %w'' [] err), d)
             | Inr _ \<Rightarrow> (Inr (), d\<lparr>ds_cs := True\<rparr>))
          else if role = RoleNode then
            (case newNodeServerCheck True mounter of
               Inl err \<Rightarrow> (Inl (Wrapf ''new node server: %w'' [] err), d)
             | Inr _ \<Rightarrow> (Inr (), d\<lparr>ds_ns := True\<rparr>))
          else (Inr (), d))"

text \<open>\<open>SetupLinodeDriver\<close> changes the driver in place: an error after the checks leaves the fields set
  so far.\<close>

definition SetupLinodeDriver ::
    "metadataConstructors \<Rightarrow> bool \<Rightarrow> bool \<Rightarrow> string \<Rightarrow> string \<Rightarrow> string \<Rightarrow> string \<Rightarrow> string \<Rightarrow> string
       \<Rightarrow> driverState \<Rightarrow> (goError + unit) \<times> driverState" where
  "SetupLinodeDriver mk client mounter name vendorVersion role nodeName kubeconfigPath
      accessPolicyMode d =
     (if name = [] then (Inl (Errorf ''driver name missing'' []), d)
      else if role \<noteq> RoleController \<and> role \<noteq> RoleNode then (Inl errInvalidRole, d)
      else if accessPolicyMode \<noteq> AccessPolicyModeSpace \<and> accessPolicyMode \<noteq> AccessPolicyModeNode then
        (Inl (Wrapf ''%w %q'' [AStr accessPolicyMode] errInvalidAccessPolicyMode), d)
      else
        let d1 = d\<lparr>ds_driver := (ds_driver d)\<lparr>drv_name := name, drv_vendorVersion := vendorVersion,
                     drv_accessPolicyMode := accessPolicyMode,
                     drv_pluginCaps := pluginCapabilities role,
                     drv_controllerCaps := controllerServiceCapabilities accessPolicyMode\<rparr>\<rparr>;
            path = (if role \<noteq> RoleController then [] else kubeconfigPath) in
        (case newMetadataService mk nodeName role path of
           Inl err \<Rightarrow> (Inl (Wrapf ''new metadata service: %w'' [] err), d1)
         | Inr m \<Rightarrow>
             setupServers client mounter role
               (d1\<lparr>ds_driver := (ds_driver d1)\<lparr>drv_metadata := Some m\<rparr>, ds_client := client\<rparr>)))"

subsection \<open>Registration\<close>

datatype 'a iface = NilInterface | Holds "'a option"

text \<open>Passing a pointer for an interface parameter: the interface is not nil even if the pointer
  is.\<close>

definition asInterface :: "bool \<Rightarrow> unit iface" where
  "asInterface present = Holds (if present then Some () else None)"

datatype service = IdentityService | ControllerService | NodeService

text \<open>The registrations of \<open>serve\<close>.\<close>

definition registeredServices :: "unit iface \<Rightarrow> unit iface \<Rightarrow> unit iface \<Rightarrow> service list" where
  "registeredServices ids cs ns =
     (if ids \<noteq> NilInterface then [IdentityService] else [])
     @ (if cs \<noteq> NilInterface then [ControllerService] else [])
     @ (if ns \<noteq> NilInterface then [NodeService] else [])"

text \<open>The first part of \<open>Run\<close> sets the ready flag that \<open>Probe\<close> reads; the rest is in theory \<open>GrpcServer\<close>.\<close>

definition runDriver :: "unit prog" where
  "runDriver = call (WriteReady True)"

subsection \<open>The identity service\<close>

definition GetPluginInfo :: "LinodeDriver \<Rightarrow> (goError + string \<times> string) prog" where
  "GetPluginInfo d =
     (if drv_name d = [] then failE (StatusError Unavailable ''driver name not configured'' [])
      else okE (drv_name d, drv_vendorVersion d))"

definition GetPluginCapabilities :: "LinodeDriver \<Rightarrow> (goError + PluginCapability list) prog" where
  "GetPluginCapabilities d = okE (drv_pluginCaps d)"

definition Probe :: "(goError + bool) prog" where
  "Probe = bindP (call ReadReady) (\<lambda>ready. okE ready)"

subsection \<open>Services for the sanity suite\<close>

definition errMetadataProviderNotFound :: goError where
  "errMetadataProviderNotFound = ErrorsNew ''metadata provider not found''"

text \<open>The clients the suite supplies: an instance client that may be nil, and a Kubernetes client.\<close>

definition NewTestMetadataProvider :: "string \<Rightarrow> bool \<Rightarrow> metadataService" where
  "NewTestMetadataProvider nodeName instanceClient =
     newMetadataServiceWithClients nodeName instanceClient"

definition NewTestServices ::
    "bool \<Rightarrow> metadataService option \<Rightarrow> bool \<Rightarrow> goError + driverState" where
  "NewTestServices client metadata mounter =
     (if \<not> client then Inl errLinodeClientNotFound
      else if metadata = None then Inl errMetadataProviderNotFound
      else if \<not> mounter then Inl errNilMounter
      else
        let d = GetLinodeDriver\<lparr>
              ds_driver := (ds_driver GetLinodeDriver)\<lparr>drv_name := Name, drv_vendorVersion := ''test'',
                drv_pluginCaps := pluginCapabilities RoleController, drv_metadata := metadata\<rparr>,
              ds_client := client, ds_ready := True\<rparr> in
        bindR (NewIdentityServer True) (\<lambda>_.
        bindR (NewControllerServer True client) (\<lambda>_.
        bindR (newNodeServerCheck True mounter) (\<lambda>_.
        Inr (d\<lparr>ds_ids := True, ds_cs := True, ds_ns := True\<rparr>)))))"

subsection \<open>Configuration\<close>

text \<open>Durations are in nanoseconds.\<close>

record Config =
  cfg_LinodeToken :: string
  cfg_UserAgent :: string
  cfg_DriverVersion :: string
  cfg_RootCertificatePath :: string
  cfg_Timeout :: int
  cfg_DriverRole :: string
  cfg_AccessPolicyMode :: string
  cfg_CSIEndpoint :: string
  cfg_NodeName :: string
  cfg_KubeconfigPath :: string

definition defaultClientTimeout :: int where
  "defaultClientTimeout = 10 * 1000000000"

definition envOrDefault :: "(string \<Rightarrow> string) \<Rightarrow> string \<Rightarrow> string \<Rightarrow> string" where
  "envOrDefault env key fallback = (if env key \<noteq> [] then env key else fallback)"

text \<open>\<open>vendorVersion\<close> is the variable that the build sets, \<open>parseDuration\<close> is \<open>time.ParseDuration\<close>
  (\<open>None\<close> on an error). The second component is the version after the defaulting.\<close>

definition loadConfig ::
    "(string \<Rightarrow> int option) \<Rightarrow> (string \<Rightarrow> string) \<Rightarrow> string \<Rightarrow> Config \<times> string" where
  "loadConfig parseDuration env vendorVersion =
     (let timeout = (case parseDuration (envOrDefault env ''TIMEOUT'' ''10s'') of
                       None \<Rightarrow> defaultClientTimeout | Some t \<Rightarrow> t);
          version = (if vendorVersion = [] then ''dev'' else vendorVersion) in
      (\<lparr>cfg_LinodeToken = env ''LINODE_TOKEN'', cfg_UserAgent = [], cfg_DriverVersion = version,
        cfg_RootCertificatePath = env ''LINODE_CA'', cfg_Timeout = timeout,
        cfg_DriverRole = envOrDefault env ''DRIVER_ROLE'' RoleController,
        cfg_AccessPolicyMode = envOrDefault env ''NFS_ACCESS_POLICY_MODE'' AccessPolicyModeSpace,
        cfg_CSIEndpoint = envOrDefault env ''CSI_ENDPOINT'' ''unix:///csi/csi.sock'',
        cfg_NodeName = env ''NODE_NAME'', cfg_KubeconfigPath = env ''KUBECONFIG''\<rparr>, version))"

definition defaultUserAgentProduct :: string where
  "defaultUserAgentProduct = ''LinodeFileStorageCSI''"

definition userAgent :: "Config \<Rightarrow> goError + string" where
  "userAgent config =
     (if cfg_DriverVersion config = [] then Inl (ErrorsNew ''driver version cannot be empty'')
      else if cfg_UserAgent config = [] then
        Inr (defaultUserAgentProduct @ ''/'' @ cfg_DriverVersion config)
      else if \<not> containsStr (cfg_UserAgent config) (cfg_DriverVersion config) then
        Inl (Errorf ''user agent %q must include driver version %q''
          [AStr (cfg_UserAgent config), AStr (cfg_DriverVersion config)])
      else Inr (cfg_UserAgent config))"

text \<open>The errors of the certificate pool, of \<open>linodego.NewClient\<close> and of \<open>SetRootCertificate\<close>.\<close>

record clientConstructors =
  cc_SystemCertPool :: "goError option"
  cc_NewClient :: "goError option"
  cc_SetRootCertificate :: "string \<Rightarrow> goError option"

text \<open>What the client is configured with; \<open>lcl_rootCertificate\<close> is None for the system pool.\<close>

record linodeClientConfig =
  lcl_token :: string
  lcl_userAgent :: string
  lcl_timeout :: int
  lcl_rootCertificate :: "string option"

definition NewLinodeClient ::
    "clientConstructors \<Rightarrow> Config option \<Rightarrow> goError + linodeClientConfig" where
  "NewLinodeClient cc config =
     (case config of
        None \<Rightarrow> Inl (ErrorsNew ''config cannot be nil'')
      | Some c \<Rightarrow>
          if cfg_LinodeToken c = [] then Inl (ErrorsNew ''token cannot be empty'')
          else
            bindR (userAgent c) (\<lambda>ua.
            bindR (if cfg_RootCertificatePath c = [] then
                     (case cc_SystemCertPool cc of
                        None \<Rightarrow> Inr ()
                      | Some err \<Rightarrow> Inl (Wrapf ''failed to load system cert pool: %w'' [] err))
                   else Inr ()) (\<lambda>_.
            bindR (case cc_NewClient cc of None \<Rightarrow> Inr () | Some err \<Rightarrow> Inl err) (\<lambda>_.
            bindR (if cfg_RootCertificatePath c \<noteq> [] then
                     (case cc_SetRootCertificate cc (cfg_RootCertificatePath c) of
                        None \<Rightarrow> Inr () | Some err \<Rightarrow> Inl err)
                   else Inr ()) (\<lambda>_.
            Inr \<lparr>lcl_token = cfg_LinodeToken c, lcl_userAgent = ua, lcl_timeout = cfg_Timeout c,
                 lcl_rootCertificate = (if cfg_RootCertificatePath c = [] then None
                                        else Some (cfg_RootCertificatePath c))\<rparr>)))))"

text \<open>\<open>dependenciesForRole\<close>: the role, the client and whether there is a mounter.\<close>

definition dependenciesForRole ::
    "clientConstructors \<Rightarrow> Config \<Rightarrow> goError + string \<times> linodeClientConfig option \<times> bool" where
  "dependenciesForRole cc cfg =
     (if cfg_DriverRole cfg = RoleController then
        (if cfg_LinodeToken cfg = [] then Inl ErrTokenRequired
         else (case NewLinodeClient cc (Some cfg) of
             Inl err \<Rightarrow> Inl (Wrapf ''create linode client: %w'' [] err)
           | Inr client \<Rightarrow> Inr (RoleController, Some client, False)))
      else if cfg_DriverRole cfg = RoleNode then Inr (RoleNode, None, True)
      else Inl (Errorf ''invalid driver role %q'' [AStr (cfg_DriverRole cfg)]))"

end
