(* ===== verification/GrpcServer.thy ===== *)
theory GrpcServer
  imports Driver
begin

text \<open>
  \<open>internal/driver/server.go\<close>: the non-blocking gRPC server. \<open>Start\<close> adds to the wait group and spawns
  \<open>serve\<close>, which listens, registers the services, stores the server under its mutex and closes the
  \<open>serverReady\<close> channel (once); \<open>Stop\<close> and \<open>ForceStop\<close> wait for the channel, read the server and stop
  it; \<open>Wait\<close> waits for the group. The goroutines are threads over the shared state and take one atomic
  action per step; \<open>klog.Fatalf\<close> ends the process. \<open>GracefulStop\<close> is one action, its wait for the pending
  requests being grpc's (all handlers return: theory \<open>Progress\<close>). URL parsing, sockets and grpc are
  parameters: that \<open>grpc.Server.Serve\<close> returns nil only after a stop, and does return then, is its
  documentation. The last section is \<open>LinodeDriver.Run\<close>.
\<close>

subsection \<open>The listen address\<close>

record endpointURL =
  url_Scheme :: string
  url_Host :: string
  url_Path :: string

record grpcEnv =
  ge_Parse :: "string \<Rightarrow> goError + endpointURL"
  ge_Remove :: "string \<Rightarrow> goError option"
  ge_Listen :: "string \<Rightarrow> string \<Rightarrow> goError option"
  ge_serveFails :: bool

text \<open>The address of an endpoint, or the message of the \<open>Fatalf\<close> that ends the process.\<close>

definition listenAddress :: "grpcEnv \<Rightarrow> string \<Rightarrow> goError + string \<times> string" where
  "listenAddress v endpoint =
     (case ge_Parse v endpoint of
        Inl err \<Rightarrow> Inl (Errorf ''parse endpoint: %v'' [AErr err])
      | Inr u \<Rightarrow>
          if url_Scheme u = ''unix'' then
            (case ge_Remove v (url_Path u) of
               None \<Rightarrow> Inr (url_Scheme u, url_Path u)
             | Some err \<Rightarrow>
                 if osIsNotExist err then Inr (url_Scheme u, url_Path u)
                 else Inl (Errorf ''remove socket %s: %v'' [AStr (url_Path u), AErr err]))
          else if url_Scheme u = ''tcp'' then Inr (url_Scheme u, url_Host u)
          else Inl (Errorf ''endpoint scheme not supported: %s'' [AStr (url_Scheme u)]))"

text \<open>The parts of \<open>serve\<close> up to the listener: whether it gets there, and with which scheme.\<close>

definition openListener :: "grpcEnv \<Rightarrow> string \<Rightarrow> goError + string" where
  "openListener v endpoint =
     bindR (listenAddress v endpoint) (\<lambda>(scheme, addr).
       case ge_Listen v scheme addr of
         None \<Rightarrow> Inr scheme
       | Some err \<Rightarrow> Inl (Errorf ''listen: %v'' [AErr err]))"

subsection \<open>The shared state\<close>

text \<open>Servers are numbered in the order of their creation. \<open>gs_exited\<close>: the process has ended by a
  \<open>Fatalf\<close>; \<open>gs_panicked\<close>: a closed channel was closed, or the wait group went below zero.\<close>

record nonBlockingGRPCServer =
  gs_wg :: nat
  gs_server :: "nat option"
  gs_serverReady :: bool
  gs_readyOnce :: bool
  gs_created :: nat
  gs_stopped :: "nat list"
  gs_exited :: bool
  gs_panicked :: bool

definition NewNonBlockingGRPCServer :: nonBlockingGRPCServer where
  "NewNonBlockingGRPCServer =
     \<lparr>gs_wg = 0, gs_server = None, gs_serverReady = False, gs_readyOnce = False, gs_created = 0,
      gs_stopped = [], gs_exited = False, gs_panicked = False\<rparr>"

definition closeReady :: "nonBlockingGRPCServer \<Rightarrow> nonBlockingGRPCServer" where
  "closeReady g =
     (if gs_serverReady g then g\<lparr>gs_panicked := True\<rparr> else g\<lparr>gs_serverReady := True\<rparr>)"

text \<open>\<open>s.serverReadyOnce.Do(func() { close(s.serverReady) })\<close>.\<close>

definition closeReadyOnce :: "nonBlockingGRPCServer \<Rightarrow> nonBlockingGRPCServer" where
  "closeReadyOnce g = (if gs_readyOnce g then g else closeReady (g\<lparr>gs_readyOnce := True\<rparr>))"

definition wgDone :: "nonBlockingGRPCServer \<Rightarrow> nonBlockingGRPCServer" where
  "wgDone g = (if gs_wg g = 0 then g\<lparr>gs_panicked := True\<rparr> else g\<lparr>gs_wg := gs_wg g - 1\<rparr>)"

subsection \<open>Threads\<close>

text \<open>Where a goroutine of \<open>serve\<close> is. It carries the scheme, for the listener it closes, and its
  server.\<close>

datatype serveState =
    ServeBegin
  | ServeListening string
  | ServeRegistered string nat
  | ServeStored string nat
  | ServeServing string nat
  | ServeReturned string
  | ServeDeferred
  | ServeDone

text \<open>A call of \<open>Start\<close>, of \<open>Stop\<close> or \<open>ForceStop\<close> (waiting for the channel, before the read of the server,
  with what it read), of \<open>Wait\<close>, and the goroutines.\<close>

datatype grpcThread =
    StartCall
  | StopWaiting
  | StopReading
  | StopWith "nat option"
  | WaitCall
  | Serve serveState
  | Returned

text \<open>One step of a goroutine of \<open>serve\<close> when it is enabled. \<open>Serve\<close> of grpc returns when its server was
  stopped, or fails.\<close>

fun serveStep ::
    "grpcEnv \<Rightarrow> string \<Rightarrow> serveState \<Rightarrow> nonBlockingGRPCServer \<Rightarrow> (serveState \<times> nonBlockingGRPCServer) option" where
  "serveStep v endpoint ServeBegin g =
     (case openListener v endpoint of
        Inl err \<Rightarrow> Some (ServeBegin, g\<lparr>gs_exited := True\<rparr>)
      | Inr scheme \<Rightarrow> Some (ServeListening scheme, g))"
| "serveStep v endpoint (ServeListening scheme) g =
     Some (ServeRegistered scheme (gs_created g), g\<lparr>gs_created := Suc (gs_created g)\<rparr>)"
| "serveStep v endpoint (ServeRegistered scheme k) g =
     Some (ServeStored scheme k, g\<lparr>gs_server := Some k\<rparr>)"
| "serveStep v endpoint (ServeStored scheme k) g = Some (ServeServing scheme k, closeReadyOnce g)"
| "serveStep v endpoint (ServeServing scheme k) g =
     (if k \<in> set (gs_stopped g) then Some (ServeReturned scheme, g)
      else if ge_serveFails v then Some (ServeServing scheme k, g\<lparr>gs_exited := True\<rparr>)
      else None)"
| "serveStep v endpoint (ServeReturned scheme) g = Some (ServeDeferred, closeReadyOnce g)"
| "serveStep v endpoint ServeDeferred g = Some (ServeDone, wgDone g)"
| "serveStep v endpoint ServeDone g = None"

text \<open>One step of a thread: its next state, the threads it spawns and the shared state.\<close>

fun threadStep ::
    "grpcEnv \<Rightarrow> string \<Rightarrow> grpcThread \<Rightarrow> nonBlockingGRPCServer
       \<Rightarrow> (grpcThread \<times> grpcThread list \<times> nonBlockingGRPCServer) option" where
  "threadStep v endpoint StartCall g =
     Some (Returned, [Serve ServeBegin], g\<lparr>gs_wg := Suc (gs_wg g)\<rparr>)"
| "threadStep v endpoint StopWaiting g =
     (if gs_serverReady g then Some (StopReading, [], g) else None)"
| "threadStep v endpoint StopReading g = Some (StopWith (gs_server g), [], g)"
| "threadStep v endpoint (StopWith server) g =
     (case server of
        None \<Rightarrow> Some (Returned, [], g)
      | Some k \<Rightarrow> Some (Returned, [], g\<lparr>gs_stopped := k # gs_stopped g\<rparr>))"
| "threadStep v endpoint WaitCall g = (if gs_wg g = 0 then Some (Returned, [], g) else None)"
| "threadStep v endpoint (Serve s) g =
     (case serveStep v endpoint s g of None \<Rightarrow> None | Some (s', g') \<Rightarrow> Some (Serve s', [], g'))"
| "threadStep v endpoint Returned g = None"

type_synonym grpcConfig = "grpcThread list \<times> nonBlockingGRPCServer"

inductive gstep :: "grpcEnv \<Rightarrow> string \<Rightarrow> grpcConfig \<Rightarrow> grpcConfig \<Rightarrow> bool" for v endpoint where
  act: "i < length ts \<Longrightarrow> \<not> gs_exited g \<Longrightarrow> threadStep v endpoint (ts ! i) g = Some (t, new, g')
       \<Longrightarrow> gstep v endpoint (ts, g) (ts[i := t] @ new, g')"

inductive greach :: "grpcEnv \<Rightarrow> string \<Rightarrow> grpcConfig \<Rightarrow> grpcConfig \<Rightarrow> bool" for v endpoint c where
  initially: "greach v endpoint c c"
| further: "greach v endpoint c c' \<Longrightarrow> gstep v endpoint c' c'' \<Longrightarrow> greach v endpoint c c''"

inductive_cases gstepE: "gstep v endpoint (ts, g) c"


subsection \<open>What always holds\<close>

definition isCall :: "grpcThread \<Rightarrow> bool" where
  "isCall t \<longleftrightarrow> t \<in> {StartCall, StopWaiting, WaitCall}"

fun active :: "grpcThread \<Rightarrow> bool" where
  "active (Serve s) = (s \<noteq> ServeDone)"
| "active t = False"

text \<open>What a thread knows of the shared state.\<close>

fun knows :: "grpcThread \<Rightarrow> nonBlockingGRPCServer \<Rightarrow> bool" where
  "knows StopReading g = gs_serverReady g"
| "knows (StopWith server) g = (server \<noteq> None)"
| "knows (Serve (ServeStored scheme k)) g = (gs_server g \<noteq> None)"
| "knows (Serve (ServeServing scheme k)) g = gs_serverReady g"
| "knows (Serve (ServeReturned scheme)) g = gs_serverReady g"
| "knows (Serve ServeDeferred) g = gs_serverReady g"
| "knows (Serve ServeDone) g = gs_serverReady g"
| "knows t g = True"

definition grpcInv :: "grpcConfig \<Rightarrow> bool" where
  "grpcInv c \<longleftrightarrow> (case c of (ts, g) \<Rightarrow>
     \<not> gs_panicked g \<and> gs_readyOnce g = gs_serverReady g \<and>
     (gs_serverReady g \<longrightarrow> gs_server g \<noteq> None) \<and>
     gs_wg g = length (filter active ts) \<and> (\<forall>t \<in> set ts. knows t g))"

lemma grpcInv_start: "\<forall>t \<in> set calls. isCall t \<Longrightarrow> grpcInv (calls, NewNonBlockingGRPCServer)"
proof -
  assume calls: "\<forall>t \<in> set calls. isCall t"
  then have "filter active calls = []" by (auto simp: isCall_def filter_empty_conv)
  with calls show ?thesis by (auto simp: grpcInv_def NewNonBlockingGRPCServer_def isCall_def)
qed

lemma count_update:
  assumes "i < length ts"
  shows "length (filter P (ts[i := t] @ new)) + (if P (ts ! i) then 1 else 0) =
    length (filter P ts) + (if P t then 1 else 0) + length (filter P new)"
proof -
  let ?a = "length (filter P (take i ts))" and ?b = "length (filter P (drop (Suc i) ts))"
  have "length (filter P ts) = ?a + (if P (ts ! i) then 1 else 0) + ?b"
    by (subst id_take_nth_drop [OF assms]) simp
  moreover have "length (filter P (ts[i := t])) = ?a + (if P t then 1 else 0) + ?b"
    by (subst upd_conv_take_nth_drop [OF assms]) simp
  ultimately show ?thesis by simp
qed

text \<open>A step only adds to what the others know, and gives its own thread and the spawned ones what they
  need.\<close>

lemma knows_step:
  assumes "threadStep v endpoint t g = Some (t', new, g')" and "knows t g"
    and "gs_readyOnce g = gs_serverReady g" and "gs_serverReady g \<longrightarrow> gs_server g \<noteq> None"
  shows "knows t' g' \<and> (\<forall>u \<in> set new. knows u g') \<and> (knows u g \<longrightarrow> knows u g') \<and>
    gs_readyOnce g' = gs_serverReady g' \<and> (gs_serverReady g' \<longrightarrow> gs_server g' \<noteq> None)"
proof -
  have mono: "knows u g \<Longrightarrow> gs_serverReady g \<longrightarrow> gs_serverReady g' \<Longrightarrow>
      gs_server g \<noteq> None \<longrightarrow> gs_server g' \<noteq> None \<Longrightarrow> knows u g'"
    by (cases "(u, g)" rule: knows.cases) auto
  show ?thesis
  proof (cases t)
    case (Serve s)
    then show ?thesis using assms mono
      by (cases s) (auto simp: closeReadyOnce_def closeReady_def wgDone_def split: sum.splits if_splits)
  qed (use assms mono in \<open>auto split: if_splits option.splits\<close>)
qed

lemma counts_step:
  assumes "threadStep v endpoint t g = Some (t', new, g')" and "\<not> gs_panicked g"
    and "gs_readyOnce g = gs_serverReady g" and "active t \<longrightarrow> 0 < gs_wg g"
  shows "\<not> gs_panicked g' \<and> gs_wg g' + (if active t then 1 else 0) =
    gs_wg g + (if active t' then 1 else 0) + length (filter active new)"
proof (cases t)
  case (Serve s)
  then show ?thesis using assms
    by (cases s) (auto simp: closeReadyOnce_def closeReady_def wgDone_def split: sum.splits if_splits)
qed (use assms in \<open>auto split: if_splits option.splits\<close>)

lemma grpcInv_step:
  assumes "gstep v endpoint c c'" and "grpcInv c"
  shows "grpcInv c'"
  using assms(1)
proof cases
  case (act i ts g t new g')
  from assms(2) act(1) have inv: "\<not> gs_panicked g" "gs_readyOnce g = gs_serverReady g"
    "gs_serverReady g \<longrightarrow> gs_server g \<noteq> None" "gs_wg g = length (filter active ts)"
    "\<And>u. u \<in> set ts \<Longrightarrow> knows u g"
    by (auto simp: grpcInv_def)
  have ti: "ts ! i \<in> set ts" using act(3) by simp
  then have pos: "active (ts ! i) \<longrightarrow> 0 < gs_wg g"
    by (auto simp: inv(4) filter_empty_conv)
  note k = knows_step [OF act(5) inv(5) [OF ti] inv(2,3)]
  have "\<And>u. u \<in> set (ts[i := t] @ new) \<Longrightarrow> knows u g'"
    using k inv(5) by (auto dest!: set_update_subset_insert [THEN subsetD])
  moreover have "gs_wg g' = length (filter active (ts[i := t] @ new))"
    using counts_step [OF act(5) inv(1,2) pos] count_update [OF act(3), of active t new] inv(4)
    by (auto split: if_splits)
  ultimately show ?thesis
    using k counts_step [OF act(5) inv(1,2) pos] act(2) by (simp add: grpcInv_def)
qed

lemma grpcInv_reach: "greach v endpoint c c' \<Longrightarrow> grpcInv c \<Longrightarrow> grpcInv c'"
  by (induction rule: greach.induct) (auto intro: grpcInv_step)

text \<open>Whatever calls of \<open>Start\<close>, \<open>Stop\<close>, \<open>ForceStop\<close> and \<open>Wait\<close> run concurrently: the ready channel is never
  closed twice and the wait group never goes below zero; the channel is closed only after the server
  was stored, so a stop that gets past the channel always finds a server to stop; and the wait group
  counts the goroutines of \<open>serve\<close> that have not finished.\<close>

lemma stop_finds_server:
  assumes "\<forall>t \<in> set calls. isCall t"
    and "greach v endpoint (calls, NewNonBlockingGRPCServer) (ts, g)"
  shows "\<not> gs_panicked g \<and> StopWith None \<notin> set ts \<and> (gs_serverReady g \<longrightarrow> gs_server g \<noteq> None) \<and>
    gs_wg g = length (filter active ts)"
proof -
  have "grpcInv (ts, g)" using grpcInv_reach [OF assms(2) grpcInv_start [OF assms(1)]] .
  then show ?thesis by (auto simp: grpcInv_def)
qed

subsection \<open>Shutdown\<close>

text \<open>The steps a thread has left, counting those of the goroutine it spawns.\<close>

fun rank :: "grpcThread \<Rightarrow> nat" where
  "rank StartCall = 8"
| "rank StopWaiting = 3"
| "rank StopReading = 2"
| "rank (StopWith server) = 1"
| "rank WaitCall = 1"
| "rank Returned = 0"
| "rank (Serve s) =
     (case s of ServeBegin \<Rightarrow> 7 | ServeListening x \<Rightarrow> 6 | ServeRegistered x k \<Rightarrow> 5 | ServeStored x k \<Rightarrow> 4
      | ServeServing x k \<Rightarrow> 3 | ServeReturned x \<Rightarrow> 2 | ServeDeferred \<Rightarrow> 1 | ServeDone \<Rightarrow> 0)"

definition stepsLeft :: "grpcConfig \<Rightarrow> nat" where
  "stepsLeft c = (case c of (ts, g) \<Rightarrow> if gs_exited g then 0 else Suc (sum_list (map rank ts)))"

lemma threadStep_rank:
  "threadStep v endpoint t g = Some (t', new, g') \<Longrightarrow>
     gs_exited g' \<or> rank t' + sum_list (map rank new) < rank t"
  by (cases "(v, endpoint, t, g)" rule: threadStep.cases)
    (auto split: if_splits option.splits serveState.splits sum.splits elim: serveStep.elims)

lemma gstep_stepsLeft: "gstep v endpoint c c' \<Longrightarrow> stepsLeft c' < stepsLeft c"
proof (erule gstep.cases)
  fix i ts g t new g'
  assume c: "c = (ts, g)" "c' = (ts[i := t] @ new, g')" and i: "i < length ts" and "\<not> gs_exited g"
    and st: "threadStep v endpoint (ts ! i) g = Some (t, new, g')"
  have "sum_list (map rank (ts[i := t])) + rank (ts ! i) = sum_list (map rank ts) + rank t"
    using i elem_le_sum_list [of i "map rank ts"] by (simp add: map_update sum_list_update)
  with threadStep_rank [OF st] c \<open>\<not> gs_exited g\<close> show ?thesis by (auto simp: stepsLeft_def)
qed

lemma no_infinite_run: "\<not> (\<forall>n. gstep v endpoint (f n) (f (Suc n)))"
proof
  assume "\<forall>n. gstep v endpoint (f n) (f (Suc n))"
  then have less: "stepsLeft (f (Suc n)) < stepsLeft (f n)" for n using gstep_stepsLeft by blast
  have "stepsLeft (f n) + n \<le> stepsLeft (f 0)" for n
  proof (induction n)
    case (Suc n)
    with less [of n] show ?case by simp
  qed simp
  from this [of "Suc (stepsLeft (f 0))"] show False by simp
qed

text \<open>One start: the servers that were or will be created number one, every server mentioned was created,
  and each of the \<open>m\<close> stop calls is under way or has stopped a server.\<close>

fun starting :: "grpcThread \<Rightarrow> bool" where
  "starting StartCall = True"
| "starting (Serve ServeBegin) = True"
| "starting (Serve (ServeListening x)) = True"
| "starting t = False"

fun launched :: "grpcThread \<Rightarrow> bool" where
  "launched (Serve s) = (s \<noteq> ServeBegin \<and> (\<forall>x. s \<noteq> ServeListening x))"
| "launched t = False"

fun stopping :: "grpcThread \<Rightarrow> bool" where
  "stopping StopWaiting = True"
| "stopping StopReading = True"
| "stopping (StopWith server) = True"
| "stopping t = False"

fun threadServers :: "grpcThread \<Rightarrow> nat set" where
  "threadServers (Serve (ServeRegistered x k)) = {k}"
| "threadServers (Serve (ServeStored x k)) = {k}"
| "threadServers (Serve (ServeServing x k)) = {k}"
| "threadServers (StopWith server) = set_option server"
| "threadServers t = {}"

definition servers :: "grpcConfig \<Rightarrow> nat set" where
  "servers c = (case c of (ts, g) \<Rightarrow>
     \<Union> (threadServers ` set ts) \<union> set_option (gs_server g) \<union> set (gs_stopped g))"

definition oneServer :: "nat \<Rightarrow> grpcConfig \<Rightarrow> bool" where
  "oneServer m c \<longleftrightarrow> (case c of (ts, g) \<Rightarrow>
     \<not> gs_exited g \<and> gs_created g + length (filter starting ts) = 1 \<and>
     length (filter launched ts) = gs_created g \<and>
     length (filter stopping ts) + length (gs_stopped g) = m \<and> servers c \<subseteq> {..< gs_created g})"

text \<open>An endpoint that can be listened on, and a server that does not fail on its own.\<close>

definition healthy :: "grpcEnv \<Rightarrow> string \<Rightarrow> bool" where
  "healthy v endpoint \<longleftrightarrow> (\<exists>scheme. openListener v endpoint = Inr scheme) \<and> \<not> ge_serveFails v"

lemma oneServer_thread:
  assumes "threadStep v endpoint t g = Some (t', new, g')" and "healthy v endpoint"
    and "knows t g" and "\<not> gs_exited g"
  shows "\<not> gs_exited g' \<and>
    gs_created g' + (if starting t' then 1 else 0) + length (filter starting new) =
      gs_created g + (if starting t then 1 else 0) \<and>
    gs_created g' + (if launched t then 1 else 0) =
      gs_created g + (if launched t' then 1 else 0) + length (filter launched new) \<and>
    length (gs_stopped g') + (if stopping t' then 1 else 0) + length (filter stopping new) =
      length (gs_stopped g) + (if stopping t then 1 else 0) \<and>
    servers ([t'], g') \<union> servers (new, g') \<subseteq> servers ([t], g) \<union> {gs_created g ..< gs_created g'}"
proof (cases t)
  case (Serve s)
  then show ?thesis using assms
    by (cases s) (auto simp: servers_def healthy_def closeReadyOnce_def closeReady_def wgDone_def
        split: sum.splits if_splits)
qed (use assms in \<open>auto simp: servers_def split: if_splits option.splits\<close>)

lemma servers_split:
  "servers (ts, g) = \<Union> (threadServers ` set ts) \<union> servers ([], g)"
  by (auto simp: servers_def)

lemma oneServer_step:
  assumes "gstep v endpoint c c'" and "oneServer m c" and "grpcInv c" and "healthy v endpoint"
  shows "oneServer m c'"
  using assms(1)
proof cases
  case (act i ts g t new g')
  from assms(2) act(1) have inv: "\<not> gs_exited g" "gs_created g + length (filter starting ts) = 1"
    "length (filter launched ts) = gs_created g"
    "length (filter stopping ts) + length (gs_stopped g) = m" "servers (ts, g) \<subseteq> {..< gs_created g}"
    by (auto simp: oneServer_def)
  have ti: "ts ! i \<in> set ts" using act(3) by simp
  with assms(3) act(1) have "knows (ts ! i) g" by (auto simp: grpcInv_def)
  note one = oneServer_thread [OF act(5) assms(4) this inv(1)]
  have "gs_created g \<le> gs_created g'" using act(5)
    by (cases "(v, endpoint, ts ! i, g)" rule: threadStep.cases)
      (auto simp: closeReadyOnce_def closeReady_def wgDone_def
        split: if_splits option.splits sum.splits elim!: serveStep.elims)
  moreover have "\<Union> (threadServers ` set (ts[i := t] @ new)) \<subseteq>
      \<Union> (threadServers ` set ts) \<union> threadServers t \<union> \<Union> (threadServers ` set new)"
    by (auto dest!: set_update_subset_insert [THEN subsetD])
  moreover have "servers ([ts ! i], g) \<subseteq> servers (ts, g)" using ti by (auto simp: servers_def)
  ultimately have "servers (ts[i := t] @ new, g') \<subseteq> {..< gs_created g'}"
    using one inv(5) unfolding servers_split [of "ts[i := t] @ new"] servers_split [of "[t]"]
      servers_split [of new] servers_split [of ts]
    by fastforce
  then show ?thesis
    using one inv count_update [OF act(3), of starting t new] count_update [OF act(3), of stopping t new]
      count_update [OF act(3), of launched t new]
    by (auto simp: oneServer_def act(2) split: if_splits)
qed

lemma oneServer_reach:
  "greach v endpoint c c' \<Longrightarrow> oneServer m c \<Longrightarrow> grpcInv c \<Longrightarrow> healthy v endpoint \<Longrightarrow>
     oneServer m c' \<and> grpcInv c'"
  by (induction rule: greach.induct) (auto intro: oneServer_step grpcInv_step)

lemma oneServer_start:
  assumes "\<forall>t \<in> set calls. isCall t" and "length (filter (\<lambda>t. t = StartCall) calls) = 1"
  shows "oneServer (length (filter (\<lambda>t. t = StopWaiting) calls)) (calls, NewNonBlockingGRPCServer)"
proof -
  have "filter starting calls = filter (\<lambda>t. t = StartCall) calls"
    "filter stopping calls = filter (\<lambda>t. t = StopWaiting) calls"
    "filter launched calls = []"
    using assms(1) by (auto simp: isCall_def filter_empty_conv intro!: filter_cong)
  moreover have "\<Union> (threadServers ` set calls) = {}" using assms(1) by (auto simp: isCall_def)
  ultimately show ?thesis
    using assms(2) by (simp add: oneServer_def NewNonBlockingGRPCServer_def servers_def)
qed

lemma stuck_finished:
  assumes stuck: "\<And>t. t \<in> set ts \<Longrightarrow> threadStep v endpoint t g = None"
    and one: "oneServer (Suc m) (ts, g)" and inv: "grpcInv (ts, g)" and ok: "healthy v endpoint"
    and t: "t \<in> set ts"
  shows "t = Returned \<or> t = Serve ServeDone"
proof -
  have serve: "s = ServeDone \<or> (\<exists>x k. s = ServeServing x k \<and> k \<notin> set (gs_stopped g))"
    if "Serve s \<in> set ts" for s
    using stuck [OF that] by (cases s) (auto split: sum.splits if_splits)
  have no: "StartCall \<notin> set ts" "StopReading \<notin> set ts" "StopWith x \<notin> set ts" for x
    using stuck [of StartCall] stuck [of StopReading] stuck [of "StopWith x"]
    by (auto split: option.splits)
  have "filter starting ts = []"
  proof (rule filter_False, intro ballI)
    fix u assume "u \<in> set ts"
    with serve no show "\<not> starting u" by (cases u rule: starting.cases) auto
  qed
  with one have created: "gs_created g = 1" and launched: "filter launched ts \<noteq> []"
    by (auto simp: oneServer_def)
  then obtain s where s: "Serve s \<in> set ts"
    by (auto simp: filter_empty_conv elim: launched.elims)
  with serve [OF s] inv have ready: "gs_serverReady g" by (auto simp: grpcInv_def)
  have noStop: "StopWaiting \<notin> set ts" using stuck [of StopWaiting] ready by auto
  have "filter stopping ts = []"
  proof (rule filter_False, intro ballI)
    fix u assume "u \<in> set ts"
    with no noStop show "\<not> stopping u" by (cases u) auto
  qed
  with one have "gs_stopped g \<noteq> []" by (auto simp: oneServer_def)
  moreover have "servers (ts, g) \<subseteq> {0}" using one created by (auto simp: oneServer_def)
  ultimately have stopped: "0 \<in> set (gs_stopped g)"
    by (cases "gs_stopped g") (auto simp: servers_def)
  have over: "u = ServeDone" if "Serve u \<in> set ts" for u
  proof -
    have "k = 0" if "u = ServeServing x k" for x k
      using \<open>servers (ts, g) \<subseteq> {0}\<close> \<open>Serve u \<in> set ts\<close> that by (force simp: servers_def)
    with serve [OF that] stopped show ?thesis by auto
  qed
  then have "filter active ts = []" by (auto simp: filter_empty_conv elim!: active.elims)
  with inv have "gs_wg g = 0" by (simp add: grpcInv_def)
  then have noWait: "WaitCall \<notin> set ts" using stuck [of WaitCall] by auto
  show ?thesis by (cases t) (use t no noStop noWait over in blast)+
qed

text \<open>C24: a server that was started once on a usable endpoint and is stopped at least once shuts down:
  no run is infinite, and a run that cannot go on has let every \<open>Start\<close>, \<open>Stop\<close> and \<open>Wait\<close> return and
  the serving goroutine finish. No interleaving of the calls deadlocks.\<close>

theorem server_shutdown:
  assumes "\<forall>t \<in> set calls. isCall t" and "length (filter (\<lambda>t. t = StartCall) calls) = 1"
    and "StopWaiting \<in> set calls" and "healthy v endpoint"
    and "greach v endpoint (calls, NewNonBlockingGRPCServer) (ts, g)"
  shows "((\<exists>c. gstep v endpoint (ts, g) c) \<or> (\<forall>t \<in> set ts. t = Returned \<or> t = Serve ServeDone)) \<and>
    (\<nexists>f. f 0 = (ts, g) \<and> (\<forall>n. gstep v endpoint (f n) (f (Suc n))))"
proof -
  obtain m where m: "length (filter (\<lambda>t. t = StopWaiting) calls) = Suc m"
    using assms(3) by (cases "filter (\<lambda>t. t = StopWaiting) calls") (auto simp: filter_empty_conv)
  from oneServer_reach [OF assms(5) oneServer_start [OF assms(1,2)] grpcInv_start [OF assms(1)] assms(4)]
  have inv: "oneServer (Suc m) (ts, g)" "grpcInv (ts, g)" by (simp_all add: m)
  have "\<exists>c. gstep v endpoint (ts, g) c" if "t \<in> set ts" "threadStep v endpoint t g \<noteq> None" for t
  proof -
    from that obtain i t' new g' where "i < length ts" "ts ! i = t" "threadStep v endpoint t g = Some (t', new, g')"
      by (metis in_set_conv_nth option.exhaust prod.exhaust)
    with inv(1) gstep.act [of i ts g v endpoint] show ?thesis by (auto simp: oneServer_def)
  qed
  with stuck_finished [OF _ inv assms(4)] no_infinite_run show ?thesis by metis
qed

subsection \<open>A process that starts and stops\<close>

text \<open>Running the threads of a list in turn; a thread that cannot step is passed over.\<close>

fun gschedule :: "grpcEnv \<Rightarrow> string \<Rightarrow> nat list \<Rightarrow> grpcConfig \<Rightarrow> grpcConfig" where
  "gschedule v endpoint [] c = c"
| "gschedule v endpoint (i # is) (ts, g) =
     gschedule v endpoint is
       (if i < length ts \<and> \<not> gs_exited g then
          (case threadStep v endpoint (ts ! i) g of
             None \<Rightarrow> (ts, g) | Some (t, new, g') \<Rightarrow> (ts[i := t] @ new, g'))
        else (ts, g))"

lemma greach_act:
  assumes "greach v endpoint c (ts, g)" and "i < length ts" and "\<not> gs_exited g"
    and "threadStep v endpoint (ts ! i) g = Some (t, new, g')"
  shows "greach v endpoint c (ts[i := t] @ new, g')"
  using greach.further [OF assms(1) gstep.act [OF assms(2-4)]] .

lemma gschedule_reach: "greach v endpoint c c' \<Longrightarrow> greach v endpoint c (gschedule v endpoint is c')"
  by (induction v endpoint "is" c' rule: gschedule.induct) (auto dest: greach_act split: option.split)

definition unixEnv :: grpcEnv where
  "unixEnv =
     \<lparr>ge_Parse = (\<lambda>s. Inr \<lparr>url_Scheme = ''unix'', url_Host = [], url_Path = ''/csi/csi.sock''\<rparr>),
      ge_Remove = (\<lambda>p. Some (SysError ENOENT p)), ge_Listen = (\<lambda>s a. None), ge_serveFails = False\<rparr>"

definition stopConfig :: "nat list \<Rightarrow> grpcConfig" where
  "stopConfig is = gschedule unixEnv ''unix:///csi/csi.sock'' is
     ([StartCall, StopWaiting, WaitCall], NewNonBlockingGRPCServer)"

lemma stopConfig_reach:
  "greach unixEnv ''unix:///csi/csi.sock'' ([StartCall, StopWaiting, WaitCall], NewNonBlockingGRPCServer)
     (fst (stopConfig is), snd (stopConfig is))"
  unfolding prod.collapse stopConfig_def by (rule gschedule_reach) (rule greach.initially)

theorem stop_finds_server_witness:
  "gs_serverReady (snd (stopConfig [0, 3, 3, 3, 3, 1, 1])) \<and>
   gs_server (snd (stopConfig [0, 3, 3, 3, 3, 1, 1])) \<noteq> None"
proof
  show "gs_serverReady (snd (stopConfig [0, 3, 3, 3, 3, 1, 1]))" by code_simp
  then show "gs_server (snd (stopConfig [0, 3, 3, 3, 3, 1, 1])) \<noteq> None"
    using stop_finds_server [OF _ stopConfig_reach, of "[0, 3, 3, 3, 3, 1, 1]"]
    by (simp add: isCall_def)
qed

text \<open>In the middle the run can go on; at the end everything has returned.\<close>

theorem server_shutdown_witness:
  "fst (stopConfig [0, 3, 3, 3, 3, 1, 1, 1, 3, 3, 3, 2]) =
     [Returned, Returned, Returned, Serve ServeDone] \<and>
   (\<exists>c. gstep unixEnv ''unix:///csi/csi.sock'' (fst (stopConfig [0, 3, 3]), snd (stopConfig [0, 3, 3])) c)"
proof
  show "fst (stopConfig [0, 3, 3, 3, 3, 1, 1, 1, 3, 3, 3, 2]) =
     [Returned, Returned, Returned, Serve ServeDone]" by code_simp
  have "fst (stopConfig [0, 3, 3]) = [Returned, StopWaiting, WaitCall, Serve (ServeRegistered ''unix'' 0)]"
    by code_simp
  moreover have "healthy unixEnv ''unix:///csi/csi.sock''"
    by (simp add: healthy_def openListener_def listenAddress_def unixEnv_def)
  ultimately show "\<exists>c. gstep unixEnv ''unix:///csi/csi.sock''
      (fst (stopConfig [0, 3, 3]), snd (stopConfig [0, 3, 3])) c"
    using server_shutdown [OF _ _ _ _ stopConfig_reach, of "[0, 3, 3]"]
    by (simp add: isCall_def)
qed

subsection \<open>The run of a process\<close>

text \<open>\<open>LinodeDriver.Run\<close> makes a server, starts it and waits for it; nothing in the process stops it. It ends the
  process, returns, or goes on serving.\<close>

datatype runOutcome = RunFatal | RunReturned | RunServing "service list"

definition runConfig :: "grpcEnv \<Rightarrow> string \<Rightarrow> grpcConfig" where
  "runConfig v endpoint =
     (case threadStep v endpoint StartCall NewNonBlockingGRPCServer of
        None \<Rightarrow> ([WaitCall], NewNonBlockingGRPCServer)
      | Some (started, goroutines, g) \<Rightarrow> (WaitCall # goroutines, g))"

definition configOutcome :: "service list \<Rightarrow> grpcConfig \<Rightarrow> runOutcome" where
  "configOutcome services c =
     (case c of (ts, g) \<Rightarrow>
        if gs_exited g then RunFatal
        else if hd ts = Returned then RunReturned
        else RunServing services)"

text \<open>The outcome of a run of the threads until none of them can step: the goroutine takes at most seven steps,
  then the waiting thread returns if it can.\<close>

definition serverRun :: "grpcEnv \<Rightarrow> string \<Rightarrow> service list \<Rightarrow> runOutcome" where
  "serverRun v endpoint services =
     configOutcome services (gschedule v endpoint (replicate 7 1 @ [0]) (runConfig v endpoint))"

definition runServices :: "grpcEnv \<Rightarrow> string \<Rightarrow> driverState \<Rightarrow> driverState \<times> runOutcome" where
  "runServices v endpoint d =
     (d\<lparr>ds_ready := True\<rparr>,
      serverRun v endpoint
        (registeredServices (asInterface (ds_ids d)) (asInterface (ds_cs d)) (asInterface (ds_ns d))))"

text \<open>What holds in every configuration of the run.\<close>

definition runInv :: "grpcEnv \<Rightarrow> string \<Rightarrow> grpcConfig \<Rightarrow> bool" where
  "runInv v endpoint c \<longleftrightarrow> (\<exists>s g. c = ([WaitCall, Serve s], g) \<and> gs_wg g = 1 \<and> gs_stopped g = [] \<and>
     (if gs_exited g then isl (openListener v endpoint) \<or> ge_serveFails v
      else s \<noteq> ServeBegin \<longrightarrow> \<not> isl (openListener v endpoint)) \<and>
     s \<noteq> ServeDeferred \<and> s \<noteq> ServeDone \<and> (\<forall>scheme. s \<noteq> ServeReturned scheme))"

lemma runInv_start: "runInv v endpoint (runConfig v endpoint)"
  by (simp add: runInv_def runConfig_def NewNonBlockingGRPCServer_def)

lemma runInv_step:
  assumes "gstep v endpoint c c'" and "runInv v endpoint c"
  shows "runInv v endpoint c'"
  using assms(1)
proof cases
  case (act i ts g t new g')
  from assms(2) act(1) obtain s where c: "ts = [WaitCall, Serve s]" "gs_wg g = 1" "gs_stopped g = []"
    "s \<noteq> ServeBegin \<longrightarrow> \<not> isl (openListener v endpoint)"
    "s \<noteq> ServeDeferred" "s \<noteq> ServeDone" "\<forall>scheme. s \<noteq> ServeReturned scheme"
    using act(4) by (auto simp: runInv_def)
  from act(3) c(1) consider "i = 0" | "i = 1" by fastforce
  then show ?thesis
  proof cases
    case 1
    with act(5) c(1,2) show ?thesis by simp
  next
    case 2
    with act c show ?thesis
      by (cases s) (auto simp: runInv_def closeReadyOnce_def closeReady_def split: sum.splits if_splits)
  qed
qed

lemma runInv_reach: "greach v endpoint (runConfig v endpoint) c \<Longrightarrow> runInv v endpoint c"
  by (induction rule: greach.induct) (auto intro: runInv_start runInv_step)

lemma runInv_stuck:
  assumes "runInv v endpoint c" and "\<nexists>c'. gstep v endpoint c c'"
  shows "configOutcome services c =
    (if isl (openListener v endpoint) \<or> ge_serveFails v then RunFatal else RunServing services)"
proof -
  from assms(1) obtain s g where c: "c = ([WaitCall, Serve s], g)" "gs_stopped g = []"
    "if gs_exited g then isl (openListener v endpoint) \<or> ge_serveFails v
     else s \<noteq> ServeBegin \<longrightarrow> \<not> isl (openListener v endpoint)"
    "s \<noteq> ServeDeferred" "s \<noteq> ServeDone" "\<forall>scheme. s \<noteq> ServeReturned scheme"
    by (auto simp: runInv_def)
  show ?thesis
  proof (cases "gs_exited g")
    case True
    with c show ?thesis by (simp add: configOutcome_def)
  next
    case False
    have "serveStep v endpoint s g = None"
    proof (rule ccontr)
      assume "serveStep v endpoint s g \<noteq> None"
      then obtain s' g' where "serveStep v endpoint s g = Some (s', g')" by auto
      then have "gstep v endpoint c ([WaitCall, Serve s][1 := Serve s'] @ [], g')"
        unfolding c(1) by (intro gstep.act) (simp_all add: False)
      with assms(2) show False by blast
    qed
    with c(2-6) False show ?thesis
      by (cases s) (auto simp: configOutcome_def c(1) split: sum.splits if_splits)
  qed
qed

lemma serverRun_spec:
  "serverRun v endpoint services =
     (if isl (openListener v endpoint) \<or> ge_serveFails v then RunFatal else RunServing services)"
  by (cases "openListener v endpoint")
    (auto simp: serverRun_def runConfig_def configOutcome_def NewNonBlockingGRPCServer_def
      numeral_eq_Suc closeReadyOnce_def closeReady_def)

text \<open>The outcome does not depend on the schedule: every run of the threads of \<open>Run\<close> that cannot go on ends in
  it, and every run comes to such an end (\<open>no_infinite_run\<close>). In particular \<open>Run\<close> never returns.\<close>

lemma run_every_interleaving:
  assumes "greach v endpoint (runConfig v endpoint) c" and "\<nexists>c'. gstep v endpoint c c'"
  shows "configOutcome services c = serverRun v endpoint services"
  using runInv_stuck [OF runInv_reach [OF assms(1)] assms(2)] by (simp add: serverRun_spec)

end
