(* ===== verification/HandleFacts.thy ===== *)
theory HandleFacts
  imports ControllerHelpers
begin

text \<open>
  Properties of the handles: the round trips between \<open>formatVolumeHandle\<close> and
  \<open>parseVolumeHandle\<close>, \<open>formatSnapshotHandle\<close> and \<open>parseSnapshotHandle\<close>, node IDs, exactly which
  strings a volume handle accepts, and that several strings name the same volume. The locale
  \<open>codec\<close> is the contract between a renderer and its parser.
\<close>

subsection \<open>The contract of a renderer and its parser\<close>

locale codec =
  fixes enc :: "'a \<Rightarrow> string"
    and dec :: "string \<Rightarrow> 'e + 'a"
    and valid :: "'a \<Rightarrow> bool"
  assumes dec_enc: "valid a \<Longrightarrow> dec (enc a) = Inr a"
begin

lemma enc_inj: "valid a \<Longrightarrow> valid b \<Longrightarrow> enc a = enc b \<Longrightarrow> a = b"
  by (metis dec_enc sum.inject(2))

lemma dec_unique: "valid a \<Longrightarrow> dec (enc a) = Inr b \<Longrightarrow> b = a"
  by (simp add: dec_enc)

lemma enc_not_rejected: "valid a \<Longrightarrow> dec (enc a) \<noteq> Inl e"
  by (simp add: dec_enc)

end

definition wfVolumeHandle :: "volumeHandle \<Rightarrow> bool" where
  "wfVolumeHandle h \<longleftrightarrow> int_range (vh_spaceID h) \<and> int_range (vh_filesystemID h)"

definition wfSnapshotHandle :: "snapshotHandle \<Rightarrow> bool" where
  "wfSnapshotHandle h \<longleftrightarrow>
     int_range (sh_spaceID h) \<and> int_range (sh_filesystemID h) \<and> int_range (sh_snapshotID h)"

definition volumeHandleString :: "volumeHandle \<Rightarrow> string" where
  "volumeHandleString h = formatVolumeHandle (vh_spaceID h) (vh_filesystemID h)"

definition snapshotHandleString :: "snapshotHandle \<Rightarrow> string" where
  "snapshotHandleString h =
     formatSnapshotHandle (sh_spaceID h) (sh_filesystemID h) (sh_snapshotID h)"

subsection \<open>Rendered handles\<close>

lemma trimSpace_between:
  assumes "\<forall>c \<in> set xs. plainChar c" and "\<forall>c \<in> set ys. plainChar c" and "xs \<noteq> []" and "ys \<noteq> []"
  shows "trimSpace (xs @ zs @ ys) = xs @ zs @ ys"
  by (rule trimSpace_plain) (use assms in auto)

lemma plain_Itoa [simp]: "\<forall>c \<in> set (Itoa i). plainChar c"
  by (auto dest: Itoa_plain)

lemma trimSpace_handle [simp]: "trimSpace (Itoa i @ zs @ Itoa j) = Itoa i @ zs @ Itoa j"
  by (rule trimSpace_between) simp_all

lemma split_handle2: "splitByte CHR ''/'' (Itoa i @ CHR ''/'' # Itoa j) = [Itoa i, Itoa j]"
  by (simp add: splitByte_append splitByte_no_sep)

lemma split_handle3:
  "splitByte CHR ''/'' (Itoa i @ CHR ''/'' # Itoa j @ CHR ''/'' # Itoa k) = [Itoa i, Itoa j, Itoa k]"
  by (simp add: splitByte_append splitByte_no_sep)

lemma parse_format_volume:
  assumes "int_range i" and "int_range j"
  shows "parseVolumeHandle (formatVolumeHandle i j) = Inr \<lparr>vh_spaceID = i, vh_filesystemID = j\<rparr>"
  using assms trimSpace_handle [of i "''/''" j]
  by (simp add: parseVolumeHandle_def formatVolumeHandle_def split_handle2)

lemma parse_format_snapshot:
  assumes "int_range i" and "int_range j" and "int_range k"
  shows "parseSnapshotHandle (formatSnapshotHandle i j k) =
           Inr \<lparr>sh_spaceID = i, sh_filesystemID = j, sh_snapshotID = k\<rparr>"
  using assms trimSpace_handle [of i "''/'' @ Itoa j @ ''/''" k]
  by (simp add: parseSnapshotHandle_def formatSnapshotHandle_def split_handle3)

interpretation nodeID: codec Itoa Atoi int_range
  by unfold_locales simp

interpretation vh: codec volumeHandleString parseVolumeHandle wfVolumeHandle
  by unfold_locales
    (simp add: volumeHandleString_def wfVolumeHandle_def parse_format_volume)

interpretation sh: codec snapshotHandleString parseSnapshotHandle wfSnapshotHandle
  by unfold_locales
    (simp add: snapshotHandleString_def wfSnapshotHandle_def parse_format_snapshot)

subsection \<open>What a volume handle accepts\<close>

lemma splitByte_two:
  "splitByte c s = [a, b] \<longleftrightarrow> s = a @ c # b \<and> c \<notin> set a \<and> c \<notin> set b"
proof
  assume eq: "splitByte c s = [a, b]"
  then have "s = a @ c # b" using join_split [of c s] by simp
  moreover from eq have "c \<notin> set a" "c \<notin> set b"
    using splitByte_parts [of _ c s] by auto
  ultimately show "s = a @ c # b \<and> c \<notin> set a \<and> c \<notin> set b" by blast
next
  assume "s = a @ c # b \<and> c \<notin> set a \<and> c \<notin> set b"
  then show "splitByte c s = [a, b]" by (simp add: splitByte_append splitByte_no_sep)
qed

lemma Atoi_Nil [simp]: "Atoi [] = Inl ErrSyntax"
  by (simp add: Atoi_def splitSign_def)

lemma parseVolumeHandle_eq:
  "parseVolumeHandle s = Inr h \<longleftrightarrow>
     (\<exists>a b. splitByte CHR ''/'' (trimSpace s) = [a, b] \<and>
            Atoi a = Inr (vh_spaceID h) \<and> Atoi b = Inr (vh_filesystemID h))"
  by (cases h)
    (auto simp: parseVolumeHandle_def Let_def split: list.splits sum.splits)

lemma parseVolumeHandle_iff:
  "parseVolumeHandle s = Inr h \<longleftrightarrow>
     (\<exists>a b. trimSpace s = a @ ''/'' @ b \<and> CHR ''/'' \<notin> set a \<and> CHR ''/'' \<notin> set b \<and>
            Atoi a = Inr (vh_spaceID h) \<and> Atoi b = Inr (vh_filesystemID h))"
  by (auto simp: parseVolumeHandle_eq splitByte_two)

lemma parseVolumeHandle_wf: "parseVolumeHandle s = Inr h \<Longrightarrow> wfVolumeHandle h"
  by (auto simp: parseVolumeHandle_eq wfVolumeHandle_def dest: Atoi_range)

lemma parseVolumeHandle_code:
  "parseVolumeHandle s = Inl e \<Longrightarrow> statusCode e = InvalidArgument"
  by (auto simp: parseVolumeHandle_def Let_def split: list.splits sum.splits if_splits)

lemma parseVolumeHandle_Nil: "parseVolumeHandle [] \<noteq> Inr h"
proof -
  have "(case parseVolumeHandle [] of Inl _ \<Rightarrow> True | Inr _ \<Rightarrow> False)" by code_simp
  then show ?thesis by (auto split: sum.splits)
qed

lemma parseVolumeHandleAndNodeID_Inr:
  "parseVolumeHandleAndNodeID v n = Inr (h, i) \<longleftrightarrow> parseVolumeHandle v = Inr h \<and> Atoi n = Inr i"
  by (cases "parseVolumeHandle v"; cases "Atoi n") (auto simp: parseVolumeHandleAndNodeID_def)

lemma parseVolumeHandleAndNodeID_code:
  "parseVolumeHandleAndNodeID v n = Inl e \<Longrightarrow> statusCode e = InvalidArgument"
  by (cases "parseVolumeHandle v"; cases "Atoi n")
    (auto simp: parseVolumeHandleAndNodeID_def dest: parseVolumeHandle_code)

subsection \<open>Properties\<close>

text \<open>C31: a volume handle rendered by \<open>formatVolumeHandle\<close> from IDs in the range of Go's \<open>int\<close>
  parses back to exactly these IDs.\<close>

theorem volumeHandle_roundtrip:
  assumes "wfVolumeHandle h"
  shows "parseVolumeHandle (formatVolumeHandle (vh_spaceID h) (vh_filesystemID h)) = Inr h"
  using vh.dec_enc [OF assms] by (simp add: volumeHandleString_def)

theorem volumeHandle_roundtrip_witness:
  "parseVolumeHandle (formatVolumeHandle 42 (-1337)) =
     Inr \<lparr>vh_spaceID = 42, vh_filesystemID = -1337\<rparr>"
  using volumeHandle_roundtrip [of "\<lparr>vh_spaceID = 42, vh_filesystemID = -1337\<rparr>"]
  by (simp add: wfVolumeHandle_def int_range_def)

text \<open>C32: \<open>parseVolumeHandle\<close> accepts exactly the strings that, after trimming white space, are two
  slash-free decimal integers of Go's \<open>int\<close> around one slash, it returns these integers, and every
  other string is rejected with \<open>InvalidArgument\<close>.\<close>

theorem parseVolumeHandle_spec:
  "(case parseVolumeHandle s of
      Inr h \<Rightarrow> wfVolumeHandle h \<and>
        (\<exists>a b. trimSpace s = a @ ''/'' @ b \<and> CHR ''/'' \<notin> set a \<and> CHR ''/'' \<notin> set b \<and>
               Atoi a = Inr (vh_spaceID h) \<and> Atoi b = Inr (vh_filesystemID h))
    | Inl e \<Rightarrow> statusCode e = InvalidArgument \<and>
        \<not> (\<exists>a b i j. trimSpace s = a @ ''/'' @ b \<and> CHR ''/'' \<notin> set a \<and> CHR ''/'' \<notin> set b \<and>
               Atoi a = Inr i \<and> Atoi b = Inr j))"
proof (cases "parseVolumeHandle s")
  case (Inl e)
  have "\<not> (\<exists>a b i j. trimSpace s = a @ ''/'' @ b \<and> CHR ''/'' \<notin> set a \<and> CHR ''/'' \<notin> set b \<and>
               Atoi a = Inr i \<and> Atoi b = Inr j)"
    using Inl parseVolumeHandle_iff [of s] by (metis Inl_Inr_False volumeHandle.select_convs)
  with Inl show ?thesis by (simp add: parseVolumeHandle_code)
next
  case (Inr h)
  then show ?thesis
    using parseVolumeHandle_wf [OF Inr] parseVolumeHandle_iff [of s h] by simp
qed

text \<open>A snapshot handle rendered by \<open>formatSnapshotHandle\<close> from IDs in range parses back to
  these IDs.\<close>

lemma snapshotHandle_roundtrip:
  assumes "wfSnapshotHandle h"
  shows "parseSnapshotHandle
           (formatSnapshotHandle (sh_spaceID h) (sh_filesystemID h) (sh_snapshotID h)) = Inr h"
  using sh.dec_enc [OF assms] by (simp add: snapshotHandleString_def)

theorem snapshotHandle_roundtrip_witness:
  "parseSnapshotHandle (formatSnapshotHandle 42 1337 9) =
     Inr \<lparr>sh_spaceID = 42, sh_filesystemID = 1337, sh_snapshotID = 9\<rparr>"
  using snapshotHandle_roundtrip
    [of "\<lparr>sh_spaceID = 42, sh_filesystemID = 1337, sh_snapshotID = 9\<rparr>"]
  by (simp add: wfSnapshotHandle_def int_range_def)

end
