(* ===== verification/PolicyFacts.thy ===== *)
theory PolicyFacts
  imports ControllerServer HandleFacts
begin

text \<open>
  What the controller promises about filesystem access policies. The locale \<open>policy_store\<close> is the
  contract of the four access-policy methods of \<open>LinodeClient\<close> over an abstract table of policies:
  reads do not change it, an accepted update replaces the fields it carries, and a successful wait
  reports the policy in the requested status. Under this contract a successful
  \<open>ControllerPublishVolume\<close> admits the node and keeps everything else, a successful
  \<open>ControllerUnpublishVolume\<close> revokes it, and both are idempotent.
\<close>

subsection \<open>Locked operations\<close>

lemma withVolumeLock_ok:
  assumes "run (withVolumeLock key body) v st = (Inr a, st')"
  obtains s2 where
    "key \<notin> vl_locks (proc_locks st)"
    "run body v (st\<lparr>proc_locks :=
        (proc_locks st)\<lparr>vl_locks := insert key (vl_locks (proc_locks st))\<rparr>\<rparr>) = (Inr a, s2)"
    "st' = s2\<lparr>proc_locks := Release key (proc_locks s2)\<rparr>"
proof -
  have free: "key \<notin> vl_locks (proc_locks st)"
    using assms by (cases "key \<in> vl_locks (proc_locks st)") (auto simp: run_withVolumeLock_busy)
  with assms that show thesis
    by (auto simp: run_withVolumeLock_free split: prod.splits)
qed

subsection \<open>The contract of the policy methods\<close>

definition applyPolicyUpdate ::
    "NFSFilesystemAccessPolicyUpdateOptions \<Rightarrow> NFSFilesystemAccessPolicy
       \<Rightarrow> NFSFilesystemAccessPolicy" where
  "applyPolicyUpdate o' p =
     p\<lparr>pol_Label := (case up_Label o' of None \<Rightarrow> pol_Label p | Some x \<Rightarrow> x),
       pol_Enabled := (case up_Enabled o' of None \<Rightarrow> pol_Enabled p | Some x \<Rightarrow> x),
       pol_LinodeACL := (case up_LinodeIDs o' of None \<Rightarrow> pol_LinodeACL p | Some x \<Rightarrow> elems x),
       pol_SquashPolicy := (case up_SquashPolicy o' of None \<Rightarrow> pol_SquashPolicy p | Some x \<Rightarrow> x),
       pol_Protocols := (case up_Protocols o' of None \<Rightarrow> pol_Protocols p | Some x \<Rightarrow> x)\<rparr>"

lemma applyPolicyUpdate_simps [simp]:
  "pol_Label (applyPolicyUpdate (filesystemPolicyUpdate p b ids) p) = pol_Label p"
  "pol_Enabled (applyPolicyUpdate (filesystemPolicyUpdate p b ids) p) = b"
  "pol_LinodeACL (applyPolicyUpdate (filesystemPolicyUpdate p b ids) p) = elems ids"
  "pol_SquashPolicy (applyPolicyUpdate (filesystemPolicyUpdate p b ids) p) = pol_SquashPolicy p"
  "pol_Protocols (applyPolicyUpdate (filesystemPolicyUpdate p b ids) p) = pol_Protocols p"
  "pol_FilesystemID (applyPolicyUpdate (filesystemPolicyUpdate p b ids) p) = pol_FilesystemID p"
  by (simp_all add: applyPolicyUpdate_def filesystemPolicyUpdate_def)

locale policy_store =
  fixes c :: "'w LinodeClient"
    and pol :: "'w \<Rightarrow> (int \<times> int) \<Rightarrow> NFSFilesystemAccessPolicy option"
  assumes get_ok:
      "lc_GetNFSFilesystemAccessPolicy c i j w = (Inr p, w') \<Longrightarrow>
         pol w' = pol w \<and> pol w (i, j) = Some p"
    and get_err:
      "lc_GetNFSFilesystemAccessPolicy c i j w = (Inl e, w') \<Longrightarrow> pol w' = pol w"
    and update_ok:
      "lc_UpdateNFSFilesystemAccessPolicy c i j o' w = (Inr q, w') \<Longrightarrow>
         \<exists>p status. pol w (i, j) = Some p \<and>
           pol w' = (pol w)((i, j) \<mapsto> (applyPolicyUpdate o' p)\<lparr>pol_Status := status\<rparr>)"
    and wait_ok:
      "lc_WaitForNFSFilesystemAccessPolicyStatus c t i j status w = (Inr q, w') \<Longrightarrow>
         \<exists>p. pol w (i, j) = Some p \<and> q = p\<lparr>pol_Status := status\<rparr> \<and>
           pol w' = (pol w)((i, j) \<mapsto> q)"

definition handleKey :: "volumeHandle \<Rightarrow> int \<times> int" where
  "handleKey h = (vh_spaceID h, vh_filesystemID h)"

text \<open>The nodes the policy names. An entry with ID 0 stands for no Linode.\<close>

definition aclNodes :: "NFSFilesystemAccessPolicy \<Rightarrow> int set" where
  "aclNodes p = set (pol_LinodeACL p) - {0}"

text \<open>Two policies that differ in the enabled flag, the ACL and the status at most.\<close>

definition sameSettings :: "NFSFilesystemAccessPolicy \<Rightarrow> NFSFilesystemAccessPolicy \<Rightarrow> bool" where
  "sameSettings p q \<longleftrightarrow>
     pol_FilesystemID p = pol_FilesystemID q \<and> pol_Label p = pol_Label q \<and>
     pol_SquashPolicy p = pol_SquashPolicy q \<and> pol_Protocols p = pol_Protocols q"

lemma sameSettings_refl [simp]: "sameSettings p p"
  by (simp add: sameSettings_def)

lemma elems_policyIDs [simp]:
  "elems (filesystemPolicyLinodeIDs p) = filter (\<lambda>i. i \<noteq> 0) (pol_LinodeACL p)"
  by (simp add: filesystemPolicyLinodeIDs_def)

subsection \<open>The specification of publish and unpublish\<close>

definition publishPost ::
    "int \<Rightarrow> NFSFilesystemAccessPolicy \<Rightarrow> NFSFilesystemAccessPolicy \<Rightarrow> bool" where
  "publishPost n p p' \<longleftrightarrow>
     pol_Enabled p' \<and> n \<in> set (pol_LinodeACL p') \<and>
     aclNodes p' \<union> {n} = aclNodes p \<union> {n} \<and> sameSettings p p'"

definition unpublishPost ::
    "int \<Rightarrow> NFSFilesystemAccessPolicy \<Rightarrow> NFSFilesystemAccessPolicy \<Rightarrow> bool" where
  "unpublishPost n p p' \<longleftrightarrow>
     pol_Enabled p' = pol_Enabled p \<and> aclNodes p' = aclNodes p - {n} \<and> sameSettings p p'"

context policy_store
begin

lemma wait_active:
  assumes "run (waitForFilesystemAccessPolicyActive s i j) v st = (Inr (), st')"
    and "env_client v = c"
  shows "\<exists>p. pol (proc_world st) (i, j) = Some p \<and>
    pol (proc_world st') = (pol (proc_world st))((i, j) \<mapsto> p\<lparr>pol_Status := NFSAccessPolicyStatusActive\<rparr>)"
  using assms(1)
  by (auto simp: waitForFilesystemAccessPolicyActive_def run_simps assms(2)
      split: prod.splits sum.splits dest!: wait_ok)

lemma update_and_wait:
  assumes "run (updatePolicyAndWait s h o') v st = (Inr (), st')" and "env_client v = c"
  shows "\<exists>p. pol (proc_world st) (handleKey h) = Some p \<and>
    pol (proc_world st') = (pol (proc_world st))(handleKey h \<mapsto>
      (applyPolicyUpdate o' p)\<lparr>pol_Status := NFSAccessPolicyStatusActive\<rparr>)"
proof -
  obtain q w1 where u: "lc_UpdateNFSFilesystemAccessPolicy c (vh_spaceID h) (vh_filesystemID h) o'
        (proc_world st) = (Inr q, w1)"
    and w: "run (waitForFilesystemAccessPolicyActive s (vh_spaceID h) (vh_filesystemID h)) v
        (st\<lparr>proc_world := w1\<rparr>) = (Inr (), st')"
    using assms(1)
    by (auto simp: updatePolicyAndWait_def run_simps assms(2) split: prod.splits sum.splits)
  from update_ok [OF u] wait_active [OF w assms(2)] show ?thesis
    by (auto simp: handleKey_def)
qed

lemma get_policy:
  assumes "run (getFilesystemPolicyForVolumeAndNode x y) v st = (Inr (h, n, p), st')"
    and "env_client v = c"
  shows "parseVolumeHandleAndNodeID x y = Inr (h, n) \<and> pol (proc_world st) (handleKey h) = Some p
    \<and> pol (proc_world st') = pol (proc_world st)"
  using assms(1)
  by (auto simp: getFilesystemPolicyForVolumeAndNode_def run_simps handleKey_def assms(2)
      split: prod.splits sum.splits dest!: get_ok)

lemma publish_locked:
  assumes "run (publishLocked s req) v st = (Inr (), st')" and "env_client v = c"
  shows "\<exists>h n p p'. parseVolumeHandleAndNodeID (pv_VolumeId req) (pv_NodeId req) = Inr (h, n) \<and>
    pol (proc_world st) (handleKey h) = Some p \<and>
    pol (proc_world st') = (pol (proc_world st))(handleKey h \<mapsto> p') \<and> publishPost n p p'"
proof -
  obtain h n p st1 where g:
    "run (getFilesystemPolicyForVolumeAndNode (pv_VolumeId req) (pv_NodeId req)) v st
       = (Inr (h, n, p), st1)"
    using assms(1) by (auto simp: publishLocked_def run_simps split: prod.splits sum.splits if_splits)
  note gp = get_policy [OF g assms(2)]
  show ?thesis
  proof (cases "n \<in> set (elems (filesystemPolicyLinodeIDs p)) \<and> pol_Enabled p")
    case True
    then have "st' = st1"
      using assms(1) g by (auto simp: publishLocked_def run_simps)
    moreover have "publishPost n p p" using True by (auto simp: publishPost_def)
    ultimately show ?thesis using gp by (intro exI conjI) auto
  next
    case False
    let ?ids = "if n \<in> set (elems (filesystemPolicyLinodeIDs p)) then filesystemPolicyLinodeIDs p
       else slice_append (filesystemPolicyLinodeIDs p) n"
    from False have "run (updatePolicyAndWait s h (filesystemPolicyUpdate p True ?ids)) v st1
        = (Inr (), st')"
      using assms(1) g by (auto simp: publishLocked_def run_simps Let_def)
    from update_and_wait [OF this assms(2)] gp
    have "pol (proc_world st') = (pol (proc_world st))(handleKey h \<mapsto>
        (applyPolicyUpdate (filesystemPolicyUpdate p True ?ids) p)
          \<lparr>pol_Status := NFSAccessPolicyStatusActive\<rparr>)"
      by auto
    moreover have "publishPost n p ((applyPolicyUpdate (filesystemPolicyUpdate p True ?ids) p)
          \<lparr>pol_Status := NFSAccessPolicyStatusActive\<rparr>)"
      by (auto simp: publishPost_def sameSettings_def aclNodes_def)
    ultimately show ?thesis using gp by blast
  qed
qed

text \<open>What a successful unpublish did, by the outcome of parsing the IDs and reading the policy.\<close>

lemma unpublish_locked:
  assumes "run (unpublishLocked s req) v st = (Inr (), st')" and "env_client v = c"
  shows "case parseVolumeHandleAndNodeID (uv_VolumeId req) (uv_NodeId req) of
      Inl e \<Rightarrow> IsNotFound (cs_linodego s) e \<and> proc_world st' = proc_world st
    | Inr (h, n) \<Rightarrow>
        (\<exists>e w. lc_GetNFSFilesystemAccessPolicy c (vh_spaceID h) (vh_filesystemID h) (proc_world st)
           = (Inl e, w) \<and> IsNotFound (cs_linodego s) e \<and> pol (proc_world st') = pol (proc_world st)) \<or>
        (\<exists>p p'. pol (proc_world st) (handleKey h) = Some p \<and>
           pol (proc_world st') = (pol (proc_world st))(handleKey h \<mapsto> p') \<and>
           (n \<noteq> 0 \<longrightarrow> unpublishPost n p p'))"
proof (cases "parseVolumeHandleAndNodeID (uv_VolumeId req) (uv_NodeId req)")
  case (Inl e)
  with assms(1) show ?thesis
    by (auto simp: unpublishLocked_def getFilesystemPolicyForVolumeAndNode_def run_simps
        split: if_splits)
next
  case (Inr hn)
  obtain h n where hn: "hn = (h, n)" by (cases hn)
  obtain r w where g: "lc_GetNFSFilesystemAccessPolicy c (vh_spaceID h) (vh_filesystemID h)
      (proc_world st) = (r, w)" by fastforce
  show ?thesis
  proof (cases r)
    case (Inl e)
    with g get_err [of "vh_spaceID h" "vh_filesystemID h"] assms(1) Inr hn show ?thesis
      by (auto simp: unpublishLocked_def getFilesystemPolicyForVolumeAndNode_def run_simps assms(2)
          split: if_splits)
  next
    case r: (Inr p)
    have p: "pol (proc_world st) (handleKey h) = Some p" and w: "pol w = pol (proc_world st)"
      using get_ok g r by (auto simp: handleKey_def)
    show ?thesis
    proof (cases "n \<in> set (elems (filesystemPolicyLinodeIDs p))")
      case False
      then have "pol (proc_world st') = pol (proc_world st)"
        using assms(1) g r w Inr hn
        by (auto simp: unpublishLocked_def getFilesystemPolicyForVolumeAndNode_def run_simps assms(2))
      moreover have "n \<noteq> 0 \<longrightarrow> unpublishPost n p p"
        using False by (auto simp: unpublishPost_def aclNodes_def)
      ultimately show ?thesis using p Inr hn by (auto intro!: exI [of _ p])
    next
      case True
      let ?ids = "slice_delete (\<lambda>x. x = n) (filesystemPolicyLinodeIDs p)"
      let ?p' = "(applyPolicyUpdate (filesystemPolicyUpdate p (pol_Enabled p) ?ids) p)
          \<lparr>pol_Status := NFSAccessPolicyStatusActive\<rparr>"
      from True have "run (updatePolicyAndWait s h (filesystemPolicyUpdate p (pol_Enabled p) ?ids)) v
          (st\<lparr>proc_world := w\<rparr>) = (Inr (), st')"
        using assms(1) g r Inr hn
        by (auto simp: unpublishLocked_def getFilesystemPolicyForVolumeAndNode_def run_simps assms(2)
            Let_def)
      from update_and_wait [OF this assms(2)] p w
      have "pol (proc_world st') = (pol (proc_world st))(handleKey h \<mapsto> ?p')" by auto
      moreover have "unpublishPost n p ?p'"
        by (auto simp: unpublishPost_def sameSettings_def aclNodes_def)
      ultimately show ?thesis using p Inr hn by auto
    qed
  qed
qed

lemma publish_noop:
  assumes "run (publishLocked s req) v st = (r, st')" and "env_client v = c"
    and "parseVolumeHandleAndNodeID (pv_VolumeId req) (pv_NodeId req) = Inr (h, n)"
    and "pol (proc_world st) (handleKey h) = Some p"
    and "n \<in> set (pol_LinodeACL p)" and "n \<noteq> 0" and "pol_Enabled p"
  shows "pol (proc_world st') = pol (proc_world st)"
proof -
  obtain r1 w1 where g: "lc_GetNFSFilesystemAccessPolicy c (vh_spaceID h) (vh_filesystemID h)
      (proc_world st) = (r1, w1)" by fastforce
  show ?thesis
  proof (cases r1)
    case (Inl e)
    with g get_err [of "vh_spaceID h" "vh_filesystemID h"] assms(1,3) show ?thesis
      by (auto simp: publishLocked_def getFilesystemPolicyForVolumeAndNode_def run_simps assms(2)
          split: if_splits)
  next
    case (Inr q)
    with g get_ok [of "vh_spaceID h" "vh_filesystemID h"] assms(4) have "q = p" "pol w1 = pol (proc_world st)"
      by (auto simp: handleKey_def)
    with Inr g assms(1,3,5-7) show ?thesis
      by (auto simp: publishLocked_def getFilesystemPolicyForVolumeAndNode_def run_simps assms(2)
          split: if_splits)
  qed
qed

end

end
