(* ===== verification/HostServices.thy ===== *)
theory HostServices
  imports Effects
begin

text \<open>
  The host behind the node service: \<open>pkg/filesystem\<close>, whose \<open>OSFileSystem\<close> delegates to the packages
  \<open>os\<close> and \<open>path/filepath\<close>, and \<open>pkg/mount-manager\<close>, which wraps the mounter of
  \<open>k8s.io/utils/mount\<close>. The operating system and that library are parameters (\<open>osPackage\<close>,
  \<open>mountPackage\<close>); \<open>nodeHost\<close> composes them to the calls the node service makes.
\<close>

subsection \<open>The operating system\<close>

text \<open>The functions of \<open>os\<close> and \<open>path/filepath\<close> the wrappers delegate to; \<open>'f\<close> is \<open>os.File\<close>, \<open>'i\<close> is
  \<open>fs.FileInfo\<close>, \<open>'w\<close> the state of the host. \<open>Open\<close> and \<open>OpenFile\<close> return a pointer, nil on an error.\<close>

record ('f, 'i, 'w) osPackage =
  os_MkdirAll :: "string \<Rightarrow> nat \<Rightarrow> 'w \<Rightarrow> goError option \<times> 'w"
  os_Stat :: "string \<Rightarrow> 'w \<Rightarrow> (goError + 'i) \<times> 'w"
  os_Remove :: "string \<Rightarrow> 'w \<Rightarrow> goError option \<times> 'w"
  os_OpenFile :: "string \<Rightarrow> int \<Rightarrow> nat \<Rightarrow> 'w \<Rightarrow> ('f option \<times> goError option) \<times> 'w"
  os_Open :: "string \<Rightarrow> 'w \<Rightarrow> ('f option \<times> goError option) \<times> 'w"
  filepath_Glob :: "string \<Rightarrow> 'w \<Rightarrow> (goError + string list) \<times> 'w"
  filepath_EvalSymlinks :: "string \<Rightarrow> 'w \<Rightarrow> (goError + string) \<times> 'w"

subsection \<open>The file system interface\<close>

text \<open>A value of the interface \<open>File\<close>: nil, or a pointer with its methods, which may itself be nil.\<close>

datatype 'f File = NilFile | FilePointer "'f option"

record ('f, 'i, 'w) FileSystem =
  fsys_IsNotExist :: "goError \<Rightarrow> bool"
  fsys_MkdirAll :: "string \<Rightarrow> nat \<Rightarrow> 'w \<Rightarrow> goError option \<times> 'w"
  fsys_Stat :: "string \<Rightarrow> 'w \<Rightarrow> (goError + 'i) \<times> 'w"
  fsys_Remove :: "string \<Rightarrow> 'w \<Rightarrow> goError option \<times> 'w"
  fsys_OpenFile :: "string \<Rightarrow> int \<Rightarrow> nat \<Rightarrow> 'w \<Rightarrow> ('f File \<times> goError option) \<times> 'w"
  fsys_Open :: "string \<Rightarrow> 'w \<Rightarrow> ('f File \<times> goError option) \<times> 'w"
  fsys_Glob :: "string \<Rightarrow> 'w \<Rightarrow> (goError + string list) \<times> 'w"
  fsys_EvalSymlinks :: "string \<Rightarrow> 'w \<Rightarrow> (goError + string) \<times> 'w"

text \<open>The pointer that \<open>os.Open\<close> returns becomes the interface value, also when it is nil.\<close>

definition asFile :: "('f option \<times> goError option) \<times> 'w \<Rightarrow> ('f File \<times> goError option) \<times> 'w" where
  "asFile r = (case r of ((pointer, err), w) \<Rightarrow> ((FilePointer pointer, err), w))"

definition OSFileSystem_Glob ::
    "('f, 'i, 'w) osPackage \<Rightarrow> string \<Rightarrow> 'w \<Rightarrow> (goError + string list) \<times> 'w" where
  "OSFileSystem_Glob os pattern = filepath_Glob os pattern"

definition OSFileSystem_EvalSymlinks ::
    "('f, 'i, 'w) osPackage \<Rightarrow> string \<Rightarrow> 'w \<Rightarrow> (goError + string) \<times> 'w" where
  "OSFileSystem_EvalSymlinks os path = filepath_EvalSymlinks os path"

definition OSFileSystem_IsNotExist :: "goError \<Rightarrow> bool" where
  "OSFileSystem_IsNotExist err = osIsNotExist err"

definition OSFileSystem_MkdirAll ::
    "('f, 'i, 'w) osPackage \<Rightarrow> string \<Rightarrow> nat \<Rightarrow> 'w \<Rightarrow> goError option \<times> 'w" where
  "OSFileSystem_MkdirAll os path perm = os_MkdirAll os path perm"

definition OSFileSystem_Stat ::
    "('f, 'i, 'w) osPackage \<Rightarrow> string \<Rightarrow> 'w \<Rightarrow> (goError + 'i) \<times> 'w" where
  "OSFileSystem_Stat os name = os_Stat os name"

definition OSFileSystem_Remove ::
    "('f, 'i, 'w) osPackage \<Rightarrow> string \<Rightarrow> 'w \<Rightarrow> goError option \<times> 'w" where
  "OSFileSystem_Remove os path = os_Remove os path"

definition OSFileSystem_Open ::
    "('f, 'i, 'w) osPackage \<Rightarrow> string \<Rightarrow> 'w \<Rightarrow> ('f File \<times> goError option) \<times> 'w" where
  "OSFileSystem_Open os name w = asFile (os_Open os name w)"

definition OSFileSystem_OpenFile ::
    "('f, 'i, 'w) osPackage \<Rightarrow> string \<Rightarrow> int \<Rightarrow> nat \<Rightarrow> 'w \<Rightarrow> ('f File \<times> goError option) \<times> 'w" where
  "OSFileSystem_OpenFile os name flag perm w = asFile (os_OpenFile os name flag perm w)"

definition NewFileSystem :: "('f, 'i, 'w) osPackage \<Rightarrow> ('f, 'i, 'w) FileSystem" where
  "NewFileSystem os =
     \<lparr>fsys_IsNotExist = OSFileSystem_IsNotExist, fsys_MkdirAll = OSFileSystem_MkdirAll os,
      fsys_Stat = OSFileSystem_Stat os, fsys_Remove = OSFileSystem_Remove os,
      fsys_OpenFile = OSFileSystem_OpenFile os, fsys_Open = OSFileSystem_Open os,
      fsys_Glob = OSFileSystem_Glob os, fsys_EvalSymlinks = OSFileSystem_EvalSymlinks os\<rparr>"

text \<open>The result of a failed \<open>Open\<close> is not the nil interface: comparing it with nil tells nothing.\<close>

lemma failed_open_not_nil:
  "fst (fst (fsys_Open (NewFileSystem os) name w)) \<noteq> NilFile"
  "fst (fst (fsys_OpenFile (NewFileSystem os) name flag perm w)) \<noteq> NilFile"
  by (simp_all add: NewFileSystem_def OSFileSystem_Open_def OSFileSystem_OpenFile_def asFile_def
      split: prod.split)

subsection \<open>The mounter\<close>

text \<open>\<open>mount.MountPoint\<close> as the repository fills it in.\<close>

record MountPoint =
  mp_Device :: string
  mp_Path :: string
  mp_Type :: string
  mp_Opts :: "string list"

text \<open>The interface \<open>mount.Interface\<close> that \<open>Mounter\<close> embeds.\<close>

record 'w Mounter =
  m_Mount :: "string \<Rightarrow> string \<Rightarrow> string \<Rightarrow> string list \<Rightarrow> 'w \<Rightarrow> goError option \<times> 'w"
  m_MountSensitive ::
    "string \<Rightarrow> string \<Rightarrow> string \<Rightarrow> string list \<Rightarrow> string list \<Rightarrow> 'w \<Rightarrow> goError option \<times> 'w"
  m_Unmount :: "string \<Rightarrow> 'w \<Rightarrow> goError option \<times> 'w"
  m_List :: "'w \<Rightarrow> (goError + MountPoint list) \<times> 'w"
  m_IsLikelyNotMountPoint :: "string \<Rightarrow> 'w \<Rightarrow> (bool \<times> goError option) \<times> 'w"
  m_GetMountRefs :: "string \<Rightarrow> 'w \<Rightarrow> (goError + string list) \<times> 'w"

text \<open>\<open>mount.SafeFormatAndMount\<close>: an embedded mounter and an executor, which the driver never uses.\<close>

record ('x, 'w) SafeFormatAndMount =
  sfm_Interface :: "'w Mounter"
  sfm_Exec :: "'x option"

text \<open>The packages \<open>k8s.io/utils/mount\<close> and \<open>k8s.io/utils/exec\<close>: their constructors, and
  \<open>mount.CleanupMountPoint\<close>, which works on any mounter.\<close>

record ('x, 'w) mountPackage =
  mount_New :: "string \<Rightarrow> 'w Mounter"
  exec_New :: 'x
  mount_CleanupMountPoint :: "string \<Rightarrow> 'w Mounter \<Rightarrow> bool \<Rightarrow> 'w \<Rightarrow> goError option \<times> 'w"

definition NewSafeMounter :: "('x, 'w) mountPackage \<Rightarrow> ('x, 'w) SafeFormatAndMount" where
  "NewSafeMounter pkg = \<lparr>sfm_Interface = mount_New pkg '''', sfm_Exec = Some (exec_New pkg)\<rparr>"

subsection \<open>The calls of the node service\<close>

text \<open>\<open>os.FileMode(0o755)\<close>.\<close>

definition rwPermission :: nat where "rwPermission = 7 * 8 * 8 + 5 * 8 + 5"

text \<open>The node service mounts through its \<open>SafeFormatAndMount\<close>, hands the same mounter to
  \<open>mount.CleanupMountPoint\<close> and makes directories through \<open>filesystem.NewFileSystem()\<close>.\<close>

definition nodeHost ::
    "('x, 'w) SafeFormatAndMount \<Rightarrow> ('x, 'w) mountPackage \<Rightarrow> ('f, 'i, 'w) FileSystem
       \<Rightarrow> (string \<Rightarrow> 'w \<Rightarrow> (goError + Statfs) \<times> 'w) \<Rightarrow> 'w Host" where
  "nodeHost mounter pkg fs unixStatfs =
     \<lparr>h_IsLikelyNotMountPoint = m_IsLikelyNotMountPoint (sfm_Interface mounter),
      h_Mount = m_Mount (sfm_Interface mounter),
      h_CleanupMountPoint = (\<lambda>path. mount_CleanupMountPoint pkg path (sfm_Interface mounter)),
      h_MkdirAll = (\<lambda>path. fsys_MkdirAll fs path rwPermission),
      h_Statfs = unixStatfs\<rparr>"

end
