(* ===== verification/GoFilepath.thy ===== *)
theory GoFilepath
  imports GoStrings
begin

text \<open>
  \<open>filepath.Clean\<close> of Go's standard library on Unix: the shortest path with the same meaning, by
  lexical processing alone. The elements are read from the left onto a stack: empty and \<open>.\<close> elements
  are dropped, \<open>..\<close> takes the element before it away; it stays at the front of a relative path and
  disappears at the root. A cleaned path is clean.
\<close>

subsection \<open>Cleaning\<close>

fun cleanElement :: "bool \<Rightarrow> string \<Rightarrow> string list \<Rightarrow> string list" where
  "cleanElement rooted x stack =
     (if x = [] \<or> x = ''.'' then stack
      else if x = ''..'' then
        (case stack of
           [] \<Rightarrow> if rooted then [] else [''..'']
         | y # ys \<Rightarrow> if y = ''..'' then ''..'' # stack else ys)
      else x # stack)"

declare cleanElement.simps [simp del]

definition cleanElements :: "bool \<Rightarrow> string list \<Rightarrow> string list" where
  "cleanElements rooted xs = rev (fold (cleanElement rooted) xs [])"

definition rootedPath :: "string \<Rightarrow> bool" where
  "rootedPath path \<longleftrightarrow> prefix ''/'' path"

definition Clean :: "string \<Rightarrow> string" where
  "Clean path =
     (let rooted = rootedPath path; body = joinStr ''/'' (cleanElements rooted (splitByte CHR ''/'' path)) in
      if rooted then CHR ''/'' # body else if body = [] then ''.'' else body)"

subsection \<open>A cleaned path is clean\<close>

text \<open>What the stack holds: proper elements, below them the leading \<open>..\<close> of a relative path.\<close>

definition properElement :: "string \<Rightarrow> bool" where
  "properElement x \<longleftrightarrow> x \<notin> {[], ''.'', ''..''} \<and> CHR ''/'' \<notin> set x"

fun cleanStack :: "bool \<Rightarrow> string list \<Rightarrow> bool" where
  "cleanStack rooted [] \<longleftrightarrow> True"
| "cleanStack rooted (x # xs) \<longleftrightarrow>
     cleanStack rooted xs \<and> (properElement x \<or> \<not> rooted \<and> x = ''..'' \<and> set xs \<subseteq> {''..''})"

lemma cleanStack_element:
  "cleanStack rooted xs \<Longrightarrow> CHR ''/'' \<notin> set x \<Longrightarrow> cleanStack rooted (cleanElement rooted x xs)"
  by (auto simp: cleanElement.simps properElement_def split: list.split)

lemma cleanStack_fold:
  "cleanStack rooted stack \<Longrightarrow> \<forall>x \<in> set xs. CHR ''/'' \<notin> set x \<Longrightarrow>
     cleanStack rooted (fold (cleanElement rooted) xs stack)"
  by (induction xs arbitrary: stack) (auto intro: cleanStack_element)

lemma cleanStack_below: "cleanStack rooted (xs @ ys) \<Longrightarrow> cleanStack rooted ys"
  by (induction xs) auto

lemma cleanStack_elements: "cleanStack rooted xs \<Longrightarrow> x \<in> set xs \<Longrightarrow> x \<noteq> [] \<and> CHR ''/'' \<notin> set x \<and> x \<noteq> ''.''"
  by (induction xs) (auto simp: properElement_def)

text \<open>Reading a clean stack again pushes it element by element.\<close>

lemma cleanStack_read:
  "cleanStack rooted (rev xs @ stack) \<Longrightarrow> fold (cleanElement rooted) xs stack = rev xs @ stack"
proof (induction xs arbitrary: stack)
  case (Cons x xs)
  have "cleanStack rooted (x # stack)"
    using cleanStack_below [of rooted "rev xs" "x # stack"] Cons.prems by simp
  then have "cleanElement rooted x stack = x # stack"
    by (auto simp: cleanElement.simps properElement_def split: list.split)
  with Cons show ?case by simp
qed simp

lemma cleanElements_stack: "cleanStack rooted (rev (cleanElements rooted (splitByte CHR ''/'' path)))"
  by (auto simp: cleanElements_def intro!: cleanStack_fold dest: splitByte_parts)

lemma cleanElements_again: "cleanStack rooted (rev xs) \<Longrightarrow> cleanElements rooted xs = xs"
  using cleanStack_read [of rooted xs "[]"] by (simp add: cleanElements_def)

lemma split_body:
  assumes "cleanStack rooted (rev xs)"
  shows "cleanElements r (splitByte CHR ''/'' (joinStr ''/'' xs)) = cleanElements r xs"
proof (cases "xs = []")
  case True
  then show ?thesis by (simp add: cleanElements_def cleanElement.simps)
next
  case False
  moreover have "\<forall>x \<in> set xs. CHR ''/'' \<notin> set x"
    using cleanStack_elements [OF assms] by simp
  ultimately show ?thesis by (simp add: split_join)
qed

lemma joinStr_rooted:
  "xs \<noteq> [] \<Longrightarrow> hd xs \<noteq> [] \<Longrightarrow> joinStr sep xs \<noteq> [] \<and> hd (joinStr sep xs) = hd (hd xs)"
  by (induction sep xs rule: joinStr.induct) auto

lemma Clean_body:
  assumes "cleanStack rooted (rev xs)"
  shows "Clean (if rooted then CHR ''/'' # joinStr ''/'' xs else if joinStr ''/'' xs = [] then ''.'' else joinStr ''/'' xs)
    = (if rooted then CHR ''/'' # joinStr ''/'' xs else if joinStr ''/'' xs = [] then ''.'' else joinStr ''/'' xs)"
proof (cases rooted)
  case True
  have "cleanElements True (splitByte CHR ''/'' (CHR ''/'' # joinStr ''/'' xs)) = cleanElements True (splitByte CHR ''/'' (joinStr ''/'' xs))"
    by (simp add: cleanElements_def cleanElement.simps)
  also have "\<dots> = xs" using split_body [OF assms] cleanElements_again [OF assms] True by simp
  finally show ?thesis using True by (simp add: Clean_def rootedPath_def)
next
  case False
  show ?thesis
  proof (cases "xs = []")
    case True
    have "Clean ''.'' = ''.''" by code_simp
    with True False show ?thesis by simp
  next
    case ne: False
    then have "hd xs \<in> set (rev xs)" by simp
    from cleanStack_elements [OF assms this] have hd: "hd xs \<noteq> []" "CHR ''/'' \<notin> set (hd xs)" by auto
    with joinStr_rooted [OF ne, of "''/''"] have "\<not> rootedPath (joinStr ''/'' xs)"
      by (cases "joinStr ''/'' xs") (auto simp: rootedPath_def hd_in_set)
    with split_body [OF assms] cleanElements_again [OF assms] False joinStr_rooted [OF ne hd(1)]
    show ?thesis by (simp add: Clean_def)
  qed
qed

lemma Clean_idem [simp]: "Clean (Clean path) = Clean path"
  unfolding Clean_def [of path] Let_def by (rule Clean_body) (rule cleanElements_stack)

lemma Clean_not_Nil [simp]: "Clean path \<noteq> []"
  by (simp add: Clean_def Let_def)

end
