(* ===== verification/FakeMounter.thy ===== *)
theory FakeMounter
  imports HostServices GoFilepath "HOL-Library.AList" "HOL-Library.List_Lexorder" "HOL-Library.Char_ord"
begin

text \<open>
  The mounter of the sanity suite, \<open>tests/sanity/fake_sanity_mounter.go\<close>: a table of mounts by cleaned
  target path over the directories of the host. Go strings are ordered bytewise, as
  \<open>sort.Strings\<close> orders them. Every method holds the mutex while it uses the table, so each is one
  atomic step. \<open>mountRoot\<close> follows the sources from mount to mount; a source may lead back to a path
  it has visited, where it stops.
\<close>

record fakeSanityMount =
  fsm_source :: string
  fsm_fstype :: string
  fsm_options :: "string list"

record fakeSanityMounter =
  fm_mounts :: "(string \<times> fakeSanityMount) list"

definition newFakeSanityMounter :: fakeSanityMounter where
  "newFakeSanityMounter = \<lparr>fm_mounts = []\<rparr>"

subsection \<open>Mounting\<close>

text \<open>The loop compares elements at equal positions, after the lengths.\<close>

definition equalMountOptions :: "string list \<Rightarrow> string list \<Rightarrow> bool" where
  "equalMountOptions left right \<longleftrightarrow>
     length left = length right \<and> list_all2 (=) left right"

text \<open>The world of a host extends the mounter, so that the methods act on it as on their receiver.\<close>

type_synonym ('d, 'r) fakeMethod = "'d fakeSanityMounter_scheme \<Rightarrow> 'r \<times> 'd fakeSanityMounter_scheme"

definition optionsArg :: "string list \<Rightarrow> fmtArg" where
  "optionsArg options = AStr (''['' @ joinStr '' '' options @ '']'')"

definition alreadyMounted :: "string \<Rightarrow> fakeSanityMount \<Rightarrow> fakeSanityMount \<Rightarrow> goError" where
  "alreadyMounted target existing requested =
     Errorf ''mount target %q is already mounted from %q as %q with options %v; cannot mount from %q as %q with options %v''
       [AStr target, AStr (fsm_source existing), AStr (fsm_fstype existing),
        optionsArg (fsm_options existing), AStr (fsm_source requested), AStr (fsm_fstype requested),
        optionsArg (fsm_options requested)]"

definition fake_mount ::
    "('f, 'i, 'd fakeSanityMounter_scheme) osPackage \<Rightarrow> string \<Rightarrow> string \<Rightarrow> string \<Rightarrow> string list
       \<Rightarrow> ('d, goError option) fakeMethod" where
  "fake_mount os source target fstype options w =
     (if target = [] then (Some (Errorf ''mount target is required'' []), w)
      else
        let target = Clean target in
        (case os_MkdirAll os target (7 * 8 * 8 + 5 * 8) w of
           (Some err, w') \<Rightarrow> (Some (Wrapf ''create mount target %q: %w'' [AStr target] err), w')
         | (None, w') \<Rightarrow>
             let requested = \<lparr>fsm_source = source, fsm_fstype = fstype, fsm_options = options\<rparr> in
             (case map_of (fm_mounts w') target of
                Some existing \<Rightarrow>
                  if fsm_source existing = fsm_source requested
                     \<and> fsm_fstype existing = fsm_fstype requested
                     \<and> equalMountOptions (fsm_options existing) (fsm_options requested)
                  then (None, w')
                  else (Some (alreadyMounted target existing requested), w')
              | None \<Rightarrow>
                  (None, w'\<lparr>fm_mounts := AList.update target requested (fm_mounts w')\<rparr>))))"

definition fake_Mount ::
    "('f, 'i, 'd fakeSanityMounter_scheme) osPackage \<Rightarrow> string \<Rightarrow> string \<Rightarrow> string \<Rightarrow> string list
       \<Rightarrow> ('d, goError option) fakeMethod" where
  "fake_Mount os source target fstype options w = fake_mount os source target fstype options w"

definition fake_MountSensitive ::
    "('f, 'i, 'd fakeSanityMounter_scheme) osPackage \<Rightarrow> string \<Rightarrow> string \<Rightarrow> string \<Rightarrow> string list
       \<Rightarrow> string list \<Rightarrow> ('d, goError option) fakeMethod" where
  "fake_MountSensitive os source target fstype options sensitiveOptions w =
     fake_mount os source target fstype (options @ sensitiveOptions) w"

definition fake_Unmount :: "string \<Rightarrow> ('d, goError option) fakeMethod" where
  "fake_Unmount target w =
     (if target = [] then (Some (Errorf ''unmount target is required'' []), w)
      else (None, w\<lparr>fm_mounts := AList.delete (Clean target) (fm_mounts w)\<rparr>))"

subsection \<open>Queries\<close>

text \<open>The keys of the table, sorted.\<close>

definition mountPaths :: "'d fakeSanityMounter_scheme \<Rightarrow> string list" where
  "mountPaths w = sort (remdups (map fst (fm_mounts w)))"

definition fake_List :: "('d, goError + MountPoint list) fakeMethod" where
  "fake_List w =
     (Inr (map (\<lambda>path. let mounted = the (map_of (fm_mounts w) path) in
              \<lparr>mp_Device = fsm_source mounted, mp_Path = path, mp_Type = fsm_fstype mounted,
               mp_Opts = fsm_options mounted\<rparr>)
            (mountPaths w)), w)"

definition fake_IsLikelyNotMountPoint ::
    "('f, 'i, 'd fakeSanityMounter_scheme) osPackage \<Rightarrow> string
       \<Rightarrow> ('d, bool \<times> goError option) fakeMethod" where
  "fake_IsLikelyNotMountPoint os path w =
     (if path = [] then ((True, Some (SysError ErrNotExist path)), w)
      else if map_of (fm_mounts w) (Clean path) \<noteq> None then ((False, None), w)
      else (case os_Stat os path w of
          (Inl err, w') \<Rightarrow>
            if osIsNotExist err then ((True, Some err), w')
            else ((True, Some (Wrapf ''stat mount point %q: %w'' [AStr path] err)), w')
        | (Inr info, w') \<Rightarrow> ((True, None), w')))"

text \<open>The loop of \<open>mountRoot\<close> with the set of the visited paths: each iteration visits a new path of the
  table.\<close>

function mountRootFrom :: "(string \<times> fakeSanityMount) list \<Rightarrow> string list \<Rightarrow> string \<Rightarrow> string" where
  "mountRootFrom ms visited path =
     (if path \<in> set visited then path
      else (case map_of ms path of
              None \<Rightarrow> path
            | Some mounted \<Rightarrow> mountRootFrom ms (path # visited) (fsm_source mounted)))"
  by pat_completeness auto

lemma unvisited_less:
  assumes "path \<notin> set visited" and "map_of ms path = Some m"
  shows "card (fst ` set ms - insert path (set visited)) < card (fst ` set ms - set visited)"
proof (rule psubset_card_mono)
  from assms have "path \<in> fst ` set ms - set visited" by (force dest: map_of_SomeD)
  then show "fst ` set ms - insert path (set visited) \<subset> fst ` set ms - set visited" by auto
qed simp

termination mountRootFrom
  by (relation "measure (\<lambda>(ms, visited, path). card (fst ` set ms - set visited))")
    (auto intro: unvisited_less)

declare mountRootFrom.simps [simp del]

definition mountRoot :: "'d fakeSanityMounter_scheme \<Rightarrow> string \<Rightarrow> string" where
  "mountRoot w path = mountRootFrom (fm_mounts w) [] path"

definition fake_GetMountRefs :: "string \<Rightarrow> ('d, goError + string list) fakeMethod" where
  "fake_GetMountRefs path w =
     (let cleanPath = Clean path; root = mountRoot w cleanPath in
      (Inr (filter (\<lambda>target. target \<noteq> cleanPath \<and> mountRoot w target = root) (mountPaths w)), w))"

text \<open>The mounter as a \<open>mount.Interface\<close>, and the \<open>SafeFormatAndMount\<close> of the suite.\<close>

definition fakeMounterInterface ::
    "('f, 'i, 'd fakeSanityMounter_scheme) osPackage \<Rightarrow> 'd fakeSanityMounter_scheme Mounter" where
  "fakeMounterInterface os =
     \<lparr>m_Mount = fake_Mount os, m_MountSensitive = fake_MountSensitive os, m_Unmount = fake_Unmount,
      m_List = fake_List, m_IsLikelyNotMountPoint = fake_IsLikelyNotMountPoint os,
      m_GetMountRefs = fake_GetMountRefs\<rparr>"

definition newFakeSanitySafeMounter :: "'w Mounter \<Rightarrow> ('x, 'w) SafeFormatAndMount" where
  "newFakeSanitySafeMounter mounter = \<lparr>sfm_Interface = mounter, sfm_Exec = None\<rparr>"

subsection \<open>The table of mounts\<close>

definition fakeTable :: "'d fakeSanityMounter_scheme \<Rightarrow> string \<Rightarrow> (string \<times> string \<times> string list) option" where
  "fakeTable w path =
     map_option (\<lambda>m. (fsm_source m, fsm_fstype m, fsm_options m)) (map_of (fm_mounts w) path)"

lemma equalMountOptions_iff [simp]: "equalMountOptions xs ys \<longleftrightarrow> xs = ys"
  by (auto simp: equalMountOptions_def list.rel_eq)

lemma mountPaths_set [simp]: "set (mountPaths w) = fst ` set (fm_mounts w)"
  by (simp add: mountPaths_def)

text \<open>A mount that succeeds is in the table afterwards, under the cleaned target; one that fails leaves
  the table alone.\<close>

lemma fake_mount_table:
  assumes "fake_Mount os source target fstype options w = (r, w')"
    and "\<And>p perm w r w'. os_MkdirAll os p perm w = (r, w') \<Longrightarrow> fm_mounts w' = fm_mounts w"
  shows "fakeTable w' = (case r of
      None \<Rightarrow> (fakeTable w)(Clean target \<mapsto> (source, fstype, options)) | Some e \<Rightarrow> fakeTable w)"
proof (cases "target = []")
  case True
  with assms(1) show ?thesis by (auto simp: fake_Mount_def fake_mount_def)
next
  case False
  obtain r1 w1 where mk: "os_MkdirAll os (Clean target) (7 * 8 * 8 + 5 * 8) w = (r1, w1)" by fastforce
  have w1: "fakeTable w1 = fakeTable w"
    using assms(2) [OF mk] by (simp add: fakeTable_def fun_eq_iff)
  note run = assms(1) [unfolded fake_Mount_def fake_mount_def Let_def mk]
  show ?thesis
  proof (cases r1)
    case (Some err)
    with run False w1 show ?thesis by auto
  next
    case None
    show ?thesis
    proof (cases "map_of (fm_mounts w1) (Clean target)")
      case (Some m)
      then have "fakeTable w1 (Clean target) = Some (fsm_source m, fsm_fstype m, fsm_options m)"
        by (simp add: fakeTable_def)
      with run False None Some w1 [symmetric] show ?thesis by (auto split: if_splits)
    next
      case new: None
      have "w' = w1\<lparr>fm_mounts := AList.update (Clean target)
          \<lparr>fsm_source = source, fsm_fstype = fstype, fsm_options = options\<rparr> (fm_mounts w1)\<rparr>" "r = None"
        using run False None new by auto
      then show ?thesis unfolding w1 [symmetric] by (auto simp: fakeTable_def fun_eq_iff update_conv')
    qed
  qed
qed

lemma fake_unmount_table:
  "target \<noteq> [] \<Longrightarrow> fakeTable (snd (fake_Unmount target w)) = (fakeTable w)(Clean target := None)"
  by (auto simp: fake_Unmount_def fakeTable_def fun_eq_iff delete_conv')

lemma fake_likely_table:
  assumes "fake_IsLikelyNotMountPoint os p w = ((b, e), w')"
    and "\<And>p w r w'. os_Stat os p w = (r, w') \<Longrightarrow> fm_mounts w' = fm_mounts w"
  shows "fakeTable w' = fakeTable w \<and> (b \<or> fakeTable w (Clean p) \<noteq> None)"
  using assms(1)
  by (auto simp: fake_IsLikelyNotMountPoint_def fakeTable_def fun_eq_iff
      dest!: assms(2) split: if_splits prod.splits sum.splits)

subsection \<open>Following the sources\<close>

definition mountEdge :: "'d fakeSanityMounter_scheme \<Rightarrow> string \<Rightarrow> string \<Rightarrow> bool" where
  "mountEdge w p q \<longleftrightarrow> (\<exists>m. map_of (fm_mounts w) p = Some m \<and> q = fsm_source m)"

lemma mountEdge_fun: "mountEdge w p q \<Longrightarrow> mountEdge w p q' \<Longrightarrow> q = q'"
  by (auto simp: mountEdge_def)

text \<open>On a cycle of mounts every path reached is on a cycle, so no chain leaves it.\<close>

lemma cycle_stays:
  assumes "(mountEdge w)\<^sup>*\<^sup>* p q" and "(mountEdge w)\<^sup>+\<^sup>+ p p"
  shows "(mountEdge w)\<^sup>+\<^sup>+ q q"
  using assms
proof (induction rule: rtranclp_induct)
  case (step y z)
  then have "(mountEdge w)\<^sup>+\<^sup>+ y y" by simp
  then obtain z' where z': "mountEdge w y z'" "(mountEdge w)\<^sup>*\<^sup>* z' y" by (meson tranclpD)
  with step(2) mountEdge_fun have "z' = z" by metis
  with z' step(2) show ?case by (metis rtranclp_into_tranclp1)
qed

lemma unmounted_edge: "fakeTable w p = None \<longleftrightarrow> (\<nexists>q. mountEdge w p q)"
  by (auto simp: fakeTable_def mountEdge_def)

lemma cycle_mounted: "(mountEdge w)\<^sup>+\<^sup>+ p p \<Longrightarrow> fakeTable w p \<noteq> None"
  unfolding unmounted_edge by (meson tranclpD)

lemma mountRootFrom_reaches:
  assumes "\<forall>v \<in> set visited. (mountEdge w)\<^sup>+\<^sup>+ v path"
  shows "(mountEdge w)\<^sup>*\<^sup>* path (mountRootFrom (fm_mounts w) visited path) \<and>
    (fakeTable w (mountRootFrom (fm_mounts w) visited path) = None \<or>
     (mountEdge w)\<^sup>+\<^sup>+ (mountRootFrom (fm_mounts w) visited path) (mountRootFrom (fm_mounts w) visited path))"
  using assms
proof (induction "fm_mounts w" visited path rule: mountRootFrom.induct)
  case (1 visited path)
  show ?case
  proof (cases "path \<in> set visited")
    case True
    with 1(2) show ?thesis by (subst (1 2 3 4) mountRootFrom.simps) simp
  next
    case False
    note new = False
    show ?thesis
    proof (cases "map_of (fm_mounts w) path")
      case None
      with new show ?thesis by (subst (1 2 3 4) mountRootFrom.simps) (simp add: fakeTable_def)
    next
      case (Some m)
      then have edge: "mountEdge w path (fsm_source m)" by (simp add: mountEdge_def)
      with 1(2) have "\<forall>v \<in> set (path # visited). (mountEdge w)\<^sup>+\<^sup>+ v (fsm_source m)"
        by (auto intro: tranclp.trancl_into_trancl)
      moreover have "mountRootFrom (fm_mounts w) visited path = mountRootFrom (fm_mounts w) (path # visited) (fsm_source m)"
        using new Some by (subst mountRootFrom.simps) simp
      ultimately show ?thesis
        using 1(1) [OF new Some] edge by (simp add: converse_rtranclp_into_rtranclp)
    qed
  qed
qed

lemma mountRoot_reaches:
  "(mountEdge w)\<^sup>*\<^sup>* path (mountRoot w path) \<and>
   (fakeTable w (mountRoot w path) = None \<or> (mountEdge w)\<^sup>+\<^sup>+ (mountRoot w path) (mountRoot w path))"
  unfolding mountRoot_def by (rule mountRootFrom_reaches) simp

text \<open>The sources of a path are a chain: of two of them one is reached from the other.\<close>

lemma edge_chain:
  assumes "(mountEdge w)\<^sup>*\<^sup>* p q" and "(mountEdge w)\<^sup>*\<^sup>* p r"
  shows "(mountEdge w)\<^sup>*\<^sup>* q r \<or> (mountEdge w)\<^sup>*\<^sup>* r q"
  using assms
proof (induction rule: rtranclp_induct)
  case (step y z)
  then show ?case
    by (metis converse_rtranclpE mountEdge_fun rtranclp.rtrancl_into_rtrancl)
qed simp

lemma mountRoot_final:
  "mountRoot w path = s \<and> fakeTable w s = None \<longleftrightarrow> (mountEdge w)\<^sup>*\<^sup>* path s \<and> fakeTable w s = None"
proof
  assume "mountRoot w path = s \<and> fakeTable w s = None"
  with mountRoot_reaches [of w path] show "(mountEdge w)\<^sup>*\<^sup>* path s \<and> fakeTable w s = None" by auto
next
  assume s: "(mountEdge w)\<^sup>*\<^sup>* path s \<and> fakeTable w s = None"
  let ?r = "mountRoot w path"
  have "\<not> (mountEdge w)\<^sup>+\<^sup>+ ?r ?r"
  proof
    assume c: "(mountEdge w)\<^sup>+\<^sup>+ ?r ?r"
    from edge_chain [OF conjunct1 [OF s] conjunct1 [OF mountRoot_reaches]]
    have "(mountEdge w)\<^sup>*\<^sup>* ?r s" using s unmounted_edge [of w s] c by (metis converse_rtranclpE rtranclp.rtrancl_refl)
    from cycle_mounted [OF cycle_stays [OF this c]] s show False by simp
  qed
  with mountRoot_reaches [of w path] have r: "(mountEdge w)\<^sup>*\<^sup>* path ?r" "fakeTable w ?r = None" by auto
  from edge_chain [OF conjunct1 [OF s] r(1)] s r(2) have "?r = s"
    by (metis converse_rtranclpE unmounted_edge)
  with s show "?r = s \<and> fakeTable w s = None" by simp
qed

end
