(* ===== verification/SanityBackend.thy ===== *)
theory SanityBackend
  imports PolicyFacts FakeMounter
begin

text \<open>
  The in-memory backend of \<open>tests/sanity/fake_sanity_linode_client.go\<close> with the metadata fakes of
  \<open>tests/sanity/fake_sanity_metadata.go\<close>: an executable implementation of the interfaces
  \<open>LinodeClient\<close>, \<open>KubeNodeClient\<close> and \<open>InstanceMetadataClient\<close>, which documents the API behaviour the
  driver relies on. It discharges the contracts of the library (\<open>policy_store\<close>, \<open>linodego_api\<close>) and is the
  environment the witnesses run in. Go maps are association lists; clones of values are the values.
\<close>

definition fakeSanitySpaceID :: int where "fakeSanitySpaceID = 1"
definition fakeSanityFilesystemStartID :: int where "fakeSanityFilesystemStartID = 10000"
definition sanityNodeID :: int where "sanityNodeID = 123"
definition sanityRegion :: string where "sanityRegion = ''us-east''"

text \<open>The backend shares its world with the host of the suite: the mounter, which it extends, and the
  directories that exist, as clean paths.\<close>

record SanityWorld = fakeSanityMounter +
  sw_space :: NFSSpace
  sw_spacePolicy :: NFSSpaceAccessPolicy
  sw_filesystems :: "(int \<times> NFSFilesystem) list"
  sw_filesystemByName :: "(string \<times> int) list"
  sw_filesystemPolicy :: "(int \<times> NFSFilesystemAccessPolicy) list"
  sw_nextFilesystemID :: int
  sw_quotas :: "(int \<times> NFSQuota) list"
  sw_nextQuotaID :: int
  sw_dirs :: "string list"

definition newFakeSanityLinodeClient :: SanityWorld where
  "newFakeSanityLinodeClient =
     \<lparr>fm_mounts = [],
      sw_space = \<lparr>space_ID = fakeSanitySpaceID, space_Label = ''sanity-space''\<rparr>,
      sw_spacePolicy = \<lparr>sp_MTLSMode = ''disabled''\<rparr>,
      sw_filesystems = [], sw_filesystemByName = [], sw_filesystemPolicy = [],
      sw_nextFilesystemID = fakeSanityFilesystemStartID, sw_quotas = [], sw_nextQuotaID = 20000,
      sw_dirs = []\<rparr>"

subsection \<open>Errors\<close>

text \<open>The messages are kept as the unrendered format.\<close>

definition fakeSanityNotFound :: "string \<Rightarrow> int \<Rightarrow> goError" where
  "fakeSanityNotFound resource i = LinodeAPIError 404 (resource @ '' '' @ Itoa i @ '' not found'')"

definition fakeSanityConflict :: "string \<Rightarrow> goError" where
  "fakeSanityConflict f = LinodeAPIError 409 f"

definition fakeSanityInvalid :: "string \<Rightarrow> goError" where
  "fakeSanityInvalid f = LinodeAPIError 400 f"

subsection \<open>The linodego package of the witnesses\<close>

text \<open>The error predicates look at the code of a Linode API error; a filter is the flat JSON object
  of its fields, with quotes and backslashes escaped, and \<open>parseFlatJSON\<close> reads it back.\<close>

definition quoteChar :: char where "quoteChar = byte 34"
definition backslash :: char where "backslash = byte 92"

fun jsonEscape :: "string \<Rightarrow> string" where
  "jsonEscape [] = []"
| "jsonEscape (c # cs) =
     (if c = quoteChar \<or> c = backslash then backslash # c # jsonEscape cs else c # jsonEscape cs)"

definition jsonQuote :: "string \<Rightarrow> string" where
  "jsonQuote s = quoteChar # jsonEscape s @ [quoteChar]"

definition flatJSON :: "(string \<times> string) list \<Rightarrow> string" where
  "flatJSON kvs = ''{'' @ joinStr '','' (map (\<lambda>(k, v). jsonQuote k @ '':'' @ jsonQuote v) kvs) @ ''}''"

text \<open>The rest of a quoted string: its unescaped content and what follows the closing quote.\<close>

fun readString :: "string \<Rightarrow> (string \<times> string) option" where
  "readString [] = None"
| "readString (c # cs) =
     (if c = quoteChar then Some ([], cs)
      else if c = backslash then
        (case cs of [] \<Rightarrow> None | d # ds \<Rightarrow> map_option (apfst ((#) d)) (readString ds))
      else map_option (apfst ((#) c)) (readString cs))"

text \<open>The pairs of an object; the fuel bounds their number.\<close>

fun readPairs :: "nat \<Rightarrow> string \<Rightarrow> (string \<times> string) list option" where
  "readPairs 0 s = None"
| "readPairs (Suc n) s =
     (case s of
        [] \<Rightarrow> None
      | q # s1 \<Rightarrow>
          if q \<noteq> quoteChar then None
          else (case readString s1 of
              Some (k, c # q' # s2) \<Rightarrow>
                if c \<noteq> CHR '':'' \<or> q' \<noteq> quoteChar then None
                else (case readString s2 of
                    Some (v, e # s3) \<Rightarrow>
                      if e = CHR ''}'' \<and> s3 = [] then Some [(k, v)]
                      else if e = CHR '','' then map_option ((#) (k, v)) (readPairs n s3)
                      else None
                  | _ \<Rightarrow> None)
            | _ \<Rightarrow> None))"

definition parseFlatJSON :: "string \<Rightarrow> (string \<times> string) list option" where
  "parseFlatJSON s =
     (case s of
        c # cs \<Rightarrow> if c \<noteq> CHR ''{'' then None
                  else if cs = ''}'' then Some [] else readPairs (length cs) cs
      | [] \<Rightarrow> None)"

lemma backslash_quote [simp]: "backslash \<noteq> quoteChar" "quoteChar \<noteq> backslash"
  by (simp_all add: backslash_def quoteChar_def byte_inj)

lemma readString_escape [simp]: "readString (jsonEscape s @ quoteChar # rest) = Some (s, rest)"
  by (induction s) auto

lemma parse_flat2:
  "parseFlatJSON (flatJSON [(k, v), (k', v')]) = Some [(k, v), (k', v')]"
  by (simp add: parseFlatJSON_def flatJSON_def jsonQuote_def numeral_2_eq_2)

lemma parse_flat1: "parseFlatJSON (flatJSON [(k, v)]) = Some [(k, v)]"
  by (simp add: parseFlatJSON_def flatJSON_def jsonQuote_def)

fun apiStatus :: "goError \<Rightarrow> int option" where
  "apiStatus (LinodeAPIError c _) = Some c"
| "apiStatus (Wrapf _ _ e) = apiStatus e"
| "apiStatus _ = None"

definition sanityLinodego :: linodego where
  "sanityLinodego =
     \<lparr>IsNotFound = (\<lambda>e. apiStatus e = Some 404),
      ErrHasStatus = (\<lambda>e cs. \<exists>c \<in> set cs. apiStatus e = Some c),
      FilterJSON = (\<lambda>kvs. Inr (flatJSON kvs))\<rparr>"

interpretation sanity_linodego: linodego_api sanityLinodego
  by unfold_locales (auto simp: sanityLinodego_def)

subsection \<open>Validation\<close>

definition requireSpaceLocked :: "SanityWorld \<Rightarrow> int \<Rightarrow> goError + unit" where
  "requireSpaceLocked w spaceID =
     (if spaceID \<noteq> space_ID (sw_space w) then Inl (fakeSanityNotFound ''NFS space'' spaceID)
      else Inr ())"

definition filesystemLocked :: "SanityWorld \<Rightarrow> int \<Rightarrow> int \<Rightarrow> goError + NFSFilesystem" where
  "filesystemLocked w spaceID filesystemID =
     bindR (requireSpaceLocked w spaceID) (\<lambda>_.
       case map_of (sw_filesystems w) filesystemID of
         None \<Rightarrow> Inl (fakeSanityNotFound ''NFS filesystem'' filesystemID)
       | Some f \<Rightarrow> Inr f)"

definition validateSanityFilesystemCreate :: "NFSFilesystemCreateOptions \<Rightarrow> goError + unit" where
  "validateSanityFilesystemCreate opts =
     (if cr_Label opts = [] then Inl (fakeSanityInvalid ''NFS filesystem label is required'')
      else if cr_Region opts \<noteq> sanityRegion then
        Inl (fakeSanityInvalid ''NFS filesystem region must be %q'')
      else if cr_ProtocolVersions opts \<noteq> Some [NFSProtocolVersionV4] then
        Inl (fakeSanityInvalid ''NFS filesystem protocol_versions must be [nfsv4]'')
      else Inr ())"

fun checkLinodeIDs :: "int list \<Rightarrow> int list \<Rightarrow> goError + unit" where
  "checkLinodeIDs seen [] = Inr ()"
| "checkLinodeIDs seen (i # is) =
     (if i \<le> 0 then Inl (fakeSanityInvalid ''Linode ID must be positive'')
      else if i \<in> set seen then
        Inl (fakeSanityInvalid ''Linode ID %d is specified more than once'')
      else checkLinodeIDs (i # seen) is)"

definition validateSanityFilesystemPolicy ::
    "NFSFilesystemAccessPolicyUpdateOptions \<Rightarrow> goError + unit" where
  "validateSanityFilesystemPolicy opts =
     bindR (case up_LinodeIDs opts of None \<Rightarrow> Inr () | Some ids \<Rightarrow> checkLinodeIDs [] (elems ids)) (\<lambda>_.
     bindR (case up_SquashPolicy opts of
              None \<Rightarrow> Inr ()
            | Some p \<Rightarrow>
                if p \<in> {NFSSquashPolicyNone, NFSSquashPolicyRootSquash, NFSSquashPolicyAllSquash}
                then Inr ()
                else Inl (fakeSanityInvalid ''invalid NFS filesystem squash policy %q'')) (\<lambda>_.
     (case up_Protocols opts of
        None \<Rightarrow> Inr ()
      | Some ps \<Rightarrow>
          if elems ps \<noteq> [NFSProtocolVersionV4] then
            Inl (fakeSanityInvalid ''NFS filesystem access policy protocols must be [nfsv4]'')
          else Inr ())))"

subsection \<open>Values\<close>

definition newSanityFilesystem ::
    "int \<Rightarrow> int \<Rightarrow> NFSFilesystemCreateOptions \<Rightarrow> NFSFilesystem" where
  "newSanityFilesystem i spaceID opts =
     \<lparr>fs_ID = i, fs_SpaceID = spaceID, fs_Label = cr_Label opts, fs_Region = cr_Region opts,
      fs_MaxCapacityBytes = cr_MaxCapacityBytes opts,
      fs_ProtocolVersions = (case cr_ProtocolVersions opts of None \<Rightarrow> [] | Some ps \<Rightarrow> ps),
      fs_Status = NFSFilesystemStatusActive, fs_MountTargetIPs = [], fs_MountTargetFQDN = None,
      fs_SourceSnapshotID = None,
      fs_Tags = (case cr_Tags opts of None \<Rightarrow> [] | Some ts \<Rightarrow> elems ts)\<rparr>"

definition hexInt :: "int \<Rightarrow> string" where
  "hexInt i = (if i < 0 then ''-'' @ hexDigits (nat (- i)) else hexDigits (nat i))"

definition activateSanityFilesystem :: "NFSFilesystem \<Rightarrow> NFSFilesystem" where
  "activateSanityFilesystem f =
     (let mountPath = ''/'' @ fs_Label f @ ''-'' @ hexInt (fs_ID f) in
      f\<lparr>fs_Status := NFSFilesystemStatusActive,
        fs_MountTargetIPs := [''[2001:db8::'' @ hexInt (fs_ID f) @ '']:'' @ mountPath],
        fs_MountTargetFQDN := Some (''sanity-space-'' @ hexInt (fs_SpaceID f) @ ''.nfs.''
           @ fs_Region f @ ''.linode.com:'' @ mountPath)\<rparr>)"

definition deactivateSanityFilesystem :: "NFSFilesystem \<Rightarrow> NFSFilesystem" where
  "deactivateSanityFilesystem f =
     f\<lparr>fs_Status := NFSFilesystemStatusCreating, fs_MountTargetIPs := [],
       fs_MountTargetFQDN := None\<rparr>"

definition newSanityFilesystemPolicy :: "NFSFilesystem \<Rightarrow> NFSFilesystemAccessPolicy" where
  "newSanityFilesystemPolicy f =
     \<lparr>pol_FilesystemID = fs_ID f, pol_Label = fs_Label f, pol_Enabled = False, pol_LinodeACL = [],
      pol_SquashPolicy = NFSSquashPolicyRootSquash, pol_Protocols = Some [NFSProtocolVersionV4],
      pol_Status = NFSAccessPolicyStatusActive\<rparr>"

text \<open>Reading the policy map at a missing key gives the zero value.\<close>

definition zeroPolicy :: NFSFilesystemAccessPolicy where
  "zeroPolicy = \<lparr>pol_FilesystemID = 0, pol_Label = [], pol_Enabled = False, pol_LinodeACL = [],
     pol_SquashPolicy = [], pol_Protocols = None, pol_Status = OtherPolicyStatus []\<rparr>"

definition policyAt :: "SanityWorld \<Rightarrow> int \<Rightarrow> NFSFilesystemAccessPolicy" where
  "policyAt w i = (case map_of (sw_filesystemPolicy w) i of None \<Rightarrow> zeroPolicy | Some p \<Rightarrow> p)"

text \<open>\<open>cloneSanityFilesystemPolicy\<close> copies with \<open>append\<close> to a nil slice, which turns an empty slice
  into a nil one.\<close>

definition cloneSanityFilesystemPolicy ::
    "NFSFilesystemAccessPolicy \<Rightarrow> NFSFilesystemAccessPolicy" where
  "cloneSanityFilesystemPolicy p =
     p\<lparr>pol_Protocols := (if elems (pol_Protocols p) = [] then None else pol_Protocols p)\<rparr>"

definition sanityFilesystemCreateCompatible ::
    "NFSFilesystem \<Rightarrow> NFSFilesystemCreateOptions \<Rightarrow> bool" where
  "sanityFilesystemCreateCompatible f opts \<longleftrightarrow>
     fs_Label f = cr_Label opts \<and> fs_Region f = cr_Region opts \<and>
     fs_ProtocolVersions f = (case cr_ProtocolVersions opts of None \<Rightarrow> [] | Some ps \<Rightarrow> ps) \<and>
     fs_Tags f = (case cr_Tags opts of None \<Rightarrow> [] | Some ts \<Rightarrow> elems ts)"

definition fakeSanityFilesystemName :: "int \<Rightarrow> string \<Rightarrow> string" where
  "fakeSanityFilesystemName spaceID label = Itoa spaceID @ ''/'' @ label"

definition sanityListFilter :: "ListOptions \<Rightarrow> goError + string \<times> string" where
  "sanityListFilter opts =
     (if lo_Filter opts = [] then Inr ([], [])
      else (case parseFlatJSON (lo_Filter opts) of
          None \<Rightarrow> Inl (fakeSanityInvalid ''invalid list filter: %v'')
        | Some fields' \<Rightarrow> Inr (mapGet fields' ''label'', mapGet fields' ''region'')))"

subsection \<open>The client\<close>

text \<open>Every operation runs under the client's mutex, so it is one step of the world.\<close>

definition san_ListNFSSpaces ::
    "ListOptions \<Rightarrow> SanityWorld \<Rightarrow> (goError + NFSSpace list) \<times> SanityWorld" where
  "san_ListNFSSpaces opts w =
     (bindR (sanityListFilter opts) (\<lambda>(label, region).
        if label \<noteq> [] \<and> label \<noteq> space_Label (sw_space w) then Inr [] else Inr [sw_space w]), w)"

definition san_GetNFSSpace :: "int \<Rightarrow> SanityWorld \<Rightarrow> (goError + NFSSpace) \<times> SanityWorld" where
  "san_GetNFSSpace i w = (bindR (requireSpaceLocked w i) (\<lambda>_. Inr (sw_space w)), w)"

definition san_ListNFSFilesystems ::
    "int \<Rightarrow> ListOptions \<Rightarrow> SanityWorld \<Rightarrow> (goError + NFSFilesystem list) \<times> SanityWorld" where
  "san_ListNFSFilesystems i opts w =
     (bindR (requireSpaceLocked w i) (\<lambda>_.
      bindR (sanityListFilter opts) (\<lambda>(label, region).
        Inr (sort_key fs_ID (filter
          (\<lambda>f. (label = [] \<or> fs_Label f = label) \<and> (region = [] \<or> fs_Region f = region))
          (map snd (sw_filesystems w)))))), w)"

definition san_GetNFSFilesystemInSpace ::
    "int \<Rightarrow> int \<Rightarrow> SanityWorld \<Rightarrow> (goError + NFSFilesystem) \<times> SanityWorld" where
  "san_GetNFSFilesystemInSpace i j w = (filesystemLocked w i j, w)"

definition san_ListNFSQuotas ::
    "int \<Rightarrow> int \<Rightarrow> SanityWorld \<Rightarrow> (goError + NFSQuota list) \<times> SanityWorld" where
  "san_ListNFSQuotas i j w =
     (bindR (filesystemLocked w i j) (\<lambda>_.
        Inr (sort_key quota_ID
               (filter (\<lambda>q. quota_FilesystemID q = j) (map snd (sw_quotas w))))), w)"

definition san_UpdateNFSFilesystem ::
    "int \<Rightarrow> int \<Rightarrow> NFSFilesystemUpdateOptions \<Rightarrow> SanityWorld
       \<Rightarrow> (goError + NFSFilesystem) \<times> SanityWorld" where
  "san_UpdateNFSFilesystem i j opts w =
     (case filesystemLocked w i j of
        Inl e \<Rightarrow> (Inl e, w)
      | Inr f \<Rightarrow>
          (case uf_MaxCapacityBytes opts of
             None \<Rightarrow> (Inr f, w)
           | Some c \<Rightarrow>
               if c < fs_MaxCapacityBytes f then
                 (Inl (fakeSanityInvalid ''NFS filesystem capacity cannot be decreased''), w)
               else
                 (let f' = f\<lparr>fs_MaxCapacityBytes := c\<rparr> in
                  (Inr f', w\<lparr>sw_filesystems := AList.update j f' (sw_filesystems w),
                    sw_quotas := map (\<lambda>(k, q).
                      (k, if quota_FilesystemID q \<noteq> j \<or> \<not> quota_IsRoot q then q
                          else q\<lparr>quota_MaxCapacityBytes := Some c\<rparr>)) (sw_quotas w)\<rparr>))))"

definition createSanityRootQuotaLocked :: "NFSFilesystem \<Rightarrow> SanityWorld \<Rightarrow> SanityWorld" where
  "createSanityRootQuotaLocked f w =
     w\<lparr>sw_quotas := AList.update (sw_nextQuotaID w)
         \<lparr>quota_ID = sw_nextQuotaID w, quota_FilesystemID = fs_ID f, quota_IsRoot = True,
          quota_MaxCapacityBytes = Some (fs_MaxCapacityBytes f)\<rparr> (sw_quotas w),
       sw_nextQuotaID := sw_nextQuotaID w + 1\<rparr>"

definition san_CreateNFSFilesystem ::
    "int \<Rightarrow> NFSFilesystemCreateOptions \<Rightarrow> SanityWorld \<Rightarrow> (goError + NFSFilesystem) \<times> SanityWorld" where
  "san_CreateNFSFilesystem i opts w =
     (case bindR (requireSpaceLocked w i) (\<lambda>_. validateSanityFilesystemCreate opts) of
        Inl e \<Rightarrow> (Inl e, w)
      | Inr _ \<Rightarrow>
          (let name = fakeSanityFilesystemName i (cr_Label opts) in
           case map_of (sw_filesystemByName w) name of
             Some j \<Rightarrow>
               (case map_of (sw_filesystems w) j of
                  Some f \<Rightarrow>
                    if \<not> sanityFilesystemCreateCompatible f opts then
                      (Inl (fakeSanityConflict
                         ''NFS filesystem %q already exists with incompatible parameters''), w)
                    else (Inr f, w)
                | None \<Rightarrow> (Inl (fakeSanityConflict
                         ''NFS filesystem %q already exists with incompatible parameters''), w))
           | None \<Rightarrow>
               (let f = deactivateSanityFilesystem
                          (newSanityFilesystem (sw_nextFilesystemID w) i opts) in
                (Inr f, createSanityRootQuotaLocked f
                   (w\<lparr>sw_nextFilesystemID := sw_nextFilesystemID w + 1,
                      sw_filesystems := AList.update (fs_ID f) f (sw_filesystems w),
                      sw_filesystemByName := AList.update name (fs_ID f) (sw_filesystemByName w),
                      sw_filesystemPolicy := AList.update (fs_ID f)
                        (newSanityFilesystemPolicy f) (sw_filesystemPolicy w)\<rparr>)))))"

definition san_WaitForNFSFilesystemStatus ::
    "nat \<Rightarrow> int \<Rightarrow> int \<Rightarrow> NFSFilesystemStatus \<Rightarrow> SanityWorld
       \<Rightarrow> (goError + NFSFilesystem) \<times> SanityWorld" where
  "san_WaitForNFSFilesystemStatus t i j status w =
     (case filesystemLocked w i j of
        Inl e \<Rightarrow> (Inl e, w)
      | Inr f \<Rightarrow>
          if status \<noteq> NFSFilesystemStatusActive then
            (Inl (fakeSanityInvalid ''NFS filesystem %d is only available in active status''), w)
          else (let f' = activateSanityFilesystem f in
                (Inr f', w\<lparr>sw_filesystems := AList.update j f' (sw_filesystems w)\<rparr>)))"

definition san_DeleteNFSFilesystem ::
    "int \<Rightarrow> int \<Rightarrow> SanityWorld \<Rightarrow> goError option \<times> SanityWorld" where
  "san_DeleteNFSFilesystem i j w =
     (case filesystemLocked w i j of
        Inl e \<Rightarrow> (Some e, w)
      | Inr f \<Rightarrow>
          (None, w\<lparr>sw_filesystems := AList.delete j (sw_filesystems w),
             sw_filesystemByName :=
               AList.delete (fakeSanityFilesystemName i (fs_Label f)) (sw_filesystemByName w),
             sw_filesystemPolicy := AList.delete j (sw_filesystemPolicy w),
             sw_quotas := filter (\<lambda>(k, q). quota_FilesystemID q \<noteq> j) (sw_quotas w)\<rparr>))"

definition san_GetNFSSpaceAccessPolicy ::
    "int \<Rightarrow> SanityWorld \<Rightarrow> (goError + NFSSpaceAccessPolicy option) \<times> SanityWorld" where
  "san_GetNFSSpaceAccessPolicy i w =
     (bindR (requireSpaceLocked w i) (\<lambda>_. Inr (Some (sw_spacePolicy w))), w)"

definition san_GetNFSFilesystemAccessPolicy ::
    "int \<Rightarrow> int \<Rightarrow> SanityWorld \<Rightarrow> (goError + NFSFilesystemAccessPolicy) \<times> SanityWorld" where
  "san_GetNFSFilesystemAccessPolicy i j w =
     (bindR (filesystemLocked w i j) (\<lambda>_. Inr (cloneSanityFilesystemPolicy (policyAt w j))), w)"

text \<open>The update copies field by field; an ACL entry other than the one Linode of the fake is
  rejected.\<close>

definition san_UpdateNFSFilesystemAccessPolicy ::
    "int \<Rightarrow> int \<Rightarrow> NFSFilesystemAccessPolicyUpdateOptions \<Rightarrow> SanityWorld
       \<Rightarrow> (goError + NFSFilesystemAccessPolicy) \<times> SanityWorld" where
  "san_UpdateNFSFilesystemAccessPolicy i j opts w =
     (case bindR (filesystemLocked w i j) (\<lambda>_. validateSanityFilesystemPolicy opts) of
        Inl e \<Rightarrow> (Inl e, w)
      | Inr _ \<Rightarrow>
          (case find (\<lambda>n. n \<noteq> sanityNodeID)
                  (case up_LinodeIDs opts of None \<Rightarrow> [] | Some ids \<Rightarrow> elems ids) of
             Some n \<Rightarrow> (Inl (fakeSanityNotFound ''Linode instance'' n), w)
           | None \<Rightarrow>
               (let p = (applyPolicyUpdate opts (policyAt w j))
                          \<lparr>pol_Status := NFSAccessPolicyStatusUpdating\<rparr> in
                (Inr (cloneSanityFilesystemPolicy p),
                 w\<lparr>sw_filesystemPolicy := AList.update j p (sw_filesystemPolicy w)\<rparr>))))"

definition san_WaitForNFSFilesystemAccessPolicyStatus ::
    "nat \<Rightarrow> int \<Rightarrow> int \<Rightarrow> NFSAccessPolicyStatus \<Rightarrow> SanityWorld
       \<Rightarrow> (goError + NFSFilesystemAccessPolicy) \<times> SanityWorld" where
  "san_WaitForNFSFilesystemAccessPolicyStatus t i j status w =
     (case filesystemLocked w i j of
        Inl e \<Rightarrow> (Inl e, w)
      | Inr _ \<Rightarrow>
          if status \<noteq> NFSAccessPolicyStatusActive then
            (Inl (fakeSanityInvalid
               ''NFS filesystem access policy is only available in active status''), w)
          else
            (let p = (policyAt w j)\<lparr>pol_Status := NFSAccessPolicyStatusActive\<rparr> in
             (Inr (cloneSanityFilesystemPolicy p),
              w\<lparr>sw_filesystemPolicy := AList.update j p (sw_filesystemPolicy w)\<rparr>)))"

definition sanityClient :: "SanityWorld LinodeClient" where
  "sanityClient =
     \<lparr>lc_ListNFSSpaces = san_ListNFSSpaces, lc_GetNFSSpace = san_GetNFSSpace,
      lc_ListNFSFilesystems = san_ListNFSFilesystems,
      lc_GetNFSFilesystemInSpace = san_GetNFSFilesystemInSpace,
      lc_CreateNFSFilesystem = san_CreateNFSFilesystem,
      lc_WaitForNFSFilesystemStatus = san_WaitForNFSFilesystemStatus,
      lc_DeleteNFSFilesystem = san_DeleteNFSFilesystem, lc_ListNFSQuotas = san_ListNFSQuotas,
      lc_UpdateNFSFilesystem = san_UpdateNFSFilesystem,
      lc_GetNFSSpaceAccessPolicy = san_GetNFSSpaceAccessPolicy,
      lc_GetNFSFilesystemAccessPolicy = san_GetNFSFilesystemAccessPolicy,
      lc_UpdateNFSFilesystemAccessPolicy = san_UpdateNFSFilesystemAccessPolicy,
      lc_WaitForNFSFilesystemAccessPolicyStatus = san_WaitForNFSFilesystemAccessPolicyStatus\<rparr>"

definition sanityNode :: KubeNode where
  "sanityNode = \<lparr>node_Name = ''sanity-node'', node_ProviderID = ''linode://123'',
     node_Labels = [(''topology.kubernetes.io/region'', sanityRegion)], node_Addresses = []\<rparr>"

definition sanityMetadata :: "SanityWorld MetadataClients" where
  "sanityMetadata =
     \<lparr>mc_GetNode = (\<lambda>name w. (if name = node_Name sanityNode then Inr sanityNode
          else Inl (Errorf ''node %q not found'' [AStr name]), w)),
      mc_ListNodes = (\<lambda>w. (Inr [sanityNode], w)),
      mc_GetInstance = (\<lambda>w. (Inr \<lparr>inst_ID = sanityNodeID, inst_Region = sanityRegion\<rparr>, w)),
      mc_GetNetwork = (\<lambda>w. (Inr (Some \<lparr>net_IPv4Private = [Addr4 [192, 0, 2, 123]],
          net_IPv4Public = [], net_SLAAC = AddrZero, net_IPv6Ranges = []\<rparr>), w))\<rparr>"

lemmas sanity_client_defs =
  san_ListNFSSpaces_def san_GetNFSSpace_def san_ListNFSFilesystems_def
  san_GetNFSFilesystemInSpace_def san_ListNFSQuotas_def san_UpdateNFSFilesystem_def
  san_CreateNFSFilesystem_def san_WaitForNFSFilesystemStatus_def san_DeleteNFSFilesystem_def
  san_GetNFSSpaceAccessPolicy_def san_GetNFSFilesystemAccessPolicy_def
  san_UpdateNFSFilesystemAccessPolicy_def san_WaitForNFSFilesystemAccessPolicyStatus_def

subsection \<open>The contract of the policy methods holds\<close>

definition sanityPolicies :: "SanityWorld \<Rightarrow> int \<times> int \<Rightarrow> NFSFilesystemAccessPolicy option" where
  "sanityPolicies w = (\<lambda>(i, j). case filesystemLocked w i j of
      Inl e \<Rightarrow> None
    | Inr f \<Rightarrow> Some (cloneSanityFilesystemPolicy (policyAt w j)))"

lemma filesystemLocked_policy [simp]:
  "filesystemLocked (w\<lparr>sw_filesystemPolicy := m\<rparr>) i j = filesystemLocked w i j"
  by (simp add: filesystemLocked_def requireSpaceLocked_def)

lemma policyAt_update [simp]:
  "policyAt (w\<lparr>sw_filesystemPolicy := AList.update j p (sw_filesystemPolicy w)\<rparr>) k =
     (if k = j then p else policyAt w k)"
  by (simp add: policyAt_def update_conv')

lemma clone_status [simp]:
  "cloneSanityFilesystemPolicy (p\<lparr>pol_Status := s\<rparr>) = (cloneSanityFilesystemPolicy p)\<lparr>pol_Status := s\<rparr>"
  by (simp add: cloneSanityFilesystemPolicy_def)

lemma clone_apply:
  "validateSanityFilesystemPolicy o' = Inr () \<Longrightarrow>
     cloneSanityFilesystemPolicy (applyPolicyUpdate o' p)
       = applyPolicyUpdate o' (cloneSanityFilesystemPolicy p)"
  by (auto simp: validateSanityFilesystemPolicy_def bindR_eq_Inr_iff applyPolicyUpdate_def
      cloneSanityFilesystemPolicy_def split: option.splits if_splits)

lemma sanityPolicies_update:
  assumes "filesystemLocked w i j = Inr f"
  shows "sanityPolicies (w\<lparr>sw_filesystemPolicy := AList.update j p (sw_filesystemPolicy w)\<rparr>) =
           (sanityPolicies w)((i, j) \<mapsto> cloneSanityFilesystemPolicy p)"
proof -
  have "filesystemLocked w i' j = Inr f' \<Longrightarrow> i' = i" for i' f'
    using assms by (auto simp: filesystemLocked_def requireSpaceLocked_def bindR_eq_Inr_iff split: if_splits)
  then show ?thesis
    by (auto simp: sanityPolicies_def fun_eq_iff assms split: sum.splits)
qed

lemma sanityPolicies_at:
  "filesystemLocked w i j = Inr f \<Longrightarrow>
     sanityPolicies w (i, j) = Some (cloneSanityFilesystemPolicy (policyAt w j))"
  by (simp add: sanityPolicies_def)

interpretation sanity_policy: policy_store sanityClient sanityPolicies
proof (unfold_locales, goal_cases)
  case (1 i j w p w')
  then show ?case
    by (auto simp: sanityClient_def san_GetNFSFilesystemAccessPolicy_def sanityPolicies_def
        bindR_eq_Inr_iff)
next
  case (2 i j w e w')
  then show ?case by (simp add: sanityClient_def san_GetNFSFilesystemAccessPolicy_def)
next
  case (3 i j o' w q w')
  then show ?case
    by (auto simp: sanityClient_def san_UpdateNFSFilesystemAccessPolicy_def Let_def
        bindR_eq_Inr_iff sanityPolicies_update clone_apply sanityPolicies_at
        split: sum.splits option.splits intro!: exI)
next
  case (4 t i j status w q w')
  then show ?case
    by (auto simp: sanityClient_def san_WaitForNFSFilesystemAccessPolicyStatus_def Let_def
        sanityPolicies_update sanityPolicies_at split: sum.splits if_splits)
qed

end
