(* ===== verification/ControllerFacts.thy ===== *)
theory ControllerFacts
  imports SanityBackend
begin

text \<open>
  Properties of the controller's publish, unpublish, delete and expand RPCs: what they do to access
  policies (through the contract \<open>policy_store\<close>), that they leave the lock set as they found it,
  and that the requests they reject make no call. The witnesses run on the in-memory backend.
\<close>

subsection \<open>The witness environment\<close>

definition nullHost :: "SanityWorld Host" where
  "nullHost =
     \<lparr>h_IsLikelyNotMountPoint = (\<lambda>p w. ((True, None), w)), h_Mount = (\<lambda>a b c d w. (None, w)),
      h_CleanupMountPoint = (\<lambda>p b w. (None, w)), h_MkdirAll = (\<lambda>p w. (None, w)),
      h_Statfs = (\<lambda>p w. (Inl (SysError ENOENT p), w))\<rparr>"

definition sanityEnv :: "SanityWorld env" where
  "sanityEnv = \<lparr>env_client = sanityClient, env_metadata = sanityMetadata, env_host = nullHost\<rparr>"

definition sanityServer :: ControllerServer where
  "sanityServer =
     \<lparr>cs_driver = \<lparr>drv_name = Name, drv_vendorVersion = ''test'',
        drv_accessPolicyMode = AccessPolicyModeNode,
        drv_pluginCaps = pluginCapabilities RoleController,
        drv_controllerCaps = controllerServiceCapabilities AccessPolicyModeNode,
        drv_nodeCaps = nodeServiceCapabilities,
        drv_metadata = Some (newMetadataServiceWithClients ''sanity-node'' True)\<rparr>,
      cs_linodego = sanityLinodego, cs_unicodeLower = (\<lambda>x. x)\<rparr>"

definition sanityProc :: "SanityWorld proc" where
  "sanityProc = \<lparr>proc_world = newFakeSanityLinodeClient, proc_locks = NewVolumeLocks,
     proc_region = [], proc_regionMu = False, proc_ready = True\<rparr>"

definition mountCap :: "VolumeCapability option" where
  "mountCap = Some \<lparr>vc_AccessType = AccessMount [], vc_AccessMode = Some MULTI_NODE_MULTI_WRITER\<rparr>"

definition createReq :: CreateVolumeRequest where
  "createReq = \<lparr>cv_Name = ''pvc-1'',
     cv_CapacityRange = Some \<lparr>cap_RequiredBytes = 1000, cap_LimitBytes = 0\<rparr>,
     cv_VolumeCapabilities = [mountCap],
     cv_Parameters = [(storageClassParamSpaceID, ''1'')], cv_VolumeContentSource = None\<rparr>"

text \<open>The process after the first volume, with the handle 1/10000, was created.\<close>

definition createdProc :: "SanityWorld proc" where
  "createdProc = snd (run (CreateVolume sanityServer createReq) sanityEnv sanityProc)"

text \<open>Its value, which the other witnesses evaluate from.\<close>

lemma createdProc_value [code]:
  "createdProc =
     \<lparr>proc_world =
       \<lparr>fm_mounts = [], sw_space = \<lparr>space_ID = 1, space_Label = ''sanity-space''\<rparr>,
       sw_spacePolicy = \<lparr>sp_MTLSMode = ''disabled''\<rparr>,
       sw_filesystems =
         [(10000, \<lparr>fs_ID = 10000, fs_SpaceID = 1, fs_Label = ''pvc-1'', fs_Region = ''us-east'',
            fs_MaxCapacityBytes = 1000, fs_ProtocolVersions = [NFSProtocolVersionV4],
            fs_Status = NFSFilesystemStatusActive,
            fs_MountTargetIPs = [''[2001:db8::2710]:/pvc-1-2710''],
            fs_MountTargetFQDN = Some ''sanity-space-1.nfs.us-east.linode.com:/pvc-1-2710'',
            fs_SourceSnapshotID = None, fs_Tags = []\<rparr>)],
       sw_filesystemByName = [(''1/pvc-1'', 10000)],
       sw_filesystemPolicy =
         [(10000, \<lparr>pol_FilesystemID = 10000, pol_Label = ''pvc-1'', pol_Enabled = False,
            pol_LinodeACL = [], pol_SquashPolicy = ''root_squash'',
            pol_Protocols = Some [NFSProtocolVersionV4], pol_Status = NFSAccessPolicyStatusActive\<rparr>)],
       sw_nextFilesystemID = 10001,
       sw_quotas =
         [(20000, \<lparr>quota_ID = 20000, quota_FilesystemID = 10000, quota_IsRoot = True,
            quota_MaxCapacityBytes = Some 1000\<rparr>)],
       sw_nextQuotaID = 20001, sw_dirs = []\<rparr>,
      proc_locks = \<lparr>vl_locks = {}\<rparr>, proc_region = ''us-east'', proc_regionMu = False, proc_ready = True\<rparr>"
  unfolding createdProc_def by code_simp

definition publishReq :: ControllerPublishVolumeRequest where
  "publishReq = \<lparr>pv_VolumeId = ''1/10000'', pv_NodeId = ''123'', pv_VolumeCapability = mountCap\<rparr>"

definition publishedProc :: "SanityWorld proc" where
  "publishedProc = snd (run (ControllerPublishVolume sanityServer publishReq) sanityEnv createdProc)"

lemma publishedProc_value [code]:
  "publishedProc =
     \<lparr>proc_world =
       \<lparr>fm_mounts = [], sw_space = \<lparr>space_ID = 1, space_Label = ''sanity-space''\<rparr>,
       sw_spacePolicy = \<lparr>sp_MTLSMode = ''disabled''\<rparr>,
       sw_filesystems =
         [(10000, \<lparr>fs_ID = 10000, fs_SpaceID = 1, fs_Label = ''pvc-1'', fs_Region = ''us-east'',
            fs_MaxCapacityBytes = 1000, fs_ProtocolVersions = [NFSProtocolVersionV4],
            fs_Status = NFSFilesystemStatusActive,
            fs_MountTargetIPs = [''[2001:db8::2710]:/pvc-1-2710''],
            fs_MountTargetFQDN = Some ''sanity-space-1.nfs.us-east.linode.com:/pvc-1-2710'',
            fs_SourceSnapshotID = None, fs_Tags = []\<rparr>)],
       sw_filesystemByName = [(''1/pvc-1'', 10000)],
       sw_filesystemPolicy =
         [(10000, \<lparr>pol_FilesystemID = 10000, pol_Label = ''pvc-1'', pol_Enabled = True,
            pol_LinodeACL = [123], pol_SquashPolicy = ''root_squash'',
            pol_Protocols = Some [NFSProtocolVersionV4], pol_Status = NFSAccessPolicyStatusActive\<rparr>)],
       sw_nextFilesystemID = 10001,
       sw_quotas =
         [(20000, \<lparr>quota_ID = 20000, quota_FilesystemID = 10000, quota_IsRoot = True,
            quota_MaxCapacityBytes = Some 1000\<rparr>)],
       sw_nextQuotaID = 20001, sw_dirs = []\<rparr>,
      proc_locks = \<lparr>vl_locks = {}\<rparr>, proc_region = ''us-east'', proc_regionMu = False, proc_ready = True\<rparr>"
  unfolding publishedProc_def by code_simp

definition unpublishReq :: ControllerUnpublishVolumeRequest where
  "unpublishReq = \<lparr>uv_VolumeId = ''1/10000'', uv_NodeId = ''123''\<rparr>"

lemma sanityEnv_store: "policy_store (env_client sanityEnv) sanityPolicies"
  using sanity_policy.policy_store_axioms by (simp add: sanityEnv_def)

lemma unit_result: "r = (Inr (), snd r)" if "fst r = Inr ()" for r :: "('e + unit) \<times> 's"
  using that by (cases r) auto

subsection \<open>Publishing\<close>

lemma publish_cases:
  assumes "run (ControllerPublishVolume s req) v st = (Inr (), st')"
  shows "pv_VolumeId req \<notin> vl_locks (proc_locks st) \<and> fst (volumeCapabilitySupported (pv_VolumeCapability req)) \<and>
    (\<exists>s2. run (publishLocked s req) v (st\<lparr>proc_locks := (proc_locks st)\<lparr>vl_locks :=
        insert (pv_VolumeId req) (vl_locks (proc_locks st))\<rparr>\<rparr>) = (Inr (), s2) \<and>
      proc_world st' = proc_world s2)"
proof -
  from assms have cap: "fst (volumeCapabilitySupported (pv_VolumeCapability req))"
    and w: "run (withVolumeLock (pv_VolumeId req) (publishLocked s req)) v st = (Inr (), st')"
    by (auto simp: ControllerPublishVolume_def run_simps capabilityError_def
        split: if_splits sum.splits prod.splits)
  from w show ?thesis by (rule withVolumeLock_ok) (use cap in auto)
qed

lemma publish_effect:
  assumes "policy_store (env_client v) pol"
    and "run (ControllerPublishVolume s req) v st = (Inr (), st')"
  shows "\<exists>h n p p'. parseVolumeHandle (pv_VolumeId req) = Inr h \<and> Atoi (pv_NodeId req) = Inr n \<and>
    pol (proc_world st) (handleKey h) = Some p \<and>
    pol (proc_world st') = (pol (proc_world st))(handleKey h \<mapsto> p') \<and> publishPost n p p'"
proof -
  from publish_cases [OF assms(2)] obtain s2 where
    r: "run (publishLocked s req) v (st\<lparr>proc_locks := (proc_locks st)\<lparr>vl_locks :=
        insert (pv_VolumeId req) (vl_locks (proc_locks st))\<rparr>\<rparr>) = (Inr (), s2)"
    and w: "proc_world st' = proc_world s2" by blast
  from policy_store.publish_locked [OF assms(1) r refl] w show ?thesis
    by (auto simp: parseVolumeHandleAndNodeID_Inr)
qed

text \<open>C1: a successful \<open>ControllerPublishVolume\<close> finds the volume and node its IDs name, and afterwards
  the filesystem's access policy is enabled and admits the node; the other nodes of the ACL, the
  other settings of the policy and the policies of all other filesystems are as before.\<close>

theorem publish_correct:
  assumes "policy_store (env_client v) pol"
    and "run (ControllerPublishVolume s req) v st = (Inr (), st')"
  shows "\<exists>h n p p'. parseVolumeHandle (pv_VolumeId req) = Inr h \<and> Atoi (pv_NodeId req) = Inr n \<and>
    pol (proc_world st) (handleKey h) = Some p \<and>
    pol (proc_world st') = (pol (proc_world st))(handleKey h \<mapsto> p') \<and> publishPost n p p'"
  using assms by (rule publish_effect)

theorem publish_correct_witness:
  "\<exists>h n p p'. parseVolumeHandle ''1/10000'' = Inr h \<and> Atoi ''123'' = Inr n \<and>
    sanityPolicies (proc_world createdProc) (handleKey h) = Some p \<and>
    sanityPolicies (proc_world publishedProc) =
      (sanityPolicies (proc_world createdProc))(handleKey h \<mapsto> p') \<and> publishPost n p p'"
proof -
  have "fst (run (ControllerPublishVolume sanityServer publishReq) sanityEnv createdProc) = Inr ()"
    by code_simp
  from publish_correct [OF sanityEnv_store unit_result [OF this]] show ?thesis
    by (simp add: publishReq_def publishedProc_def)
qed

text \<open>Publishing is idempotent: when a publish of a node has succeeded, publishing it again changes
  no access policy, whatever the second call returns.\<close>

lemma publish_idempotent:
  assumes "policy_store (env_client v) pol"
    and "run (ControllerPublishVolume s req) v st = (Inr (), st')"
    and "Atoi (pv_NodeId req) \<noteq> Inr 0"
    and "run (ControllerPublishVolume s req) v st' = (r, st'')"
  shows "pol (proc_world st'') = pol (proc_world st')"
proof -
  from publish_effect [OF assms(1,2)] obtain h n p' where
    hn: "parseVolumeHandleAndNodeID (pv_VolumeId req) (pv_NodeId req) = Inr (h, n)" "n \<noteq> 0"
    and p: "pol (proc_world st') (handleKey h) = Some p'" "n \<in> set (pol_LinodeACL p')" "pol_Enabled p'"
    using assms(3) by (auto simp: parseVolumeHandleAndNodeID_Inr publishPost_def)
  show ?thesis
  proof (cases "pv_VolumeId req \<in> vl_locks (proc_locks st')")
    case True
    with assms(4) show ?thesis
      by (auto simp: ControllerPublishVolume_def run_simps run_withVolumeLock_busy
          split: if_splits sum.splits prod.splits)
  next
    case False
    let ?st = "st'\<lparr>proc_locks := (proc_locks st')\<lparr>vl_locks :=
        insert (pv_VolumeId req) (vl_locks (proc_locks st'))\<rparr>\<rparr>"
    have "run (publishLocked s req) v ?st = (r2, s2) \<Longrightarrow> pol (proc_world s2) = pol (proc_world ?st)"
      for r2 s2
      by (rule policy_store.publish_noop [OF assms(1) _ refl hn(1) _ p(2) hn(2) p(3)])
        (use p(1) in simp_all)
    with assms(4) False show ?thesis
      by (auto simp: ControllerPublishVolume_def run_simps run_withVolumeLock_free
          split: if_splits sum.splits prod.splits)
  qed
qed

theorem publish_idempotent_witness:
  "sanityPolicies (proc_world (snd (run (ControllerPublishVolume sanityServer publishReq)
       sanityEnv publishedProc))) = sanityPolicies (proc_world publishedProc)"
proof -
  have "fst (run (ControllerPublishVolume sanityServer publishReq) sanityEnv createdProc) = Inr ()"
    by code_simp
  from unit_result [OF this] have
    "run (ControllerPublishVolume sanityServer publishReq) sanityEnv createdProc = (Inr (), publishedProc)"
    by (simp add: publishedProc_def)
  moreover have "Atoi (pv_NodeId publishReq) \<noteq> Inr 0" by code_simp
  ultimately show ?thesis
    using publish_idempotent [OF sanityEnv_store _ _ prod.collapse [symmetric]] by blast
qed

subsection \<open>Unpublishing\<close>

lemma unpublish_effect:
  assumes "policy_store (env_client v) pol"
    and "run (ControllerUnpublishVolume s req) v st = (Inr (), st')"
    and "uv_NodeId req \<noteq> []"
  shows "case parseVolumeHandleAndNodeID (uv_VolumeId req) (uv_NodeId req) of
      Inl e \<Rightarrow> IsNotFound (cs_linodego s) e \<and> proc_world st' = proc_world st
    | Inr (h, n) \<Rightarrow>
        (\<exists>e w. lc_GetNFSFilesystemAccessPolicy (env_client v) (vh_spaceID h) (vh_filesystemID h)
             (proc_world st) = (Inl e, w)
           \<and> IsNotFound (cs_linodego s) e \<and> pol (proc_world st') = pol (proc_world st)) \<or>
        (\<exists>p p'. pol (proc_world st) (handleKey h) = Some p \<and>
           pol (proc_world st') = (pol (proc_world st))(handleKey h \<mapsto> p') \<and>
           (n \<noteq> 0 \<longrightarrow> unpublishPost n p p'))"
proof -
  from assms(2,3) have "run (withVolumeLock (uv_VolumeId req) (unpublishLocked s req)) v st = (Inr (), st')"
    by (auto simp: ControllerUnpublishVolume_def split: if_splits)
  then obtain s2 where r: "run (unpublishLocked s req) v (st\<lparr>proc_locks := (proc_locks st)\<lparr>vl_locks :=
        insert (uv_VolumeId req) (vl_locks (proc_locks st))\<rparr>\<rparr>) = (Inr (), s2)"
    and w: "proc_world st' = proc_world s2" by (rule withVolumeLock_ok) auto
  from policy_store.unpublish_locked [OF assms(1) r refl] show ?thesis
    by (simp add: w cong: sum.case_cong prod.case_cong split del: if_split)
qed

text \<open>C2: a successful \<open>ControllerUnpublishVolume\<close> with a node ID either found no policy to revoke (the
  lookup failed with a not-found error, and no policy changed) or removed the node from the ACL,
  keeping the enabled flag, every other node, the other settings and all other filesystems.\<close>

theorem unpublish_correct:
  assumes "policy_store (env_client v) pol"
    and "run (ControllerUnpublishVolume s req) v st = (Inr (), st')"
    and "uv_NodeId req \<noteq> []"
  shows "case parseVolumeHandleAndNodeID (uv_VolumeId req) (uv_NodeId req) of
      Inl e \<Rightarrow> IsNotFound (cs_linodego s) e \<and> proc_world st' = proc_world st
    | Inr (h, n) \<Rightarrow>
        (\<exists>e w. lc_GetNFSFilesystemAccessPolicy (env_client v) (vh_spaceID h) (vh_filesystemID h)
             (proc_world st) = (Inl e, w)
           \<and> IsNotFound (cs_linodego s) e \<and> pol (proc_world st') = pol (proc_world st)) \<or>
        (\<exists>p p'. pol (proc_world st) (handleKey h) = Some p \<and>
           pol (proc_world st') = (pol (proc_world st))(handleKey h \<mapsto> p') \<and>
           (n \<noteq> 0 \<longrightarrow> unpublishPost n p p'))"
  using assms by (rule unpublish_effect)

theorem unpublish_correct_witness:
  "\<exists>p p'. sanityPolicies (proc_world publishedProc) (1, 10000) = Some p \<and>
     sanityPolicies (proc_world (snd (run (ControllerUnpublishVolume sanityServer unpublishReq)
       sanityEnv publishedProc))) = (sanityPolicies (proc_world publishedProc))((1, 10000) \<mapsto> p') \<and>
     unpublishPost 123 p p'"
proof -
  have "fst (run (ControllerUnpublishVolume sanityServer unpublishReq) sanityEnv publishedProc) = Inr ()"
    by code_simp
  moreover have "parseVolumeHandleAndNodeID (uv_VolumeId unpublishReq) (uv_NodeId unpublishReq)
      = Inr (\<lparr>vh_spaceID = 1, vh_filesystemID = 10000\<rparr>, 123)" by code_simp
  moreover have "fst (lc_GetNFSFilesystemAccessPolicy (env_client sanityEnv) 1 10000
      (proc_world publishedProc)) \<noteq> Inl e" for e
  proof -
    have "(case fst (lc_GetNFSFilesystemAccessPolicy (env_client sanityEnv) 1 10000
      (proc_world publishedProc)) of Inl _ \<Rightarrow> False | Inr _ \<Rightarrow> True)" by code_simp
    then show ?thesis by (auto split: sum.splits)
  qed
  moreover have "uv_NodeId unpublishReq \<noteq> []" by (simp add: unpublishReq_def)
  ultimately show ?thesis
    using unpublish_correct [OF sanityEnv_store unit_result [of
        "run (ControllerUnpublishVolume sanityServer unpublishReq) sanityEnv publishedProc"]]
    by (fastforce simp: handleKey_def)
qed

text \<open>A publish followed by an unpublish of the same node leaves the other nodes of the ACL, the
  settings of the policy and all other policies as they were, and the node is out.\<close>

lemma publish_unpublish:
  assumes "policy_store (env_client v) pol"
    and "run (ControllerPublishVolume s preq) v st = (Inr (), st1)"
    and "run (ControllerUnpublishVolume s ureq) v st1 = (Inr (), st2)"
    and "uv_VolumeId ureq = pv_VolumeId preq" and "uv_NodeId ureq = pv_NodeId preq"
    and "parseVolumeHandleAndNodeID (pv_VolumeId preq) (pv_NodeId preq) = Inr (h, n)" and "n \<noteq> 0"
    and "fst (lc_GetNFSFilesystemAccessPolicy (env_client v) (vh_spaceID h) (vh_filesystemID h)
           (proc_world st1)) = Inr q"
  shows "\<exists>p p2. pol (proc_world st) (handleKey h) = Some p \<and>
    pol (proc_world st2) = (pol (proc_world st))(handleKey h \<mapsto> p2) \<and>
    aclNodes p2 = aclNodes p - {n} \<and> sameSettings p p2 \<and> pol_Enabled p2"
proof -
  have hn: "parseVolumeHandle (pv_VolumeId preq) = Inr h" "Atoi (pv_NodeId preq) = Inr n"
    using assms(6) by (simp_all add: parseVolumeHandleAndNodeID_Inr)
  then have "pv_NodeId preq \<noteq> []" by auto
  from publish_effect [OF assms(1,2)] hn obtain p p1 where
    p: "pol (proc_world st) (handleKey h) = Some p"
       "pol (proc_world st1) = (pol (proc_world st))(handleKey h \<mapsto> p1)" "publishPost n p p1"
    by auto
  have "\<exists>p p'. pol (proc_world st1) (handleKey h) = Some p \<and>
           pol (proc_world st2) = (pol (proc_world st1))(handleKey h \<mapsto> p') \<and>
           (n \<noteq> 0 \<longrightarrow> unpublishPost n p p')"
    using unpublish_effect [OF assms(1,3)] assms(4-6,8) \<open>pv_NodeId preq \<noteq> []\<close> by auto
  with p assms(7) obtain p2 where
    "pol (proc_world st2) = (pol (proc_world st))(handleKey h \<mapsto> p2)" "unpublishPost n p1 p2"
    by auto
  moreover from this(2) p(3) have
    "aclNodes p2 = aclNodes p - {n} \<and> sameSettings p p2 \<and> pol_Enabled p2"
    by (auto simp: publishPost_def unpublishPost_def sameSettings_def)
  ultimately show ?thesis using p(1) by blast
qed

theorem publish_unpublish_witness:
  "\<exists>p p2. sanityPolicies (proc_world createdProc) (1, 10000) = Some p \<and>
     sanityPolicies (proc_world (snd (run (ControllerUnpublishVolume sanityServer unpublishReq)
       sanityEnv publishedProc))) = (sanityPolicies (proc_world createdProc))((1, 10000) \<mapsto> p2) \<and>
     aclNodes p2 = aclNodes p - {123} \<and> sameSettings p p2 \<and> pol_Enabled p2"
proof -
  have "fst (run (ControllerPublishVolume sanityServer publishReq) sanityEnv createdProc) = Inr ()"
    by code_simp
  from unit_result [OF this] have
    1: "run (ControllerPublishVolume sanityServer publishReq) sanityEnv createdProc = (Inr (), publishedProc)"
    by (simp add: publishedProc_def)
  have "fst (run (ControllerUnpublishVolume sanityServer unpublishReq) sanityEnv publishedProc) = Inr ()"
    by code_simp
  note 2 = unit_result [OF this]
  have 3: "parseVolumeHandleAndNodeID (pv_VolumeId publishReq) (pv_NodeId publishReq)
      = Inr (\<lparr>vh_spaceID = 1, vh_filesystemID = 10000\<rparr>, 123)" by code_simp
  have "\<not> isl (fst (lc_GetNFSFilesystemAccessPolicy (env_client sanityEnv) 1 10000
      (proc_world publishedProc)))" by code_simp
  then obtain q where 4: "fst (lc_GetNFSFilesystemAccessPolicy (env_client sanityEnv)
      (vh_spaceID \<lparr>vh_spaceID = 1, vh_filesystemID = 10000\<rparr>)
      (vh_filesystemID \<lparr>vh_spaceID = 1, vh_filesystemID = 10000\<rparr>) (proc_world publishedProc)) = Inr q"
    by (cases "fst (lc_GetNFSFilesystemAccessPolicy (env_client sanityEnv) 1 10000
      (proc_world publishedProc))") auto
  show ?thesis
    using publish_unpublish [OF sanityEnv_store 1 2 _ _ 3 _ 4]
    by (simp add: handleKey_def publishReq_def unpublishReq_def)
qed

end
