(* ===== verification/ParameterFacts.thy ===== *)
theory ParameterFacts
  imports HandleFacts
begin

text \<open>
  Properties of the pure checks of volume creation: the StorageClass parameters, the tag list, the
  filesystem label, volume capabilities and capacities.
\<close>

subsection \<open>Tags\<close>

text \<open>A tag that survives the list syntax: not empty, without a comma, without surrounding space.\<close>

definition cleanTag :: "string \<Rightarrow> bool" where
  "cleanTag t \<longleftrightarrow> t \<noteq> [] \<and> CHR '','' \<notin> set t \<and> trimSpace t = t"

lemma trimSpace_idem [simp]: "trimSpace (trimSpace s) = trimSpace s"
  by (rule trimSpace_fixed) (auto simp: spaceSeqs_ends(1) trimSpace_done)

lemma set_trimSpace: "set (trimSpace s) \<subseteq> set s"
proof -
  let ?l = "stripSeqs spaceSeqs s"
  have "set (trimSpace s) \<subseteq> set ?l"
    using stripSeqs_suffix [of "map rev spaceSeqs" "rev ?l"]
    by (metis rev_rev_ident set_mono_suffix set_rev trimSpace_def)
  also have "\<dots> \<subseteq> set s" using stripSeqs_suffix by (rule set_mono_suffix)
  finally show ?thesis .
qed

lemma splitTags_clean: "t \<in> set (elems (splitTags s)) \<Longrightarrow> cleanTag t"
  using set_trimSpace splitByte_parts
  by (fastforce simp: splitTags_def cleanTag_def split: if_splits)

lemma map_clean_id: "\<forall>t \<in> set ts. cleanTag t \<Longrightarrow> filter (\<lambda>t. t \<noteq> []) (map trimSpace ts) = ts"
  by (induction ts) (auto simp: cleanTag_def)

text \<open>\<open>TrimSpace\<close> removes no printable ASCII byte but the space.\<close>

lemma stripSeqs_keeps:
  "\<forall>e \<in> set es. c \<notin> set e \<Longrightarrow> c \<in> set s \<Longrightarrow> c \<in> set (stripSeqs es s)"
proof (induction es s rule: stripSeqs.induct)
  case (1 es s)
  show ?case
  proof (cases "find (\<lambda>e. e \<noteq> [] \<and> prefix e s) es")
    case None
    with 1 show ?thesis by (subst stripSeqs.simps) simp
  next
    case (Some e)
    then have e: "e \<in> set es" "prefix e s" by (auto simp: find_Some_iff)
    with 1 have "c \<in> set (drop (length e) s)" by (auto simp: prefix_def)
    with 1 Some show ?thesis by (subst stripSeqs.simps) simp
  qed
qed

lemma spaceSeqs_plain: "e \<in> set spaceSeqs \<Longrightarrow> c \<in> set e \<Longrightarrow> \<not> plainChar c"
  by (auto simp: spaceSeqs_def asciiSpaces_def wideSpaces_def plainChar_def of_char_byte)

lemma trimSpace_keeps:
  assumes "plainChar c" and "c \<in> set s"
  shows "c \<in> set (trimSpace s)"
proof -
  have "c \<in> set (stripSeqs spaceSeqs s)"
    by (rule stripSeqs_keeps) (use assms in \<open>auto dest: spaceSeqs_plain\<close>)
  then have "c \<in> set (stripSeqs (map rev spaceSeqs) (rev (stripSeqs spaceSeqs s)))"
    by (intro stripSeqs_keeps) (use assms in \<open>auto dest: spaceSeqs_plain\<close>)
  then show ?thesis by (simp add: trimSpace_def)
qed

lemma joinStr_nonspace:
  assumes "ts \<noteq> []" and "\<forall>t \<in> set ts. cleanTag t"
  shows "trimSpace (joinStr '','' ts) \<noteq> []"
proof (cases ts)
  case (Cons t us)
  show ?thesis
  proof (cases us)
    case Nil
    with Cons assms show ?thesis by (simp add: cleanTag_def)
  next
    case (Cons u vs)
    then have "CHR '','' \<in> set (joinStr '','' ts)" using \<open>ts = t # us\<close> by simp
    moreover have "plainChar CHR '',''" by (simp add: plainChar_def)
    ultimately have "CHR '','' \<in> set (trimSpace (joinStr '','' ts))" by (rule trimSpace_keeps [rotated])
    then show ?thesis by auto
  qed
qed (use assms in simp)

text \<open>The tag parser inverts the comma-separated rendering: a non-empty list of non-empty,
  comma-free tags without surrounding white space is read back exactly.\<close>

lemma splitTags_roundtrip:
  assumes "ts \<noteq> []" and "\<forall>t \<in> set ts. cleanTag t"
  shows "splitTags (joinStr '','' ts) = Some ts"
proof -
  have "splitByte CHR '','' (joinStr '','' ts) = ts"
    by (rule split_join) (use assms in \<open>auto simp: cleanTag_def\<close>)
  with joinStr_nonspace [OF assms] map_clean_id [OF assms(2)] show ?thesis
    by (simp add: splitTags_def)
qed

theorem splitTags_roundtrip_witness:
  "splitTags (joinStr '','' [''team:storage'', ''a b'']) = Some [''team:storage'', ''a b'']"
proof (rule splitTags_roundtrip)
  show "\<forall>t \<in> set [''team:storage'', ''a b'']. cleanTag t"
    unfolding cleanTag_def by code_simp
qed simp

text \<open>The tag list is nil exactly for a blank parameter, and otherwise holds exactly the non-blank
  comma-separated parts, trimmed, in order; every tag is clean.\<close>

lemma splitTags_spec:
  "(splitTags s = None) = (trimSpace s = []) \<and>
   set (elems (splitTags s)) = (if trimSpace s = [] then {} else
      {trimSpace part | part. part \<in> set (splitByte CHR '','' s) \<and> trimSpace part \<noteq> []}) \<and>
   list_all cleanTag (elems (splitTags s))"
proof (intro conjI)
  show "list_all cleanTag (elems (splitTags s))"
    unfolding list_all_iff using splitTags_clean by blast
qed (auto simp: splitTags_def)

subsection \<open>StorageClass parameters\<close>

text \<open>The reading of a parameter map that \<open>docs/storage-class-parameters.md\<close> describes: exactly one of
  the space ID and the space label, and an optional squash policy.\<close>

definition validParameters :: "(string \<times> string) list \<Rightarrow> createVolumeParameters \<Rightarrow> bool" where
  "validParameters m p \<longleftrightarrow>
     (let i = trimSpace (mapGet m storageClassParamSpaceID);
          l = trimSpace (mapGet m storageClassParamSpaceLabel);
          q = trimSpace (mapGet m storageClassParamRootSquash) in
      ((i = [] \<and> l \<noteq> [] \<and> par_spaceID p = 0) \<or>
       (i \<noteq> [] \<and> l = [] \<and> Atoi i = Inr (par_spaceID p) \<and> 0 < par_spaceID p)) \<and>
      par_spaceLabel p = l \<and>
      q \<in> {[], NFSSquashPolicyNone, NFSSquashPolicyRootSquash, NFSSquashPolicyAllSquash} \<and>
      par_squashPolicy p = q \<and> par_squashPolicySet p = (q \<noteq> []) \<and>
      par_tags p = splitTags (mapGet m storageClassParamTags) \<and> par_region p = [])"

lemma parseSpaceID_Inr:
  "parseSpaceID i = Inr n \<longleftrightarrow> (i = [] \<and> n = 0) \<or> (i \<noteq> [] \<and> Atoi i = Inr n \<and> 0 < n)"
  by (auto simp: parseSpaceID_def split: sum.splits)

lemma parseSquash_Inr:
  "parseSquash q = Inr (a, b) \<longleftrightarrow>
     q \<in> {[], NFSSquashPolicyNone, NFSSquashPolicyRootSquash, NFSSquashPolicyAllSquash} \<and>
     a = q \<and> b = (q \<noteq> [])"
  by (auto simp: parseSquash_def squash_policies)

lemma parseCreateVolumeParameters_Inr:
  "parseCreateVolumeParameters m = Inr p \<longleftrightarrow> validParameters m p"
proof
  assume "parseCreateVolumeParameters m = Inr p"
  then show "validParameters m p"
    by (auto simp: parseCreateVolumeParameters_def Let_def bindR_eq_Inr_iff parseSpaceID_Inr
        parseSquash_Inr validParameters_def split: if_splits)
next
  assume v: "validParameters m p"
  then have "parseSpaceID (trimSpace (mapGet m storageClassParamSpaceID)) = Inr (par_spaceID p)"
    and "parseSquash (trimSpace (mapGet m storageClassParamRootSquash))
           = Inr (par_squashPolicy p, par_squashPolicySet p)"
    by (auto simp: parseSpaceID_Inr parseSquash_Inr validParameters_def Let_def)
  with v show "parseCreateVolumeParameters m = Inr p"
    by (cases p) (auto simp: parseCreateVolumeParameters_def validParameters_def Let_def)
qed

lemma parseCreateVolumeParameters_code:
  "parseCreateVolumeParameters m = Inl e \<Longrightarrow> statusCode e = InvalidArgument"
  by (auto simp: parseCreateVolumeParameters_def Let_def bindR_eq_Inl_iff parseSpaceID_def
      parseSquash_def split: if_splits sum.splits)

text \<open>C33: the parameter parser returns exactly the documented reading of the map, and rejects every map
  that has none with \<open>InvalidArgument\<close>.\<close>

theorem parseCreateVolumeParameters_spec:
  "case parseCreateVolumeParameters m of
     Inr p \<Rightarrow> validParameters m p \<and> (\<forall>q. validParameters m q = (q = p))
   | Inl e \<Rightarrow> statusCode e = InvalidArgument \<and> (\<forall>q. \<not> validParameters m q)"
  by (auto simp: parseCreateVolumeParameters_Inr [symmetric] parseCreateVolumeParameters_code
      split: sum.split)

subsection \<open>Labels\<close>

lemma suffix_single: "suffix [x] ys \<Longrightarrow> ys \<noteq> [] \<and> last ys = x"
  by (auto simp: suffix_def)

text \<open>C37: the label sent to the API has at most 63 bytes, is a prefix of the name that is cut only at
  byte 63 and at hyphens before it, is the name itself when that fits, never ends in a hyphen when
  it was cut, and truncating again changes nothing.\<close>

theorem truncateNFSLabel_spec:
  "length (truncateNFSLabelToMaxBytes l) \<le> 63 \<and>
   (\<exists>n. take 63 l = truncateNFSLabelToMaxBytes l @ replicate n CHR ''-'') \<and>
   (63 < length l \<or> truncateNFSLabelToMaxBytes l = l) \<and>
   \<not> (63 < length l \<and> suffix ''-'' (truncateNFSLabelToMaxBytes l)) \<and>
   truncateNFSLabelToMaxBytes (truncateNFSLabelToMaxBytes l) = truncateNFSLabelToMaxBytes l"
proof -
  let ?d = "\<lambda>c. c = CHR ''-''"
  let ?r = "rev (take 63 l)"
  have pre: "prefix (rev (dropWhile ?d ?r)) (take 63 l)"
    using prefix_rev_dropWhile [of ?d "take 63 l"] by simp
  then have len: "length (rev (dropWhile ?d ?r)) \<le> 63"
    using prefix_length_le by fastforce
  have "take 63 l = rev (dropWhile ?d ?r) @ rev (takeWhile ?d ?r)"
    by (metis rev_append rev_rev_ident takeWhile_dropWhile_id)
  moreover have "takeWhile ?d ?r = replicate (length (takeWhile ?d ?r)) CHR ''-''"
    by (rule replicate_length_same [symmetric]) (auto dest: set_takeWhileD)
  then have "rev (takeWhile ?d ?r) = replicate (length (takeWhile ?d ?r)) CHR ''-''"
    by (metis rev_replicate)
  ultimately have "\<exists>n. take 63 l = rev (dropWhile ?d ?r) @ replicate n CHR ''-''" by metis
  moreover have "rev (dropWhile ?d ?r) = [] \<or> last (rev (dropWhile ?d ?r)) \<noteq> CHR ''-''"
    using last_rev_dropWhile [of ?d "take 63 l"] by blast
  ultimately have long: "\<exists>n. take 63 l = rev (dropWhile ?d ?r) @ replicate n CHR ''-''"
    "\<not> suffix ''-'' (rev (dropWhile ?d ?r))"
    by (metis suffix_single)+
  show ?thesis
  proof (cases "length l \<le> 63")
    case True
    then have "truncateNFSLabelToMaxBytes l = l"
      by (simp add: truncateNFSLabelToMaxBytes_def nfsLabelMaxBytes_def)
    with True show ?thesis by (simp add: exI [of _ 0])
  next
    case False
    then have "truncateNFSLabelToMaxBytes l = rev (dropWhile ?d ?r)"
      by (simp add: truncateNFSLabelToMaxBytes_def nfsLabelMaxBytes_def)
    moreover from len have "truncateNFSLabelToMaxBytes (rev (dropWhile ?d ?r)) = rev (dropWhile ?d ?r)"
      by (simp add: truncateNFSLabelToMaxBytes_def nfsLabelMaxBytes_def)
    ultimately show ?thesis using long len False by simp
  qed
qed

subsection \<open>Capabilities and capacities\<close>

text \<open>A capability the driver supports: a mount with a known access mode.\<close>

definition supportedCapability :: "VolumeCapability option \<Rightarrow> bool" where
  "supportedCapability c \<longleftrightarrow>
     (case c of None \<Rightarrow> False
      | Some vc \<Rightarrow> getMount vc \<noteq> None \<and>
          getMode vc \<in> {SINGLE_NODE_WRITER, SINGLE_NODE_READER_ONLY, MULTI_NODE_READER_ONLY,
            MULTI_NODE_SINGLE_WRITER, MULTI_NODE_MULTI_WRITER, SINGLE_NODE_SINGLE_WRITER,
            SINGLE_NODE_MULTI_WRITER})"

lemma volumeCapabilitySupported_iff: "fst (volumeCapabilitySupported c) = supportedCapability c"
  by (auto simp: volumeCapabilitySupported_def supportedCapability_def split: option.splits AccessMode.splits)

lemma capabilityError_Inr: "capabilityError c = Inr () \<longleftrightarrow> supportedCapability c"
  by (simp add: capabilityError_def volumeCapabilitySupported_iff [symmetric] split: prod.split)

lemma capabilityError_code: "capabilityError c = Inl e \<Longrightarrow> statusCode e = InvalidArgument"
  by (auto simp: capabilityError_def split: prod.splits if_splits)

lemma checkCapabilities_Inr: "checkCapabilities cs = Inr () \<longleftrightarrow> list_all supportedCapability cs"
  by (induction cs) (auto simp: bindR_eq_Inr_iff capabilityError_Inr)

lemma checkCapabilities_code: "checkCapabilities cs = Inl e \<Longrightarrow> statusCode e = InvalidArgument"
  by (induction cs) (auto simp: bindR_eq_Inl_iff dest: capabilityError_code)

text \<open>The capabilities of a create request pass exactly when there is at least one and all of them
  are mounts with a known access mode; otherwise the error is \<open>InvalidArgument\<close>.\<close>

lemma createCapabilities_spec:
  "case validateCreateVolumeCapabilities cs of
     Inr u \<Rightarrow> cs \<noteq> [] \<and> list_all supportedCapability cs
   | Inl e \<Rightarrow> statusCode e = InvalidArgument \<and> \<not> (cs \<noteq> [] \<and> list_all supportedCapability cs)"
  using checkCapabilities_Inr [of cs]
  by (auto simp: validateCreateVolumeCapabilities_def errNoVolumeCapabilities_def
      dest: checkCapabilities_code split: sum.split)

text \<open>An existing filesystem is compatible with a capacity range exactly when its capacity is
  unknown (zero) or within the range, a zero limit meaning none; otherwise the error is
  \<open>AlreadyExists\<close>.\<close>

lemma existingCapacity_spec:
  "case validateExistingFilesystemCapacity f r of
     Inr u \<Rightarrow> fs_MaxCapacityBytes f = 0 \<or>
       getRequiredBytes r \<le> fs_MaxCapacityBytes f \<and>
       (getLimitBytes r = 0 \<or> fs_MaxCapacityBytes f \<le> getLimitBytes r)
   | Inl e \<Rightarrow> statusCode e = AlreadyExists \<and> fs_MaxCapacityBytes f \<noteq> 0 \<and>
       (fs_MaxCapacityBytes f < getRequiredBytes r \<or>
        getLimitBytes r \<noteq> 0 \<and> getLimitBytes r < fs_MaxCapacityBytes f)"
  by (auto simp: validateExistingFilesystemCapacity_def Let_def)

text \<open>A new filesystem requested with a valid range gets a capacity that a repetition of the
  request accepts: the lookup path takes it as compatible.\<close>

lemma requestedCapacity_compatible:
  assumes "0 \<le> getRequiredBytes r" and "0 \<le> getLimitBytes r"
    and "getRequiredBytes r \<le> getLimitBytes r \<or> getLimitBytes r = 0"
    and "fs_MaxCapacityBytes f = requestedCapacityBytes r"
  shows "validateExistingFilesystemCapacity f r = Inr ()"
  using assms
  by (auto simp: validateExistingFilesystemCapacity_def requestedCapacityBytes_def getRequiredBytes_def
      getLimitBytes_def Let_def split: option.splits if_splits)

definition sampleFilesystem :: "int \<Rightarrow> NFSFilesystem" where
  "sampleFilesystem c =
     \<lparr>fs_ID = 1, fs_SpaceID = 1, fs_Label = ''pvc-1'', fs_Region = ''us-east'', fs_MaxCapacityBytes = c,
      fs_ProtocolVersions = [NFSProtocolVersionV4], fs_Status = NFSFilesystemStatusActive,
      fs_MountTargetIPs = [], fs_MountTargetFQDN = None, fs_SourceSnapshotID = None, fs_Tags = []\<rparr>"

theorem requestedCapacity_compatible_witness:
  "validateExistingFilesystemCapacity
     (sampleFilesystem 1000) (Some \<lparr>cap_RequiredBytes = 1000, cap_LimitBytes = 2000\<rparr>) = Inr ()"
  using requestedCapacity_compatible
    [of "Some \<lparr>cap_RequiredBytes = 1000, cap_LimitBytes = 2000\<rparr>" "sampleFilesystem 1000"]
  by (simp add: getRequiredBytes_def getLimitBytes_def requestedCapacityBytes_def
      sampleFilesystem_def)

end
