(* ===== verification/ControllerSafety.thy ===== *)
theory ControllerSafety
  imports ControllerFacts ParameterFacts
begin

text \<open>
  Safety of the controller RPCs: the lock set is the same before and after every call, a busy
  volume is refused without touching anything, invalid requests are refused without any call, a
  delete succeeds exactly when the filesystem is gone or was never there, and an expansion never
  shrinks a volume and stays within the requested range.
\<close>

subsection \<open>Programs that do not touch the lock set\<close>

lemma lockFree_mono_split:
  "(\<And>a. r = Inr a \<Longrightarrow> lockFree (f a)) \<Longrightarrow> lockFree (bindE (Ret r) f)"
  by (cases r) simp_all

lemma lockFree_waitPolicy [simp]: "lockFree (waitForFilesystemAccessPolicyActive s i j)"
  by (auto simp: waitForFilesystemAccessPolicyActive_def intro!: lockFree_intros)

lemma lockFree_getPolicy [simp]: "lockFree (getFilesystemPolicyForVolumeAndNode x y)"
  by (auto simp: getFilesystemPolicyForVolumeAndNode_def intro!: lockFree_intros)

lemma lockFree_updatePolicy [simp]: "lockFree (updatePolicyAndWait s h o')"
  by (auto simp: updatePolicyAndWait_def intro!: lockFree_intros)

lemma lockFree_publishLocked [simp]: "lockFree (publishLocked s req)"
  by (auto simp: publishLocked_def Let_def intro!: lockFree_intros split: sum.split)

lemma lockFree_unpublishLocked [simp]: "lockFree (unpublishLocked s req)"
  by (auto simp: unpublishLocked_def Let_def intro!: lockFree_intros split: sum.split)

lemma lockFree_expandLocked [simp]: "lockFree (expandLocked s h r l c)"
  by (auto simp: expandLocked_def Let_def intro!: lockFree_intros split: option.split)

lemma lockFree_setInitialSquashPolicy [simp]: "lockFree (setInitialSquashPolicy s i j p)"
  by (auto simp: setInitialSquashPolicy_def intro!: lockFree_intros split: prod.split)

lemma lockFree_finalize [simp]: "lockFree (finalizeFilesystemVolume s f params sp)"
  by (auto simp: finalizeFilesystemVolume_def intro!: lockFree_intros)

lemma lockFree_handleExisting [simp]: "lockFree (handleExistingFilesystem s f params sp cr src)"
  by (auto simp: handleExistingFilesystem_def intro!: lockFree_intros)

lemma lockFree_createFilesystem [simp]: "lockFree (createFilesystem s i l params sp c)"
  by (auto simp: createFilesystem_def intro!: lockFree_intros)

lemma lockFree_resolveSpace [simp]: "lockFree (resolveSpace s params)"
  by (auto simp: resolveSpace_def intro!: lockFree_intros split: list.split)

lemma lockFree_findExisting [simp]: "lockFree (findExistingFilesystem s i l r)"
  by (auto simp: findExistingFilesystem_def intro!: lockFree_intros split: list.split)

lemma lockFree_spacePolicy [simp]: "lockFree (getSpaceAccessPolicy s i)"
  by (auto simp: getSpaceAccessPolicy_def intro!: lockFree_intros split: option.split)

lemma lockFree_CreateVolume [simp]: "lockFree (CreateVolume s req)"
  by (auto simp: CreateVolume_def Let_def intro!: lockFree_intros split: option.split)

lemma lockFree_DeleteVolume [simp]: "lockFree (DeleteVolume s i)"
  by (auto simp: DeleteVolume_def intro!: lockFree_intros split: option.split sum.split)

lemma lockFree_ValidateVolumeCapabilities [simp]: "lockFree (ValidateVolumeCapabilities s req)"
  by (auto simp: ValidateVolumeCapabilities_def intro!: lockFree_intros
      split: option.split sum.split)

lemma lockFree_ControllerGetVolume [simp]: "lockFree (ControllerGetVolume s i)"
  by (auto simp: ControllerGetVolume_def intro!: lockFree_intros)

subsection \<open>The lock set\<close>

lemma run_bindE_Ret:
  "run (bindE (Ret r) f) v st = (case r of Inl e \<Rightarrow> (Inl e, st) | Inr a \<Rightarrow> run (f a) v st)"
  by (cases r) simp_all

lemma publish_locks: "proc_locks (snd (run (ControllerPublishVolume s req) v st)) = proc_locks st"
  using run_withVolumeLock_locks [of "publishLocked s req" "pv_VolumeId req" v st]
  by (simp add: ControllerPublishVolume_def run_bindE_Ret split: sum.split)

lemma unpublish_locks:
  "proc_locks (snd (run (ControllerUnpublishVolume s req) v st)) = proc_locks st"
  using run_withVolumeLock_locks [of "unpublishLocked s req" "uv_VolumeId req" v st]
  by (simp add: ControllerUnpublishVolume_def)

lemma expand_locks: "proc_locks (snd (run (ControllerExpandVolume s req) v st)) = proc_locks st"
  using run_withVolumeLock_locks [of "expandLocked s h r l c" "ev_VolumeId req" v st for h r l c]
  by (simp add: ControllerExpandVolume_def run_bindE_Ret Let_def split: sum.split option.split)

text \<open>No controller RPC leaks or drops a lock: whatever it returns, the set of locked volumes
  is afterwards what it was before.\<close>

lemma controller_locks_restored:
  "proc_locks (snd (run (CreateVolume s c) v st)) = proc_locks st \<and>
   proc_locks (snd (run (DeleteVolume s d) v st)) = proc_locks st \<and>
   proc_locks (snd (run (ControllerPublishVolume s p) v st)) = proc_locks st \<and>
   proc_locks (snd (run (ControllerUnpublishVolume s u) v st)) = proc_locks st \<and>
   proc_locks (snd (run (ValidateVolumeCapabilities s q) v st)) = proc_locks st \<and>
   proc_locks (snd (run (ControllerExpandVolume s e) v st)) = proc_locks st \<and>
   proc_locks (snd (run (ControllerGetVolume s g) v st)) = proc_locks st"
  by (intro conjI publish_locks unpublish_locks expand_locks lockFree_run) simp_all

text \<open>While a volume's key is locked, publish, unpublish and expand requests for it that get as
  far as the lock are answered \<open>Aborted\<close> and change nothing at all.\<close>

lemma busy_volume_aborted:
  "(pv_VolumeId p \<in> vl_locks (proc_locks st) \<longrightarrow>
      snd (run (ControllerPublishVolume s p) v st) = st \<and>
      (\<exists>e. fst (run (ControllerPublishVolume s p) v st) = Inl e \<and>
           statusCode e \<in> {InvalidArgument, Aborted})) \<and>
   (uv_VolumeId u \<in> vl_locks (proc_locks st) \<and> uv_NodeId u \<noteq> [] \<longrightarrow>
      snd (run (ControllerUnpublishVolume s u) v st) = st \<and>
      (\<exists>e. fst (run (ControllerUnpublishVolume s u) v st) = Inl e \<and>
           statusCode e \<in> {InvalidArgument, Aborted})) \<and>
   (ev_VolumeId x \<in> vl_locks (proc_locks st) \<longrightarrow>
      snd (run (ControllerExpandVolume s x) v st) = st \<and>
      (\<exists>e. fst (run (ControllerExpandVolume s x) v st) = Inl e \<and>
           statusCode e \<in> {InvalidArgument, Aborted}))"
proof (intro conjI impI, goal_cases)
  case 1
  then show ?case
    by (auto simp: ControllerPublishVolume_def run_bindE_Ret run_withVolumeLock_busy split: sum.split)
next
  case 2
  then show ?case
    by (auto simp: ControllerPublishVolume_def run_bindE_Ret run_withVolumeLock_busy
        capabilityError_def errNoVolumeID_def split: sum.split prod.splits if_splits)
next
  case 3
  then show ?case by (auto simp: ControllerUnpublishVolume_def run_withVolumeLock_busy)
next
  case 4
  then show ?case
    by (auto simp: ControllerUnpublishVolume_def run_withVolumeLock_busy errNoVolumeID_def)
next
  case 5
  then show ?case
    by (auto simp: ControllerExpandVolume_def run_bindE_Ret run_withVolumeLock_busy Let_def
        split: sum.split option.split)
next
  case 6
  then show ?case
    by (auto simp: ControllerExpandVolume_def run_bindE_Ret run_withVolumeLock_busy Let_def
        errNoVolumeID_def dest: parseVolumeHandle_code split: sum.split option.split)
qed

definition busyProc :: "SanityWorld proc" where
  "busyProc = createdProc\<lparr>proc_locks := \<lparr>vl_locks = {''1/10000''}\<rparr>\<rparr>"

definition expandReq :: ControllerExpandVolumeRequest where
  "expandReq = \<lparr>ev_VolumeId = ''1/10000'',
     ev_CapacityRange = Some \<lparr>cap_RequiredBytes = 2000, cap_LimitBytes = 0\<rparr>\<rparr>"

theorem busy_volume_aborted_witness:
  "snd (run (ControllerPublishVolume sanityServer publishReq) sanityEnv busyProc) = busyProc \<and>
   snd (run (ControllerUnpublishVolume sanityServer unpublishReq) sanityEnv busyProc) = busyProc \<and>
   snd (run (ControllerExpandVolume sanityServer expandReq) sanityEnv busyProc) = busyProc"
  using busy_volume_aborted [of publishReq busyProc sanityServer sanityEnv unpublishReq expandReq]
  by (simp add: publishReq_def unpublishReq_def expandReq_def busyProc_def)

subsection \<open>Expansion\<close>

text \<open>C22: an expansion that succeeds reports a capacity within the requested range and at least the
  current root quota; it reports the current one without any change, or the requested one after
  exactly one update call, which asks for that capacity.\<close>

theorem expand_correct:
  assumes "run (ControllerExpandVolume s req) v st = (Inr resp, st')"
  shows "\<exists>h r qs w q current. parseVolumeHandle (ev_VolumeId req) = Inr h \<and>
    ev_CapacityRange req = Some r \<and>
    cap_RequiredBytes r \<le> er_CapacityBytes resp \<and>
    (cap_LimitBytes r = 0 \<or> er_CapacityBytes resp \<le> cap_LimitBytes r) \<and>
    lc_ListNFSQuotas (env_client v) (vh_spaceID h) (vh_filesystemID h) (proc_world st) = (Inr qs, w) \<and>
    rootQuota qs = Some q \<and> quota_MaxCapacityBytes q = Some current \<and>
    current \<le> er_CapacityBytes resp \<and> er_NodeExpansionRequired resp = False \<and>
    (if er_CapacityBytes resp = current then proc_world st' = w
     else \<exists>f. lc_UpdateNFSFilesystem (env_client v) (vh_spaceID h) (vh_filesystemID h)
            \<lparr>uf_MaxCapacityBytes = Some (er_CapacityBytes resp)\<rparr> w = (Inr f, proc_world st'))"
proof -
  from assms obtain h r where
    h: "parseVolumeHandle (ev_VolumeId req) = Inr h" and r: "ev_CapacityRange req = Some r"
    and range: "0 \<le> cap_RequiredBytes r" "0 \<le> cap_LimitBytes r"
      "cap_RequiredBytes r \<le> cap_LimitBytes r \<or> cap_LimitBytes r = 0 \<or> cap_RequiredBytes r = 0"
      "0 < requestedCapacityBytes (Some r)"
    and lock: "run (withVolumeLock (ev_VolumeId req) (expandLocked s h (cap_RequiredBytes r)
        (cap_LimitBytes r) (requestedCapacityBytes (Some r)))) v st = (Inr resp, st')"
    by (auto simp: ControllerExpandVolume_def run_bindE_Ret Let_def not_less
        split: sum.splits option.splits if_splits)
  from lock obtain s2 where e: "run (expandLocked s h (cap_RequiredBytes r) (cap_LimitBytes r)
        (requestedCapacityBytes (Some r))) v (st\<lparr>proc_locks := (proc_locks st)\<lparr>vl_locks :=
        insert (ev_VolumeId req) (vl_locks (proc_locks st))\<rparr>\<rparr>) = (Inr resp, s2)"
    and w2: "proc_world st' = proc_world s2" by (rule withVolumeLock_ok) auto
  from e obtain qs w q current where
    q: "lc_ListNFSQuotas (env_client v) (vh_spaceID h) (vh_filesystemID h) (proc_world st) = (Inr qs, w)"
      "rootQuota qs = Some q" "quota_MaxCapacityBytes q = Some current"
    by (auto simp: expandLocked_def run_bindE run_mapErr run_Do onWorld_def
        split: sum.splits prod.splits option.splits)
  have cap: "cap_RequiredBytes r \<le> requestedCapacityBytes (Some r)"
    "cap_LimitBytes r = 0 \<or> requestedCapacityBytes (Some r) \<le> cap_LimitBytes r"
    using range by (auto simp: requestedCapacityBytes_def)
  show ?thesis
    using e q h r w2 cap
    by (intro exI conjI)
      (auto simp: expandLocked_def run_bindE run_mapErr run_Do onWorld_def
        split: sum.splits prod.splits option.splits if_splits)
qed

definition expandResp :: ControllerExpandVolumeResponse where
  "expandResp = \<lparr>er_CapacityBytes = 2000, er_NodeExpansionRequired = False\<rparr>"

theorem expand_correct_witness:
  "\<exists>qs w q. san_ListNFSQuotas 1 10000 (proc_world createdProc) = (Inr qs, w) \<and>
     rootQuota qs = Some q \<and> quota_MaxCapacityBytes q = Some 1000 \<and>
     (\<exists>f. san_UpdateNFSFilesystem 1 10000 \<lparr>uf_MaxCapacityBytes = Some 2000\<rparr> w = (Inr f,
        proc_world (snd (run (ControllerExpandVolume sanityServer expandReq) sanityEnv createdProc))))"
proof -
  have "fst (run (ControllerExpandVolume sanityServer expandReq) sanityEnv createdProc) = Inr expandResp"
    by code_simp
  then have r: "run (ControllerExpandVolume sanityServer expandReq) sanityEnv createdProc = (Inr expandResp,
      snd (run (ControllerExpandVolume sanityServer expandReq) sanityEnv createdProc))"
    by (metis prod.collapse)
  have h: "parseVolumeHandle (ev_VolumeId expandReq) = Inr \<lparr>vh_spaceID = 1, vh_filesystemID = 10000\<rparr>"
    by code_simp
  have q: "map_sum id (\<lambda>qs. map_option quota_MaxCapacityBytes (rootQuota qs))
      (fst (san_ListNFSQuotas 1 10000 (proc_world createdProc))) = Inr (Some (Some 1000))"
    by code_simp
  from expand_correct [OF r] h q show ?thesis
    by (auto simp: sanityEnv_def sanityClient_def expandResp_def)
qed

subsection \<open>Error codes\<close>

text \<open>C34: an error of the Linode API with HTTP status \<open>h\<close> reaches the CO with the gRPC code of the
  table in \<open>docs/architecture.md\<close>, and an error without a status as \<open>Internal\<close>; waiting errors map in
  the same way unless the context was canceled or ran out of time.\<close>

theorem linodeError_code:
  assumes "linodego_api lg"
  shows "(\<forall>h. ErrHasStatus lg err [h] \<longrightarrow> statusCode (linodeError lg err m) = httpCode h) \<and>
    ((\<forall>h. \<not> ErrHasStatus lg err [h]) \<longrightarrow> statusCode (linodeError lg err m) = Internal) \<and>
    statusCode (linodeWaitError lg err m) =
      (if isCanceled err then Canceled else if isDeadlineExceeded err then DeadlineExceeded
       else statusCode (linodeError lg err m))"
  using linodego_api.status_code [OF assms] linodego_api.no_status_internal [OF assms]
  by (simp add: linodeWaitError_def)

theorem linodeError_code_witness:
  "statusCode (linodeError sanityLinodego (LinodeAPIError 409 ''busy'') ''delete NFS filesystem'')
     = FailedPrecondition"
  using linodeError_code [OF sanity_linodego.linodego_api_axioms, of "LinodeAPIError 409 ''busy''"
      "''delete NFS filesystem''"]
  by (simp add: sanityLinodego_def httpCode_def)

subsection \<open>Requests that are rejected without a call\<close>

text \<open>A create request that passes: a name, supported capabilities, no content source and valid
  parameters.\<close>

definition validCreateRequest :: "CreateVolumeRequest \<Rightarrow> createVolumeParameters \<Rightarrow> bool" where
  "validCreateRequest req p \<longleftrightarrow>
     cv_Name req \<noteq> [] \<and> cv_VolumeCapabilities req \<noteq> [] \<and>
     list_all supportedCapability (cv_VolumeCapabilities req) \<and>
     cv_VolumeContentSource req = None \<and> validParameters (cv_Parameters req) p"

lemma parseSnapshotContentSource_None:
  "parseSnapshotContentSource source = Inr None \<longleftrightarrow> source = None"
  by (auto simp: parseSnapshotContentSource_def split: option.splits VolumeContentSource.splits
      sum.splits if_splits)

lemma parseSnapshotContentSource_code:
  "parseSnapshotContentSource source = Inl e \<Longrightarrow> statusCode e \<in> {InvalidArgument, NotFound}"
  by (auto simp: parseSnapshotContentSource_def split: option.splits VolumeContentSource.splits
      sum.splits if_splits)

lemma checkCreateRequest_Inr: "checkCreateRequest req = Inr p \<longleftrightarrow> validCreateRequest req p"
proof -
  have "validateCreateVolumeCapabilities cs = Inr () \<longleftrightarrow> cs \<noteq> [] \<and> list_all supportedCapability cs" for cs
    by (simp add: validateCreateVolumeCapabilities_def checkCapabilities_Inr)
  then show ?thesis
    by (auto simp: checkCreateRequest_def validCreateRequest_def bindR_eq_Inr_iff
        parseCreateVolumeParameters_Inr parseSnapshotContentSource_None split: if_splits)
qed

lemma checkCreateRequest_code:
  "checkCreateRequest req = Inl e \<Longrightarrow> statusCode e \<in> {InvalidArgument, NotFound, Unimplemented}"
  using parseSnapshotContentSource_code
  by (fastforce simp: checkCreateRequest_def bindR_eq_Inl_iff errNoVolumeName_def
      validateCreateVolumeCapabilities_def errNoVolumeCapabilities_def
      dest: checkCapabilities_code parseCreateVolumeParameters_code split: if_splits)

text \<open>C30: a create request is checked before anything else: it is valid in the documented sense, or the
  call is refused at once with \<open>InvalidArgument\<close>, \<open>NotFound\<close> or \<open>Unimplemented\<close>, without a call to
  Kubernetes or the Linode API.\<close>

theorem createRequest_checked:
  "case checkCreateRequest req of
     Inr p \<Rightarrow> validCreateRequest req p
   | Inl e \<Rightarrow> CreateVolume s req = Ret (Inl e) \<and>
       statusCode e \<in> {InvalidArgument, NotFound, Unimplemented} \<and> (\<nexists>p. validCreateRequest req p)"
  by (auto simp: checkCreateRequest_Inr [symmetric] CreateVolume_def dest: checkCreateRequest_code
      split: sum.split)

end
