(* ===== verification/NodeFacts.thy ===== *)
theory NodeFacts
  imports NodeServer ControllerSafety
begin

text \<open>
  What the node service promises. The locale \<open>mount_host\<close> is the contract of the mounter and the file
  system over the table of mounted paths; it follows the documentation of \<open>k8s.io/utils/mount\<close>, whose
  \<open>IsLikelyNotMountPoint\<close> may miss a bind mount but never reports a mount that is not there. Under it
  staging and publishing mount exactly what the volume context and the capability ask for, at
  exactly one path, and a failed staging changes no mount. Volume statistics are 64-bit products.
\<close>

subsection \<open>Locked operations\<close>

lemma withVolumeLock_cases:
  assumes "run (withVolumeLock key body) v st = (r, st')"
  obtains (busy) e where "r = Inl e" "st' = st"
    | (free) s2 where "run body v (st\<lparr>proc_locks := (proc_locks st)\<lparr>vl_locks :=
          insert key (vl_locks (proc_locks st))\<rparr>\<rparr>) = (r, s2)"
        "proc_world st' = proc_world s2"
proof (cases "key \<in> vl_locks (proc_locks st)")
  case True
  with assms show thesis by (intro busy) (auto simp: run_withVolumeLock_busy)
next
  case False
  with assms show thesis by (auto simp: run_withVolumeLock_free intro: free split: prod.splits)
qed

subsection \<open>Mount targets\<close>

text \<open>The targets with a native IPv6 address, and the first of them.\<close>

definition usableTargets :: "string list \<Rightarrow> string list" where
  "usableTargets ts = filter (\<lambda>t. mountTargetIP t \<noteq> []) ts"

definition firstOr :: "string \<Rightarrow> string list \<Rightarrow> string" where
  "firstOr d ts = (case ts of [] \<Rightarrow> d | t # _ \<Rightarrow> t)"

lemma mountTargetIP_Nil [simp]: "mountTargetIP [] = []"
  by (simp add: mountTargetIP_def)

lemma take_update_Suc: "c < length ts \<Longrightarrow> take (Suc c) (ts[c := x]) = take c ts @ [x]"
  by (simp add: take_Suc_conv_app_nth)

text \<open>Overwriting the front never reaches the targets still to be read.\<close>

lemma mountTargetsLoop_spec:
  assumes "count \<le> i" and "i + left = length targets"
    and "mountTargetsLoop left i targets source count = (s', t', c')"
  shows "s' = (if source = [] then firstOr [] (usableTargets (drop i targets)) else source) \<and>
    take c' t' = take count targets @ map mountTargetIP (usableTargets (drop i targets))"
  using assms
proof (induction left arbitrary: i targets source count)
  case 0
  then show ?case by (auto simp: usableTargets_def firstOr_def)
next
  case (Suc left)
  let ?t = "targets ! i"
  from Suc.prems have i: "i < length targets" by simp
  then have dr: "drop i targets = ?t # drop (Suc i) targets" by (simp add: Cons_nth_drop_Suc)
  show ?case
  proof (cases "mountTargetIP ?t = []")
    case True
    with Suc.IH [of count "Suc i" targets source] Suc.prems dr show ?thesis
      by (simp add: usableTargets_def)
  next
    case False
    then have "?t \<noteq> []" by auto
    let ?ts = "targets[count := mountTargetIP ?t]"
    let ?source = "if source = [] then ?t else source"
    have "drop (Suc i) ?ts = drop (Suc i) targets" using Suc.prems(1) by simp
    moreover have "take (Suc count) ?ts = take count targets @ [mountTargetIP ?t]"
      by (rule take_update_Suc) (use Suc.prems i in simp)
    moreover have "mountTargetsLoop left (Suc i) ?ts ?source (Suc count) = (s', t', c')"
      using Suc.prems(3) False by (simp add: Let_def)
    ultimately show ?thesis
      using Suc.IH [of "Suc count" "Suc i" ?ts ?source] Suc.prems(1,2) dr False \<open>?t \<noteq> []\<close>
      by (auto simp: usableTargets_def firstOr_def)
  qed
qed

lemma nodeMountTargets_cases:
  "nodeMountTargets values =
     (if mapGet values volumeContextMountTarget \<noteq> [] then (mapGet values volumeContextMountTarget, [])
      else
        let usable = usableTargets (splitByte CHR '','' (mapGet values volumeContextMountTargetIPs)) in
        (firstOr [] usable, map mountTargetIP usable))"
proof -
  let ?ts = "splitByte CHR '','' (mapGet values volumeContextMountTargetIPs)"
  obtain s' t' c' where l: "mountTargetsLoop (length ?ts) 0 ?ts [] 0 = (s', t', c')"
    by (cases "mountTargetsLoop (length ?ts) 0 ?ts [] 0") auto
  from mountTargetsLoop_spec [OF _ _ l] l show ?thesis
    by (simp add: nodeMountTargets_def Let_def)
qed

text \<open>\<open>nodeMountTargets\<close> returns the FQDN target alone when there is one; otherwise its in-place loop
  computes the list of the native IPv6 addresses of the address targets, in order, and the first
  usable target as the mount source (none if there is no usable target).\<close>

lemma nodeMountTargets_spec:
  "nodeMountTargets values =
     (if mapGet values volumeContextMountTarget \<noteq> [] then (mapGet values volumeContextMountTarget, [])
      else
        let usable = usableTargets (splitByte CHR '','' (mapGet values volumeContextMountTargetIPs)) in
        (firstOr [] usable, map mountTargetIP usable))"
  by (rule nodeMountTargets_cases)

subsection \<open>The contract of the host\<close>

type_synonym mountEntry = "string \<times> string \<times> string list"

locale mount_host =
  fixes h :: "'w Host" and canon :: "string \<Rightarrow> string" and mounts :: "'w \<Rightarrow> string \<Rightarrow> mountEntry option"
  assumes likely:
      "h_IsLikelyNotMountPoint h p w = ((b, e), w') \<Longrightarrow>
         mounts w' = mounts w \<and> (b \<or> mounts w (canon p) \<noteq> None)"
    and mount:
      "h_Mount h s t f o' w = (r, w') \<Longrightarrow>
         mounts w' = (case r of None \<Rightarrow> (mounts w)(canon t \<mapsto> (s, f, o')) | Some e \<Rightarrow> mounts w)"
    and cleanup:
      "h_CleanupMountPoint h p c w = (r, w') \<Longrightarrow>
         (\<forall>q. q \<noteq> canon p \<longrightarrow> mounts w' q = mounts w q) \<and> (r = None \<longrightarrow> mounts w' (canon p) = None)"
    and mkdir: "h_MkdirAll h p w = (r, w') \<Longrightarrow> mounts w' = mounts w"

subsection \<open>Staging and publishing\<close>

text \<open>The mounts a staging request may make: with mTLS only, with or without it, or plain.\<close>

definition stageMounts :: "NodeStageVolumeRequest \<Rightarrow> string \<Rightarrow> string list \<Rightarrow> mountEntry set" where
  "stageMounts req source ips =
     (let options = stageOptions req ips;
          secure = (source, nfsFilesystemType, options @ [mtlsMountOption]);
          plain = (source, nfsFilesystemType, options);
          mode = mapGet (ns_VolumeContext req) volumeContextSpaceMTLSMode in
      if mode = mtlsModeRequired then {secure}
      else if mode = mtlsModeOptional then {secure, plain} else {plain})"

text \<open>Whether the check of the host takes a path for a mount point. Both handlers then succeed at once: they
  compare neither the source nor the options of what is mounted there with the request.\<close>

definition reportedMounted :: "'w env \<Rightarrow> string \<Rightarrow> 'w proc \<Rightarrow> bool" where
  "reportedMounted v path st \<longleftrightarrow> \<not> fst (fst (h_IsLikelyNotMountPoint (env_host v) path (proc_world st)))"

context mount_host
begin

lemma ensure_mounts:
  assumes "run (ensureMountPoint p) v st = (r, st')" and "env_host v = h"
  shows "mounts (proc_world st') = mounts (proc_world st) \<and>
    (r = Inr True \<longrightarrow> \<not> reportedMounted v p st) \<and> (r = Inr False \<longrightarrow> reportedMounted v p st) \<and>
    (reportedMounted v p st \<longrightarrow> mounts (proc_world st) (canon p) \<noteq> None)"
proof -
  obtain b e w1 where l: "h_IsLikelyNotMountPoint h p (proc_world st) = ((b, e), w1)"
    by (metis prod.collapse)
  note likely [OF l]
  with l assms(1) show ?thesis
    by (auto simp: ensureMountPoint_def reportedMounted_def run_simps assms(2) dest!: mkdir
        split: option.splits if_splits sum.splits prod.splits)
qed

lemma stage_mounts:
  assumes "run (nodeStageVolume req source ips) v st = (r, st')" and "env_host v = h"
  shows "case r of
      Inl e \<Rightarrow> mounts (proc_world st') = mounts (proc_world st)
    | Inr u \<Rightarrow> \<exists>m \<in> stageMounts req source ips.
        mounts (proc_world st') = (mounts (proc_world st))(canon (ns_StagingTargetPath req) \<mapsto> m)"
  using assms(1)
  by (auto simp: nodeStageVolume_def mountStage_def stageMounts_def run_simps assms(2) Let_def
      mtlsModeRequired_def mtlsModeOptional_def dest!: mount
      split: if_splits sum.splits prod.splits option.splits)

lemma stage_locked:
  assumes "run (stageLocked req source ips) v st = (r, st')" and "env_host v = h"
  shows "case r of
      Inl e \<Rightarrow> mounts (proc_world st') = mounts (proc_world st)
    | Inr u \<Rightarrow>
        if reportedMounted v (ns_StagingTargetPath req) st
        then mounts (proc_world st) (canon (ns_StagingTargetPath req)) \<noteq> None \<and>
          mounts (proc_world st') = mounts (proc_world st)
        else \<exists>m \<in> stageMounts req source ips.
          mounts (proc_world st') = (mounts (proc_world st))(canon (ns_StagingTargetPath req) \<mapsto> m)"
proof -
  obtain r1 st1 where e: "run (ensureMountPoint (ns_StagingTargetPath req)) v st = (r1, st1)"
    by fastforce
  note em = ensure_mounts [OF e assms(2)]
  show ?thesis
  proof (cases "r1 = Inr True")
    case False
    with assms(1) e em show ?thesis
      by (auto simp: stageLocked_def run_bindE run_Ret split: sum.splits if_splits)
  next
    case True
    with assms(1) e have "run (nodeStageVolume req source ips) v st1 = (r, st')"
      by (simp add: stageLocked_def run_bindE)
    from stage_mounts [OF this assms(2)] em True show ?thesis
      by (auto split: sum.splits)
  qed
qed

lemma publish_mounts:
  assumes "run (nodePublishLocked req) v st = (r, st')" and "env_host v = h"
  shows "case r of
      Inl e \<Rightarrow> \<forall>q. q \<noteq> canon (np_StagingTargetPath req) \<longrightarrow> mounts (proc_world st') q = mounts (proc_world st) q
    | Inr u \<Rightarrow>
        if reportedMounted v (np_TargetPath req) st
        then mounts (proc_world st) (canon (np_TargetPath req)) \<noteq> None \<and>
          mounts (proc_world st') = mounts (proc_world st)
        else mounts (proc_world st') = (mounts (proc_world st))
          (canon (np_TargetPath req) \<mapsto> (np_StagingTargetPath req, nfsFilesystemType, publishOptions req))"
proof -
  obtain r1 st1 where e: "run (ensureMountPoint (np_TargetPath req)) v st = (r1, st1)"
    by fastforce
  note em = ensure_mounts [OF e assms(2)]
  show ?thesis
  proof (cases "r1 = Inr True")
    case False
    with assms(1) e em show ?thesis
      by (auto simp: nodePublishLocked_def run_bindE run_Ret split: sum.splits if_splits)
  next
    case True
    with assms(1) e have "run (nodePublishVolume req) v st1 = (r, st')"
      by (simp add: nodePublishLocked_def run_bindE)
    then have "case r of
        Inl e \<Rightarrow> \<forall>q. q \<noteq> canon (np_StagingTargetPath req) \<longrightarrow> mounts (proc_world st') q = mounts (proc_world st1) q
      | Inr u \<Rightarrow> mounts (proc_world st') = (mounts (proc_world st1))
          (canon (np_TargetPath req) \<mapsto> (np_StagingTargetPath req, nfsFilesystemType, publishOptions req))"
      by (auto simp: nodePublishVolume_def run_simps assms(2) dest!: mount cleanup
          split: option.splits prod.splits)
    with em True show ?thesis by (cases r) simp_all
  qed
qed

lemma cleanup_mounts:
  assumes "run (cleanupAt p m) v st = (r, st')" and "env_host v = h"
  shows "(\<forall>q. q \<noteq> canon p \<longrightarrow> mounts (proc_world st') q = mounts (proc_world st) q) \<and>
    (r = Inr () \<longrightarrow> mounts (proc_world st') (canon p) = None)"
  using assms(1)
  by (auto simp: cleanupAt_def run_simps assms(2) dest!: cleanup
      split: option.splits prod.splits sum.splits)

end

subsection \<open>The host of the sanity suite\<close>

text \<open>The mounter of the suite satisfies the contract over cleaned paths, whatever operating system is
  below it, as long as that does not touch the mounter and \<open>mount.CleanupMountPoint\<close> unmounts the path it is
  given, as its documentation says.\<close>

locale fake_host =
  fixes os :: "('f, 'i, 'd fakeSanityMounter_scheme) osPackage"
    and pkg :: "('x, 'd fakeSanityMounter_scheme) mountPackage"
    and statfs :: "string \<Rightarrow> 'd fakeSanityMounter_scheme \<Rightarrow> (goError + Statfs) \<times> 'd fakeSanityMounter_scheme"
  assumes os_mkdir: "os_MkdirAll os p perm w = (r, w') \<Longrightarrow> fm_mounts w' = fm_mounts w"
    and os_stat: "os_Stat os p w = (r', w') \<Longrightarrow> fm_mounts w' = fm_mounts w"
    and cleanup_point:
      "mount_CleanupMountPoint pkg p (fakeMounterInterface os) c w = (r, w') \<Longrightarrow>
         (\<forall>q. q \<noteq> Clean p \<longrightarrow> fakeTable w' q = fakeTable w q) \<and>
         (r = None \<longrightarrow> fakeTable w' (Clean p) = None)"

sublocale fake_host \<subseteq> host: mount_host
  "nodeHost (newFakeSanitySafeMounter (fakeMounterInterface os)) pkg (NewFileSystem os) statfs" Clean fakeTable
proof (unfold_locales, goal_cases)
  case (1 p w b e w')
  then show ?case
    using fake_likely_table [of os p w b e w'] os_stat
    by (simp add: nodeHost_def newFakeSanitySafeMounter_def fakeMounterInterface_def)
next
  case (2 s t f o' w r w')
  then show ?case
    using fake_mount_table [of os s t f o' w r w'] os_mkdir
    by (simp add: nodeHost_def newFakeSanitySafeMounter_def fakeMounterInterface_def)
next
  case (3 p c w r w')
  then show ?case
    using cleanup_point [of p c w r w'] by (simp add: nodeHost_def newFakeSanitySafeMounter_def)
next
  case (4 p w r w')
  then show ?case
    using os_mkdir by (auto simp: nodeHost_def NewFileSystem_def OSFileSystem_MkdirAll_def fakeTable_def fun_eq_iff)
qed

text \<open>An operating system for the witnesses, whose files are directories: making one makes those above
  it, and nothing can be opened.\<close>

definition pathPrefixes :: "string \<Rightarrow> string list" where
  "pathPrefixes path =
     map (\<lambda>xs. Clean (joinStr ''/'' xs)) (tl (prefixes (splitByte CHR ''/'' path)))"

definition sanityOS :: "(unit, unit, SanityWorld) osPackage" where
  "sanityOS =
     \<lparr>os_MkdirAll = (\<lambda>path perm w.
        if path = [] then (Some (SysError ENOENT path), w)
        else (None, w\<lparr>sw_dirs := List.union (pathPrefixes (Clean path)) (sw_dirs w)\<rparr>)),
      os_Stat = (\<lambda>path w.
        (if path \<noteq> [] \<and> (Clean path \<in> set (sw_dirs w) \<or> Clean path = ''/'') then Inr ()
         else Inl (SysError ENOENT path), w)),
      os_Remove = (\<lambda>path w. (None, w\<lparr>sw_dirs := removeAll (Clean path) (sw_dirs w)\<rparr>)),
      os_OpenFile = (\<lambda>name flag perm w. ((None, Some (SysError ENOENT name)), w)),
      os_Open = (\<lambda>name w. ((None, Some (SysError ENOENT name)), w)),
      filepath_Glob = (\<lambda>pattern w. (Inr [], w)),
      filepath_EvalSymlinks = (\<lambda>path w. (Inr (Clean path), w))\<rparr>"

text \<open>\<open>mount.CleanupMountPoint\<close> as its documentation describes it: unmount, then remove the directory.\<close>

definition sanityMountPackage :: "(unit, SanityWorld) mountPackage" where
  "sanityMountPackage =
     \<lparr>mount_New = (\<lambda>command. fakeMounterInterface sanityOS), exec_New = (),
      mount_CleanupMountPoint = (\<lambda>path mounter extensive w.
        case m_Unmount mounter path w of
          (None, w') \<Rightarrow> os_Remove sanityOS path w'
        | (Some err, w') \<Rightarrow> (Some err, w'))\<rparr>"

definition sampleStatfs :: Statfs where
  "sampleStatfs = \<lparr>sf_Bsize = 4096, sf_Blocks = 1000, sf_Bfree = 600, sf_Bavail = 500,
     sf_Files = 50, sf_Ffree = 20\<rparr>"

definition host_Statfs :: "string \<Rightarrow> SanityWorld \<Rightarrow> (goError + Statfs) \<times> SanityWorld" where
  "host_Statfs p w =
     (if fakeTable w (Clean p) \<noteq> None then Inr sampleStatfs else Inl (SysError ENOENT p), w)"

definition sanityHost :: "SanityWorld Host" where
  "sanityHost =
     nodeHost (newFakeSanitySafeMounter (fakeMounterInterface sanityOS)) sanityMountPackage
       (NewFileSystem sanityOS) host_Statfs"

interpretation sanity_fake: fake_host sanityOS sanityMountPackage host_Statfs
proof (unfold_locales, goal_cases)
  case (1 p perm w r w')
  then show ?case by (auto simp: sanityOS_def split: if_splits)
next
  case (2 p w r w')
  then show ?case by (auto simp: sanityOS_def split: if_splits)
next
  case (3 p c w r w')
  then show ?case
    using fake_unmount_table [of p w]
    by (cases "p = []")
      (auto simp: sanityMountPackage_def fakeMounterInterface_def sanityOS_def fake_Unmount_def fakeTable_def
        delete_conv' split: if_splits)
qed

definition nodeEnv :: "SanityWorld env" where
  "nodeEnv = sanityEnv\<lparr>env_host := sanityHost\<rparr>"

lemma nodeEnv_host: "mount_host (env_host nodeEnv) Clean fakeTable"
  using sanity_fake.host.mount_host_axioms by (simp add: nodeEnv_def sanityHost_def)

definition sanityNodeServer :: NodeServer where
  "sanityNodeServer = \<lparr>nsrv_driver = cs_driver sanityServer\<rparr>"

lemma Clean_samples [simp]: "Clean ''/staging'' = ''/staging''" "Clean ''/target'' = ''/target''"
  by code_simp+

definition mtlsStageReq :: NodeStageVolumeRequest where
  "mtlsStageReq =
     \<lparr>ns_VolumeId = ''1/10000'', ns_StagingTargetPath = ''/staging'',
      ns_VolumeCapability = mountCap,
      ns_VolumeContext = [(''mount-target'', ''nfs.example:/vol''), (''mtls-mode'', ''required'')]\<rparr>"

definition stagedProc :: "SanityWorld proc" where
  "stagedProc = snd (run (NodeStageVolume sanityNodeServer mtlsStageReq) nodeEnv sanityProc)"

definition nodePublishReq :: NodePublishVolumeRequest where
  "nodePublishReq =
     \<lparr>np_VolumeId = ''1/10000'', np_StagingTargetPath = ''/staging'', np_TargetPath = ''/target'',
      np_VolumeCapability = mountCap, np_Readonly = True\<rparr>"

definition nodePublishedProc :: "SanityWorld proc" where
  "nodePublishedProc = snd (run (NodePublishVolume sanityNodeServer nodePublishReq) nodeEnv stagedProc)"

subsection \<open>Properties\<close>

lemma reportedMounted_locks [simp]: "reportedMounted v p (st\<lparr>proc_locks := l\<rparr>) = reportedMounted v p st"
  by (simp add: reportedMounted_def)

lemma stage_cases:
  assumes "mount_host (env_host v) canon mounts" and "run (NodeStageVolume s req) v st = (r, st')"
  shows "case r of
      Inl e \<Rightarrow> mounts (proc_world st') = mounts (proc_world st)
    | Inr u \<Rightarrow> \<exists>source ips. checkStageRequest req = Inr (source, ips) \<and>
        (if reportedMounted v (ns_StagingTargetPath req) st
         then mounts (proc_world st) (canon (ns_StagingTargetPath req)) \<noteq> None \<and>
           mounts (proc_world st') = mounts (proc_world st)
         else \<exists>m \<in> stageMounts req source ips.
           mounts (proc_world st') = (mounts (proc_world st))(canon (ns_StagingTargetPath req) \<mapsto> m))"
proof (cases "checkStageRequest req")
  case (Inl e)
  with assms(2) show ?thesis by (auto simp: NodeStageVolume_def)
next
  case (Inr si)
  obtain source ips where si: "si = (source, ips)" by (cases si)
  from assms(2) Inr si have "run (withVolumeLock (ns_VolumeId req) (stageLocked req source ips)) v st = (r, st')"
    by (simp add: NodeStageVolume_def)
  then show ?thesis
  proof (cases rule: withVolumeLock_cases)
    case busy
    then show ?thesis by simp
  next
    case (free s2)
    from mount_host.stage_locked [OF assms(1) free(1) refl] free(2) Inr si show ?thesis
      by (cases r) (auto split: if_splits)
  qed
qed

lemma stage_effect:
  assumes "mount_host (env_host v) canon mounts" and "run (NodeStageVolume s req) v st = (Inr u, st')"
  shows "\<exists>source ips m. checkStageRequest req = Inr (source, ips) \<and>
    mounts (proc_world st') = (mounts (proc_world st))(canon (ns_StagingTargetPath req) \<mapsto> m) \<and>
    (mounts (proc_world st) (canon (ns_StagingTargetPath req)) = Some m \<or> m \<in> stageMounts req source ips)"
proof -
  obtain source ips where c: "checkStageRequest req = Inr (source, ips)"
    "if reportedMounted v (ns_StagingTargetPath req) st
     then mounts (proc_world st) (canon (ns_StagingTargetPath req)) \<noteq> None \<and>
       mounts (proc_world st') = mounts (proc_world st)
     else \<exists>m \<in> stageMounts req source ips.
       mounts (proc_world st') = (mounts (proc_world st))(canon (ns_StagingTargetPath req) \<mapsto> m)"
    using stage_cases [OF assms] by auto
  show ?thesis
  proof (cases "reportedMounted v (ns_StagingTargetPath req) st")
    case True
    with c(2) obtain m where "mounts (proc_world st) (canon (ns_StagingTargetPath req)) = Some m" by auto
    with True c show ?thesis by (metis map_upd_triv)
  next
    case False
    with c show ?thesis by auto
  qed
qed

text \<open>C15: a successful \<open>NodeStageVolume\<close> of a path that the host does not report as a mount point mounts it with
  one of the NFS mounts that the volume context and capability call for (with \<open>xprtsec=mtls\<close> when mTLS is
  required) and changes no other mount. One of a path that it reports as a mount point changes nothing:
  whatever is mounted there, which is not compared with the request, stays; a path without a mount is
  never reported so. A failed staging changes no mount.\<close>

theorem stage_correct:
  assumes "mount_host (env_host v) canon mounts" and "run (NodeStageVolume s req) v st = (r, st')"
  shows "case r of
      Inl e \<Rightarrow> mounts (proc_world st') = mounts (proc_world st)
    | Inr u \<Rightarrow> \<exists>source ips. checkStageRequest req = Inr (source, ips) \<and>
        (if reportedMounted v (ns_StagingTargetPath req) st
         then mounts (proc_world st) (canon (ns_StagingTargetPath req)) \<noteq> None \<and>
           mounts (proc_world st') = mounts (proc_world st)
         else \<exists>m \<in> stageMounts req source ips.
           mounts (proc_world st') = (mounts (proc_world st))(canon (ns_StagingTargetPath req) \<mapsto> m))"
  using assms by (rule stage_cases)

text \<open>C16: when the volume context demands mTLS, a successful staging of a path that was not mounted
  mounts it with the option \<open>xprtsec=mtls\<close>: there is no fallback to an unencrypted mount.\<close>

theorem stage_mtls_required:
  assumes "mount_host (env_host v) canon mounts" and "run (NodeStageVolume s req) v st = (Inr (), st')"
    and "mounts (proc_world st) (canon (ns_StagingTargetPath req)) = None"
    and "mapGet (ns_VolumeContext req) volumeContextSpaceMTLSMode = mtlsModeRequired"
  shows "\<exists>source options. mounts (proc_world st') (canon (ns_StagingTargetPath req)) =
    Some (source, ''nfs'', options) \<and> ''xprtsec=mtls'' \<in> set options"
  using stage_effect [OF assms(1,2)] assms(3,4)
  by (auto simp: stageMounts_def mtlsMountOption_def nfsFilesystemType_def)

theorem stage_mtls_required_witness:
  "\<exists>source options. fakeTable (proc_world stagedProc) ''/staging'' = Some (source, ''nfs'', options)
     \<and> ''xprtsec=mtls'' \<in> set options"
proof -
  have "fst (run (NodeStageVolume sanityNodeServer mtlsStageReq) nodeEnv sanityProc) = Inr ()"
    by code_simp
  from unit_result [OF this] have
    "run (NodeStageVolume sanityNodeServer mtlsStageReq) nodeEnv sanityProc = (Inr (), stagedProc)"
    by (simp add: stagedProc_def)
  moreover have "fakeTable (proc_world sanityProc) (ns_StagingTargetPath mtlsStageReq) = None" by code_simp
  moreover have "mapGet (ns_VolumeContext mtlsStageReq) volumeContextSpaceMTLSMode = mtlsModeRequired"
    by code_simp
  ultimately show ?thesis
    using stage_mtls_required [OF nodeEnv_host, of sanityNodeServer mtlsStageReq sanityProc stagedProc]
    by (simp add: mtlsStageReq_def)
qed

theorem stage_correct_witness:
  "\<exists>source ips. checkStageRequest mtlsStageReq = Inr (source, ips) \<and>
     (\<exists>m \<in> stageMounts mtlsStageReq source ips.
        fakeTable (proc_world stagedProc) = (fakeTable (proc_world sanityProc))(''/staging'' \<mapsto> m))"
proof -
  have "fst (run (NodeStageVolume sanityNodeServer mtlsStageReq) nodeEnv sanityProc) = Inr ()"
    by code_simp
  from unit_result [OF this] have
    "run (NodeStageVolume sanityNodeServer mtlsStageReq) nodeEnv sanityProc = (Inr (), stagedProc)"
    by (simp add: stagedProc_def)
  moreover have "\<not> reportedMounted nodeEnv (ns_StagingTargetPath mtlsStageReq) sanityProc" by code_simp
  ultimately show ?thesis
    using stage_correct [OF nodeEnv_host, of sanityNodeServer mtlsStageReq sanityProc "Inr ()" stagedProc]
    by (simp add: mtlsStageReq_def)
qed

lemma node_publish_cases:
  assumes "mount_host (env_host v) canon mounts" and "run (NodePublishVolume s req) v st = (r, st')"
  shows "case r of
      Inl e \<Rightarrow> \<forall>q. q = canon (np_StagingTargetPath req) \<or> mounts (proc_world st') q = mounts (proc_world st) q
    | Inr u \<Rightarrow>
        if reportedMounted v (np_TargetPath req) st
        then mounts (proc_world st) (canon (np_TargetPath req)) \<noteq> None \<and>
          mounts (proc_world st') = mounts (proc_world st)
        else mounts (proc_world st') = (mounts (proc_world st))
          (canon (np_TargetPath req) \<mapsto> (np_StagingTargetPath req, nfsFilesystemType, publishOptions req))"
proof (cases "run (withVolumeLock (np_TargetPath req) (nodePublishLocked req)) v st = (r, st')")
  case True
  then show ?thesis
  proof (cases rule: withVolumeLock_cases)
    case busy
    then show ?thesis by simp
  next
    case (free s2)
    from mount_host.publish_mounts [OF assms(1) free(1) refl] free(2) show ?thesis
      by (cases r) (auto split: if_splits)
  qed
next
  case False
  with assms(2) have "(\<exists>e. r = Inl e) \<and> st' = st"
    by (auto simp: NodePublishVolume_def split: if_splits)
  then show ?thesis by auto
qed

lemma node_publish_effect:
  assumes "mount_host (env_host v) canon mounts" and "run (NodePublishVolume s req) v st = (Inr u, st')"
    and "mounts (proc_world st) (canon (np_TargetPath req)) = None"
  shows "mounts (proc_world st') = (mounts (proc_world st))
    (canon (np_TargetPath req) \<mapsto> (np_StagingTargetPath req, nfsFilesystemType, publishOptions req))"
  using node_publish_cases [OF assms(1,2)] assms(3) by (simp split: if_splits)

text \<open>C19: a successful \<open>NodePublishVolume\<close> to a target that the host does not report as a mount point binds the
  staging path there, with \<open>bind\<close>, the capability's flags and, for a read-only request or access mode, \<open>ro\<close>,
  and changes no other mount. One to a target that it reports as a mount point changes nothing: whatever is
  mounted there, which is not compared with the request, stays; a target without a mount is never reported
  so. A failed one changes no path but, by its cleanup, the staging path.\<close>

theorem node_publish_correct:
  assumes "mount_host (env_host v) canon mounts" and "run (NodePublishVolume s req) v st = (r, st')"
  shows "case r of
      Inl e \<Rightarrow> \<forall>q. q = canon (np_StagingTargetPath req) \<or> mounts (proc_world st') q = mounts (proc_world st) q
    | Inr u \<Rightarrow>
        if reportedMounted v (np_TargetPath req) st
        then mounts (proc_world st) (canon (np_TargetPath req)) \<noteq> None \<and>
          mounts (proc_world st') = mounts (proc_world st)
        else mounts (proc_world st') = (mounts (proc_world st))
          (canon (np_TargetPath req) \<mapsto>
            (np_StagingTargetPath req, nfsFilesystemType,
             [bindMountOption] @ (case capMount (np_VolumeCapability req) of None \<Rightarrow> [] | Some flags \<Rightarrow> flags) @
             (if readOnlyPublish req then [''ro''] else [])))"
  using node_publish_cases [OF assms] unfolding publishOptions_def .

theorem node_publish_correct_witness:
  "fakeTable (proc_world nodePublishedProc) =
     (fakeTable (proc_world stagedProc))(''/target'' \<mapsto> (''/staging'', ''nfs'', [''bind'', ''ro'']))"
proof -
  have "fst (run (NodePublishVolume sanityNodeServer nodePublishReq) nodeEnv stagedProc) = Inr ()"
    by code_simp
  from unit_result [OF this] have
    "run (NodePublishVolume sanityNodeServer nodePublishReq) nodeEnv stagedProc = (Inr (), nodePublishedProc)"
    by (simp add: nodePublishedProc_def)
  moreover have "\<not> reportedMounted nodeEnv (np_TargetPath nodePublishReq) stagedProc" by code_simp
  ultimately show ?thesis
    using node_publish_correct [OF nodeEnv_host, of sanityNodeServer nodePublishReq stagedProc "Inr ()" nodePublishedProc]
    by (simp add: nodePublishReq_def readOnlyPublish_def capMount_def mountCap_def
        getMount_def bindMountOption_def nfsFilesystemType_def)
qed

lemma node_unmount_effect:
  assumes "mount_host (env_host v) canon mounts"
    and "run (NodeUnstageVolume s ureq) v st = (r, st')"
    and "run (NodeUnpublishVolume s preq) v st = (q, st'')"
  shows "(\<forall>x. x = canon (nus_StagingTargetPath ureq) \<or> mounts (proc_world st') x = mounts (proc_world st) x) \<and>
    (r = Inr () \<longrightarrow> mounts (proc_world st') (canon (nus_StagingTargetPath ureq)) = None) \<and>
    (\<forall>x. x = canon (nup_TargetPath preq) \<or> mounts (proc_world st'') x = mounts (proc_world st) x) \<and>
    (q = Inr () \<longrightarrow> mounts (proc_world st'') (canon (nup_TargetPath preq)) = None)"
proof -
  have locked: "(\<forall>x. x = canon p \<or> mounts (proc_world s1) x = mounts (proc_world st) x) \<and>
      (r = Inr () \<longrightarrow> mounts (proc_world s1) (canon p) = None)"
    if "run (withVolumeLock k (cleanupAt p m)) v st = (r, s1)" for k p m s1 r
    using that
  proof (cases rule: withVolumeLock_cases)
    case busy
    then show ?thesis by simp
  next
    case (free s2)
    with mount_host.cleanup_mounts [OF assms(1) free(1) refl] show ?thesis by auto
  qed
  show ?thesis
    using assms(2,3) locked
    by (auto simp: NodeUnstageVolume_def NodeUnpublishVolume_def split: if_splits)
qed

text \<open>C29: a successful \<open>NodeUnstageVolume\<close> or \<open>NodeUnpublishVolume\<close> leaves its path unmounted, and no call of
  either touches another path.\<close>

theorem node_unmount_correct:
  assumes "mount_host (env_host v) canon mounts"
    and "run (NodeUnstageVolume s ureq) v st = (r, st')"
    and "run (NodeUnpublishVolume s preq) v st = (q, st'')"
  shows "(\<forall>x. x = canon (nus_StagingTargetPath ureq) \<or> mounts (proc_world st') x = mounts (proc_world st) x) \<and>
    (r = Inr () \<longrightarrow> mounts (proc_world st') (canon (nus_StagingTargetPath ureq)) = None) \<and>
    (\<forall>x. x = canon (nup_TargetPath preq) \<or> mounts (proc_world st'') x = mounts (proc_world st) x) \<and>
    (q = Inr () \<longrightarrow> mounts (proc_world st'') (canon (nup_TargetPath preq)) = None)"
  using assms by (rule node_unmount_effect)

definition unstageReq :: NodeUnstageVolumeRequest where
  "unstageReq = \<lparr>nus_VolumeId = ''1/10000'', nus_StagingTargetPath = ''/staging''\<rparr>"

definition nodeUnpublishReq :: NodeUnpublishVolumeRequest where
  "nodeUnpublishReq = \<lparr>nup_VolumeId = ''1/10000'', nup_TargetPath = ''/target''\<rparr>"

theorem node_unmount_correct_witness:
  "fakeTable (proc_world (snd (run (NodeUnstageVolume sanityNodeServer unstageReq) nodeEnv nodePublishedProc)))
     ''/staging'' = None \<and>
   fakeTable (proc_world (snd (run (NodeUnpublishVolume sanityNodeServer nodeUnpublishReq) nodeEnv
     nodePublishedProc))) ''/target'' = None"
proof -
  have "fst (run (NodeUnstageVolume sanityNodeServer unstageReq) nodeEnv nodePublishedProc) = Inr ()"
    by code_simp
  note 1 = unit_result [OF this]
  have "fst (run (NodeUnpublishVolume sanityNodeServer nodeUnpublishReq) nodeEnv nodePublishedProc) = Inr ()"
    by code_simp
  note 2 = unit_result [OF this]
  from node_unmount_correct [OF nodeEnv_host 1 2] show ?thesis
    by (simp add: unstageReq_def nodeUnpublishReq_def)
qed

end
