(* ===== verification/NetipFacts.thy ===== *)
theory NetipFacts
  imports NodeFacts
begin

text \<open>
  Round trips of the IPv6 part of \<open>net/netip\<close> as the driver uses it: every address that the parser can
  return is read back from its rendering, with and without \<open>::\<close> and with a zone, and the rendering is the
  text that RFC 5952 recommends. Hence the addresses that \<open>mountTargetIP\<close> hands on (in the mount option that
  names the servers) are canonical.
\<close>

subsection \<open>Groups separated by colons\<close>

definition hexJoin :: "nat list \<Rightarrow> string" where
  "hexJoin gs = joinStr '':'' (map hexDigits gs)"

lemma hexJoin_Nil [simp]: "hexJoin [] = []"
  by (simp add: hexJoin_def)

lemma hexJoin_Cons: "hexJoin (g # gs) = hexDigits g @ (if gs = [] then [] else CHR '':'' # hexJoin gs)"
  by (cases gs) (simp_all add: hexJoin_def)

lemma hexJoin_eq_Nil [simp]: "hexJoin gs = [] \<longleftrightarrow> gs = []"
  by (cases gs) (simp_all add: hexJoin_Cons)

lemma hexVal_colon [simp]: "hexVal CHR '':'' = None" "hexVal CHR ''.'' = None" "hexVal CHR ''%'' = None"
  "hexVal CHR ''['' = None" "hexVal CHR '']'' = None" "hexVal CHR ''/'' = None"
  by (simp_all add: hexVal_def)

lemma hexSpan_hex:
  assumes "rest = [] \<or> hexVal (hd rest) = None"
  shows "hexSpan (hexDigits g @ rest) = hexDigits g" and "hexRest (hexDigits g @ rest) = rest"
proof -
  have "\<forall>c \<in> set (hexDigits g). hexVal c \<noteq> None" using hexDigits_hex by blast
  with assms show "hexSpan (hexDigits g @ rest) = hexDigits g" "hexRest (hexDigits g @ rest) = rest"
    by (cases rest; simp add: hexSpan_def hexRest_def takeWhile_append2 dropWhile_append2)+
qed

lemma hexDigits_hd: "hexVal (hd (hexDigits g)) \<noteq> None"
  using hexDigits_hex [of "hd (hexDigits g)" g] by simp

lemma hexJoin_hd: "gs \<noteq> [] \<Longrightarrow> hexVal (hd (hexJoin gs)) \<noteq> None"
  using hexDigits_hd by (cases gs) (simp_all add: hexJoin_Cons)

subsection \<open>Parsing a list of groups\<close>

text \<open>The last group, a group followed by another one, and a group followed by the ellipsis.\<close>

lemma parse6_last:
  assumes "length acc < 8" and "g < 65536"
  shows "parse6 acc el (hexDigits g) = Some (acc @ [g], el)"
  using assms hexSpan_hex [of "[]" g] length_hexDigits [OF assms(2)]
  by (subst parse6.simps) (simp add: Let_def)

lemma parse6_group:
  assumes "length acc < 8" and "g < 65536" and "rest \<noteq> []" and "hd rest \<noteq> CHR '':''"
  shows "parse6 acc el (hexDigits g @ CHR '':'' # rest) = parse6 (acc @ [g]) el rest"
  using assms hexSpan_hex [of "CHR '':'' # rest" g] length_hexDigits [OF assms(2)]
  by (subst parse6.simps) (cases rest; simp add: Let_def)

lemma parse6_ellipsis:
  assumes "length acc < 8" and "g < 65536"
  shows "parse6 acc None (hexDigits g @ CHR '':'' # CHR '':'' # rest) =
    (if rest = [] then Some (acc @ [g], Some (Suc (length acc)))
     else parse6 (acc @ [g]) (Some (Suc (length acc))) rest)"
  using assms hexSpan_hex [of "CHR '':'' # CHR '':'' # rest" g] length_hexDigits [OF assms(2)]
  by (subst parse6.simps) (simp add: Let_def)

lemma not_colon: "hexVal c \<noteq> None \<Longrightarrow> c \<noteq> CHR '':''"
  by auto

lemma parse6_hexJoin:
  assumes "gs \<noteq> []" and "\<forall>g \<in> set gs. g < 65536" and "length acc + length gs \<le> 8"
  shows "parse6 acc el (hexJoin gs) = Some (acc @ gs, el)"
  using assms
proof (induction gs arbitrary: acc)
  case (Cons g gs)
  show ?case
  proof (cases "gs = []")
    case True
    with Cons.prems show ?thesis by (simp add: hexJoin_Cons parse6_last)
  next
    case False
    with Cons.prems Cons.IH [of "acc @ [g]"] show ?thesis
      by (simp add: hexJoin_Cons parse6_group not_colon [OF hexJoin_hd])
  qed
qed simp

lemma parse6_hexJoin_ellipsis:
  assumes "gs \<noteq> []" and "\<forall>g \<in> set gs. g < 65536" and "length acc + length gs \<le> 8"
  shows "parse6 acc None (hexJoin gs @ CHR '':'' # CHR '':'' # rest) =
    (if rest = [] then Some (acc @ gs, Some (length acc + length gs))
     else parse6 (acc @ gs) (Some (length acc + length gs)) rest)"
  using assms
proof (induction gs arbitrary: acc)
  case (Cons g gs)
  show ?case
  proof (cases "gs = []")
    case True
    with Cons.prems show ?thesis by (simp add: hexJoin_Cons parse6_ellipsis)
  next
    case False
    then have "hd (hexJoin gs @ CHR '':'' # CHR '':'' # rest) \<noteq> CHR '':''"
      using hexJoin_hd [OF False] by (simp add: not_colon)
    with False Cons.prems Cons.IH [of "acc @ [g]"] show ?thesis
      by (simp add: hexJoin_Cons parse6_group)
  qed
qed simp

text \<open>The two forms of an address: all eight groups, and a prefix and a suffix around \<open>::\<close>.\<close>

lemma parse_full:
  assumes "wf6 gs"
  shows "parse6Groups (hexJoin gs) = Some gs"
proof -
  from assms obtain g h hs where gs: "gs = g # h # hs" "length gs = 8" "\<forall>g \<in> set gs. g < 65536"
    by (cases gs; cases "tl gs") (auto simp: wf6_def)
  have "take 2 (hexJoin gs) \<noteq> ''::''"
    using hexJoin_hd [of gs] gs(1) by (cases "hexJoin gs") (auto simp: numeral_2_eq_2)
  with gs show ?thesis by (simp add: parse6Groups_def parse6_hexJoin expandEllipsis_def)
qed

lemma parse_elided:
  assumes "\<forall>g \<in> set as. g < 65536" and "\<forall>g \<in> set bs. g < 65536" and "length as + length bs < 8"
  shows "parse6Groups (hexJoin as @ CHR '':'' # CHR '':'' # hexJoin bs) =
    Some (as @ replicate (8 - length as - length bs) 0 @ bs)"
proof (cases "as = []")
  case True
  then show ?thesis using assms parse6_hexJoin [of bs "[]" "Some 0"]
    by (auto simp: parse6Groups_def expandEllipsis_def numeral_2_eq_2)
next
  case False
  then have "take 2 (hexJoin as @ CHR '':'' # CHR '':'' # hexJoin bs) \<noteq> ''::''"
    using hexJoin_hd [OF False] by (cases "hexJoin as") (auto simp: numeral_2_eq_2)
  with False assms show ?thesis
    using parse6_hexJoin [of bs as "Some (length as)"]
    by (auto simp: parse6Groups_def parse6_hexJoin_ellipsis expandEllipsis_def)
qed

subsection \<open>Rendering\<close>

lemma emit6_tail:
  assumes "length gs = 8" and "zs < i \<or> 8 \<le> zs"
  shows "emit6 gs zs ze i = (if 8 \<le> i then [] else (if 0 < i then '':'' else []) @ hexJoin (drop i gs))"
  using assms
proof (induction gs zs ze i rule: emit6.induct)
  case (1 gs zs ze i)
  show ?case
  proof (cases "8 \<le> i")
    case True
    then show ?thesis by (subst emit6.simps) simp
  next
    case False
    then have "drop i gs = gs ! i # drop (Suc i) gs" using "1.prems"(1) by (simp add: Cons_nth_drop_Suc)
    moreover have "i \<noteq> zs" using False "1.prems"(2) by auto
    moreover have "zs < Suc i \<or> 8 \<le> zs" using "1.prems"(2) by auto
    ultimately show ?thesis using False "1.IH"(2) [OF False] "1.prems"(1)
      by (subst emit6.simps) (simp add: hexJoin_Cons)
  qed
qed

lemma emit6_run:
  assumes "length gs = 8" and "i \<le> zs" and "zs < ze" and "ze \<le> 8"
  shows "emit6 gs zs ze i =
    (if i = zs then [] else (if 0 < i then '':'' else []) @ hexJoin (take (zs - i) (drop i gs)))
    @ CHR '':'' # CHR '':'' # hexJoin (drop ze gs)"
  using assms
proof (induction gs zs ze i rule: emit6.induct)
  case (1 gs zs ze i)
  show ?case
  proof (cases "i = zs")
    case True
    have "ze < 8 \<Longrightarrow> drop ze gs = gs ! ze # drop (Suc ze) gs"
      using "1.prems"(1) by (simp add: Cons_nth_drop_Suc)
    with True "1.prems" show ?thesis
      by (subst emit6.simps) (simp add: emit6_tail hexJoin_Cons)
  next
    case False
    with "1.prems" have i: "i < zs" "i < 8" "\<not> 8 \<le> i" by auto
    have "zs - i = Suc (zs - Suc i)" using i(1) by simp
    then have "take (zs - i) (drop i gs) = gs ! i # take (zs - Suc i) (drop (Suc i) gs)"
      using i(2) "1.prems"(1) by (simp only: take_Suc_Cons Cons_nth_drop_Suc [symmetric])
    moreover have "take (zs - Suc i) (drop (Suc i) gs) = [] \<longleftrightarrow> Suc i = zs"
      using i "1.prems" by auto
    ultimately show ?thesis using i False "1.IH"(2) [OF i(3) False] "1.prems"
      by (subst emit6.simps) (simp add: hexJoin_Cons)
  qed
qed

text \<open>The run that \<open>bestRun\<close> finds consists of zeros.\<close>

definition zeroRange :: "nat list \<Rightarrow> nat \<times> nat \<Rightarrow> bool" where
  "zeroRange gs r \<longleftrightarrow> r = (255, 255) \<or>
     (fst r < snd r \<and> snd r \<le> 8 \<and> (\<forall>i. fst r \<le> i \<longrightarrow> i < snd r \<longrightarrow> gs ! i = 0))"

lemma zeroRun_zero:
  assumes "length gs = 8" and "i \<le> 8"
  shows "i + zeroRun gs i \<le> 8" and "\<And>j. i \<le> j \<Longrightarrow> j < i + zeroRun gs i \<Longrightarrow> gs ! j = 0"
proof -
  have "length (takeWhile (\<lambda>g. g = 0) (drop i gs)) \<le> length (drop i gs)"
    by (rule length_takeWhile_le)
  with assms show "i + zeroRun gs i \<le> 8" by (simp add: zeroRun_def)
  fix j assume j: "i \<le> j" "j < i + zeroRun gs i"
  then have k: "j - i < length (takeWhile (\<lambda>g. g = 0) (drop i gs))" by (simp add: zeroRun_def)
  then have "takeWhile (\<lambda>g. g = 0) (drop i gs) ! (j - i) = 0"
    using set_takeWhileD [OF nth_mem [OF k]] by blast
  with k j assms show "gs ! j = 0" by (simp add: takeWhile_nth)
qed

lemma bestRun_zero:
  assumes "length gs = 8"
  shows "zeroRange gs (bestRun gs)"
proof -
  have "zeroRange gs (fold (\<lambda>i (zs, ze).
      let l = zeroRun gs i in if 2 \<le> l \<and> ze - zs < l then (i, i + l) else (zs, ze)) is r)"
    if "zeroRange gs r" "\<forall>i \<in> set is. i < 8" for "is" r
    using that
  proof (induction "is" arbitrary: r)
    case (Cons i "is")
    have "zeroRange gs (i, i + zeroRun gs i)" if "2 \<le> zeroRun gs i"
      using zeroRun_zero [OF assms, of i] Cons.prems(2) that by (auto simp: zeroRange_def)
    with Cons show ?case by (auto simp: Let_def split: prod.split)
  qed simp
  from this [of "(255, 255)" "[0 ..< 8]"] show ?thesis by (simp add: bestRun_def zeroRange_def)
qed

lemma zeros_between:
  assumes "length gs = 8" and "zs < ze" and "ze \<le> 8" and "\<And>i. zs \<le> i \<Longrightarrow> i < ze \<Longrightarrow> gs ! i = 0"
  shows "gs = take zs gs @ replicate (ze - zs) (0 :: nat) @ drop ze gs"
proof -
  have "take (ze - zs) (drop zs gs) = replicate (ze - zs) 0"
    using assms by (intro nth_equalityI) auto
  moreover have "gs = take zs gs @ take (ze - zs) (drop zs gs) @ drop ze gs"
    using assms(2) by (metis append_take_drop_id drop_drop le_add_diff_inverse2 less_imp_le_nat)
  ultimately show ?thesis by simp
qed

lemma parse_string6:
  assumes "wf6 gs"
  shows "parse6Groups (string6 gs) = Some gs"
proof -
  have len: "length gs = 8" using assms by (simp add: wf6_def)
  obtain zs ze where b: "bestRun gs = (zs, ze)" by fastforce
  from bestRun_zero [OF len] b have "(zs = 255 \<and> ze = 255) \<or>
      (zs < ze \<and> ze \<le> 8 \<and> (\<forall>i. zs \<le> i \<longrightarrow> i < ze \<longrightarrow> gs ! i = 0))"
    by (auto simp: zeroRange_def)
  then show ?thesis
  proof
    assume "zs = 255 \<and> ze = 255"
    then show ?thesis using parse_full [OF assms] len by (simp add: string6_def b emit6_tail)
  next
    assume r: "zs < ze \<and> ze \<le> 8 \<and> (\<forall>i. zs \<le> i \<longrightarrow> i < ze \<longrightarrow> gs ! i = 0)"
    then have "string6 gs = hexJoin (take zs gs) @ CHR '':'' # CHR '':'' # hexJoin (drop ze gs)"
      using len by (simp add: string6_def b emit6_run)
    moreover have "\<forall>g \<in> set (take zs gs). g < 65536" "\<forall>g \<in> set (drop ze gs). g < 65536"
      using assms by (auto simp: wf6_def dest: in_set_takeD in_set_dropD)
    moreover have "8 - length (take zs gs) - length (drop ze gs) = ze - zs" using r len by auto
    moreover have "length (take zs gs) + length (drop ze gs) < 8" using r len by auto
    ultimately show ?thesis using zeros_between [OF len] r by (simp add: parse_elided)
  qed
qed

subsection \<open>The canonical text of an address\<close>

text \<open>The recommendation of RFC 5952 for an address that does not embed an IPv4 one, stated without the code:
  lower-case hexadecimal groups without leading zeros, all eight of them when no two adjacent ones are zero, and
  otherwise the longest run of zero groups, the first of them if there are several, written \<open>::\<close>.\<close>

definition plainHex :: "nat \<Rightarrow> string \<Rightarrow> bool" where
  "plainHex g h \<longleftrightarrow> h \<noteq> [] \<and> set h \<subseteq> set ''0123456789abcdef'' \<and> hexNat h = g \<and> (h = ''0'' \<or> hd h \<noteq> CHR ''0'')"

definition groupsText :: "nat list \<Rightarrow> string \<Rightarrow> bool" where
  "groupsText gs s \<longleftrightarrow> (\<exists>hs. list_all2 plainHex gs hs \<and> s = joinStr '':'' hs)"

definition zerosAt :: "nat list \<Rightarrow> nat \<Rightarrow> nat \<Rightarrow> bool" where
  "zerosAt gs i n \<longleftrightarrow> i + n \<le> length gs \<and> (\<forall>k < n. gs ! (i + k) = 0)"

definition longestZeros :: "nat list \<Rightarrow> nat \<Rightarrow> nat \<Rightarrow> bool" where
  "longestZeros gs i n \<longleftrightarrow> zerosAt gs i n \<and> (\<forall>j m. zerosAt gs j m \<longrightarrow> m < n \<or> m = n \<and> i \<le> j)"

definition rfc5952 :: "nat list \<Rightarrow> string \<Rightarrow> bool" where
  "rfc5952 gs s \<longleftrightarrow>
     (if \<exists>i. zerosAt gs i 2 then
        (\<exists>i n a b. longestZeros gs i n \<and> groupsText (take i gs) a \<and> groupsText (drop (i + n) gs) b \<and>
           s = a @ ''::'' @ b)
      else groupsText gs s)"

lemma hexChar_plain: "n < 16 \<Longrightarrow> hexChar n \<in> set ''0123456789abcdef''"
proof -
  assume "n < 16"
  then have "n \<in> set [0 ..< 16]" by simp
  moreover have "\<forall>k \<in> set [0 ..< 16]. hexChar k \<in> set ''0123456789abcdef''" by code_simp
  ultimately show ?thesis by blast
qed

lemma hexChar_zero: "0 < n \<Longrightarrow> n < 16 \<Longrightarrow> hexChar n \<noteq> CHR ''0''"
proof (rule notI)
  assume "0 < n" "n < 16" "hexChar n = CHR ''0''"
  moreover have "hexVal CHR ''0'' = Some 0" by code_simp
  ultimately show False using hexVal_hexChar [of n] by simp
qed

lemma hexDigits_chars: "set (hexDigits g) \<subseteq> set ''0123456789abcdef''"
proof (induction g rule: hexDigits.induct)
  case (1 g)
  show ?case
  proof (cases "g < 16")
    case True
    then show ?thesis using hexChar_plain [OF True] by (subst hexDigits.simps) simp
  next
    case False
    then show ?thesis using 1 [OF False] hexChar_plain [of "g mod 16"] by (subst hexDigits.simps) simp
  qed
qed

lemma hexDigits_lead: "0 < g \<Longrightarrow> hd (hexDigits g) \<noteq> CHR ''0''"
proof (induction g rule: hexDigits.induct)
  case (1 g)
  show ?case
  proof (cases "g < 16")
    case True
    then show ?thesis using hexChar_zero [OF "1.prems" True] by (subst hexDigits.simps) simp
  next
    case False
    then have "0 < g div 16" by (simp add: div_greater_zero_iff)
    then show ?thesis using "1.IH" [OF False] False by (subst hexDigits.simps) simp
  qed
qed

lemma hexDigits_plain: "plainHex g (hexDigits g)"
proof (cases "g = 0")
  case True
  have "hexDigits 0 = ''0''" by code_simp
  with True show ?thesis using hexDigits_chars [of 0] hexNat_hexDigits [of 0] by (simp add: plainHex_def)
next
  case False
  then show ?thesis using hexDigits_lead [of g] hexDigits_chars [of g] by (simp add: plainHex_def)
qed

lemma hexJoin_groupsText: "groupsText gs (hexJoin gs)"
  unfolding groupsText_def hexJoin_def
  by (intro exI [of _ "map hexDigits gs"]) (simp add: list_all2_conv_all_nth hexDigits_plain)

text \<open>\<open>bestRun\<close> finds the first of the longest runs.\<close>

lemma zerosAt_run:
  assumes "zerosAt gs j m"
  shows "m \<le> zeroRun gs j"
proof -
  have len: "j + m \<le> length gs" and zero: "\<And>k. k < m \<Longrightarrow> gs ! (j + k) = 0" using assms by (auto simp: zerosAt_def)
  have "take m (drop j gs) = replicate m 0"
    using len zero by (intro nth_equalityI) auto
  then have "drop j gs = replicate m 0 @ drop m (drop j gs)" by (metis append_take_drop_id)
  then have "zeroRun gs j = length (takeWhile (\<lambda>g. g = 0) (replicate m 0 @ drop m (drop j gs)))"
    by (simp add: zeroRun_def)
  also have "\<dots> = m + length (takeWhile (\<lambda>g. g = 0) (drop m (drop j gs)))"
    by (subst takeWhile_append2) auto
  finally show ?thesis by simp
qed

definition bestUpTo :: "nat list \<Rightarrow> nat \<Rightarrow> nat \<times> nat \<Rightarrow> bool" where
  "bestUpTo gs k r \<longleftrightarrow> (case r of (zs, ze) \<Rightarrow>
     (zs = 255 \<and> ze = 255 \<and> (\<forall>j < k. zeroRun gs j < 2)) \<or>
     (zs < k \<and> ze = zs + zeroRun gs zs \<and> 2 \<le> zeroRun gs zs \<and>
      (\<forall>j < k. zeroRun gs j \<le> zeroRun gs zs \<and> (j < zs \<longrightarrow> zeroRun gs j < zeroRun gs zs))))"

lemma bestUpTo_step:
  assumes "bestUpTo gs k (zs, ze)"
  shows "bestUpTo gs (Suc k)
    (let l = zeroRun gs k in if 2 \<le> l \<and> ze - zs < l then (k, k + l) else (zs, ze))"
proof (cases "2 \<le> zeroRun gs k \<and> ze - zs < zeroRun gs k")
  case True
  have "zeroRun gs j < zeroRun gs k" if "j < k" for j
    using assms True that by (fastforce simp: bestUpTo_def)
  with True show ?thesis by (auto simp: bestUpTo_def Let_def less_Suc_eq intro: less_imp_le)
next
  case False
  with assms show ?thesis by (auto simp: bestUpTo_def Let_def less_Suc_eq)
qed

lemma bestRun_best: "bestUpTo gs 8 (bestRun gs)"
proof -
  have "bestUpTo gs k (fold (\<lambda>i (zs, ze).
      let l = zeroRun gs i in if 2 \<le> l \<and> ze - zs < l then (i, i + l) else (zs, ze)) [0 ..< k] (255, 255))" for k
  proof (induction k)
    case 0
    show ?case by (simp add: bestUpTo_def)
  next
    case (Suc k)
    then show ?case by (auto split: prod.split dest!: bestUpTo_step)
  qed
  then show ?thesis by (simp add: bestRun_def)
qed

lemma string6_rfc5952:
  assumes "wf6 gs"
  shows "rfc5952 gs (string6 gs)"
proof -
  have len: "length gs = 8" using assms by (simp add: wf6_def)
  obtain zs ze where b: "bestRun gs = (zs, ze)" by fastforce
  have small: "j < 8" if "zerosAt gs j m" "0 < m" for j m using that len by (simp add: zerosAt_def)
  from bestRun_best [of gs] b consider "zs = 255" "ze = 255" "\<And>j. j < 8 \<Longrightarrow> zeroRun gs j < 2" |
    "zs < 8" "ze = zs + zeroRun gs zs" "2 \<le> zeroRun gs zs"
    "\<And>j. j < 8 \<Longrightarrow> zeroRun gs j \<le> zeroRun gs zs" "\<And>j. j < zs \<Longrightarrow> zeroRun gs j < zeroRun gs zs"
    unfolding bestUpTo_def by fastforce
  then show ?thesis
  proof cases
    case 1
    have "\<not> zerosAt gs i 2" for i using zerosAt_run [of gs i 2] small [of i 2] 1(3) [of i] by fastforce
    with 1 show ?thesis using len by (simp add: rfc5952_def string6_def b emit6_tail hexJoin_groupsText)
  next
    case 2
    let ?n = "zeroRun gs zs"
    note zr = zeroRun_zero [OF len less_imp_le [OF 2(1)]]
    have run: "zerosAt gs zs ?n" using zr len by (simp add: zerosAt_def)
    moreover have "m < ?n \<or> m = ?n \<and> zs \<le> j" if "zerosAt gs j m" for j m
    proof (cases "m = 0")
      case False
      with zerosAt_run [OF that] 2(4) [OF small [OF that]] 2(5) [of j] show ?thesis by linarith
    qed (use 2(3) in simp)
    ultimately have "longestZeros gs zs ?n" by (simp add: longestZeros_def)
    moreover have "zerosAt gs zs 2" using run 2(3) by (simp add: zerosAt_def)
    moreover have "string6 gs = hexJoin (take zs gs) @ ''::'' @ hexJoin (drop (zs + ?n) gs)"
      using len 2(2,3) zr(1) by (simp add: string6_def b emit6_run)
    ultimately show ?thesis unfolding rfc5952_def if_P [OF exI [of "\<lambda>i. zerosAt gs i 2", OF \<open>zerosAt gs zs 2\<close>]]
      using hexJoin_groupsText by blast
  qed
qed

text \<open>The recommendation determines the text of an address.\<close>

lemma plainHex_unique: "plainHex g h \<Longrightarrow> h = hexDigits g"
proof (induction h arbitrary: g rule: rev_induct)
  case (snoc c h)
  have c: "c \<in> set ''0123456789abcdef''" "set h \<subseteq> set ''0123456789abcdef''" using snoc.prems by (auto simp: plainHex_def)
  have "\<forall>c \<in> set ''0123456789abcdef''. \<exists>n \<in> set [0 ..< 16]. c = hexChar n" by code_simp
  with c(1) obtain n where n: "n < 16" "c = hexChar n" by auto
  have g: "g = hexNat h * 16 + n" using snoc.prems n by (simp add: plainHex_def hexNat_def)
  show ?case
  proof (cases "h = []")
    case True
    with g n show ?thesis by (simp add: hexNat_def hexDigits.simps [of n])
  next
    case False
    with snoc.prems have lead: "hd h \<noteq> CHR ''0''" by (auto simp: plainHex_def)
    with False c(2) have "plainHex (hexNat h) h" by (auto simp: plainHex_def)
    with snoc.IH have h: "h = hexDigits (hexNat h)" by blast
    have "hexDigits 0 = ''0''" by code_simp
    with h lead have "hexNat h \<noteq> 0" by (metis list.sel(1))
    then show ?thesis using g n h by (subst hexDigits.simps) simp
  qed
qed (simp add: plainHex_def)

lemma groupsText_unique: "groupsText gs s \<longleftrightarrow> s = hexJoin gs"
proof
  assume "groupsText gs s"
  then obtain hs where hs: "list_all2 plainHex gs hs" "s = joinStr '':'' hs" by (auto simp: groupsText_def)
  then have "hs = map hexDigits gs"
    by (intro nth_equalityI) (auto simp: list_all2_conv_all_nth dest!: plainHex_unique)
  with hs(2) show "s = hexJoin gs" by (simp add: hexJoin_def)
qed (simp add: hexJoin_groupsText)

lemma longestZeros_unique: "longestZeros gs i n \<Longrightarrow> longestZeros gs j m \<Longrightarrow> i = j \<and> n = m"
  unfolding longestZeros_def by (metis le_antisym less_asym less_irrefl)

lemma rfc5952_unique: "rfc5952 gs s \<Longrightarrow> rfc5952 gs t \<Longrightarrow> s = t"
  by (auto simp: rfc5952_def groupsText_unique dest: longestZeros_unique split: if_splits)

subsection \<open>Addresses\<close>

lemma string6_chars:
  assumes "length gs = 8" and "c \<in> set (string6 gs)"
  shows "hexVal c \<noteq> None \<or> c = CHR '':''"
proof -
  have join: "c \<in> set (hexJoin hs) \<Longrightarrow> hexVal c \<noteq> None \<or> c = CHR '':''" for hs
    using hexDigits_hex by (induction hs) (auto simp: hexJoin_Cons split: if_splits)
  obtain zs ze where b: "bestRun gs = (zs, ze)" by fastforce
  from bestRun_zero [OF assms(1)] b have "zs = 255 \<or> (zs < ze \<and> ze \<le> 8)"
    by (auto simp: zeroRange_def)
  then show ?thesis
    using assms join by (auto simp: string6_def b emit6_tail emit6_run split: if_splits)
qed

lemma string6_colon:
  assumes "wf6 gs"
  shows "CHR '':'' \<in> set (string6 gs)"
proof (rule ccontr)
  assume no: "CHR '':'' \<notin> set (string6 gs)"
  have len: "length gs = 8" using assms by (simp add: wf6_def)
  obtain zs ze where b: "bestRun gs = (zs, ze)" by fastforce
  from bestRun_zero [OF len] b consider "zs = 255" | "zs < ze" "ze \<le> 8" by (auto simp: zeroRange_def)
  then show False
  proof cases
    case 1
    then have "string6 gs = hexJoin gs" using len by (simp add: string6_def b emit6_tail)
    moreover obtain g h hs where "gs = g # h # hs" using len by (cases gs; cases "tl gs") auto
    ultimately show False using no by (simp add: hexJoin_Cons)
  next
    case 2
    with no len show False by (simp add: string6_def b emit6_run)
  qed
qed

lemma cutStr_single:
  assumes "c \<notin> set xs"
  shows "cutStr [c] xs = None" and "cutStr [c] (xs @ c # ys) = Some (xs, ys)"
  using assms by (induction xs) auto

lemma find_unique: "x \<in> set xs \<Longrightarrow> P x \<Longrightarrow> \<forall>c \<in> set xs. P c \<longrightarrow> c = x \<Longrightarrow> find P (xs @ ys) = Some x"
proof (induction xs)
  case (Cons c xs)
  then show ?case by (cases "P c") (metis append_Cons find.simps(2) list.set_intros(1), metis append_Cons find.simps(2) list.set_intros(2) set_ConsD)
qed simp

lemma string6_no_percent:
  assumes "wf6 gs"
  shows "CHR ''%'' \<notin> set (string6 gs)"
proof
  assume "CHR ''%'' \<in> set (string6 gs)"
  moreover have "length gs = 8" using assms by (simp add: wf6_def)
  ultimately show False using string6_chars [of gs "CHR ''%''"] by simp
qed

text \<open>\<open>ParseAddr\<close> reads back the rendering of every IPv6 address that is not an embedded IPv4 one, with
  or without a zone: \<open>String\<close> and \<open>ParseAddr\<close> agree on groups, the elided run of zeros and the zone.\<close>

lemma parse_addrString:
  assumes "wf6 gs" and "\<not> is4In6 (Addr6 gs zone)"
  shows "ParseAddr (addrString (Addr6 gs zone)) = Some (Addr6 gs zone)"
proof -
  have special: "\<forall>c \<in> set (string6 gs). c \<in> {CHR ''.'', CHR '':'', CHR ''%''} \<longrightarrow> c = CHR '':''"
    using string6_chars [of gs] assms(1) by (fastforce simp: wf6_def)
  have "addrString (Addr6 gs zone) = string6 gs @ (if zone = [] then [] else CHR ''%'' # zone)"
    unfolding addrString.simps if_not_P [OF assms(2)] withZone_def by simp
  moreover have "find (\<lambda>c. c \<in> {CHR ''.'', CHR '':'', CHR ''%''})
      (string6 gs @ (if zone = [] then [] else CHR ''%'' # zone)) = Some CHR '':''"
    by (rule find_unique [OF string6_colon [OF assms(1)] _ special]) simp
  ultimately show ?thesis
    using cutStr_single [OF string6_no_percent [OF assms(1)]] parse_string6 [OF assms(1)]
    by (simp add: ParseAddr_def parseIPv6_def)
qed

subsection \<open>What the parser returns\<close>

lemma hexVal_less: "hexVal c = Some n \<Longrightarrow> n < 16"
  by (auto simp: hexVal_def Let_def split: if_splits)

lemma hexNat_less: "\<forall>c \<in> set s. hexVal c \<noteq> None \<Longrightarrow> hexNat s < 16 ^ length s"
proof (induction s rule: rev_induct)
  case (snoc c s)
  then obtain n where "hexVal c = Some n" "n < 16" using hexVal_less by fastforce
  moreover from snoc have "hexNat s + 1 \<le> 16 ^ length s" by simp
  then have "(hexNat s + 1) * 16 \<le> 16 ^ length s * 16" by (rule mult_le_mono1)
  ultimately show ?case by (simp add: hexNat_def)
qed (simp add: hexNat_def)

lemma hexSpan_less:
  assumes "length (hexSpan s) \<le> 4"
  shows "hexNat (hexSpan s) < 65536"
proof -
  have "hexNat (hexSpan s) < 16 ^ length (hexSpan s)"
    by (rule hexNat_less) (auto simp: hexSpan_def dest: set_takeWhileD)
  also have "(16 :: nat) ^ length (hexSpan s) \<le> 16 ^ 4" by (rule power_increasing) (use assms in auto)
  finally show ?thesis by simp
qed

lemma parse4_bytes:
  assumes "parse4 f d n val fs s = Some gs" and "val \<le> 255" and "\<forall>x \<in> set fs. x \<le> 255" and "length fs \<le> 3"
  shows "length gs = 4 \<and> (\<forall>x \<in> set gs. x \<le> 255)"
  using assms
proof (induction f d n val fs s rule: parse4.induct)
  case (2 first dot n val fields c cs)
  show ?case
  proof (cases "digitVal c")
    case None
    with 2 show ?thesis by (simp split: if_splits)
  next
    case (Some d)
    have "\<not> (n = 1 \<and> val = 0)" "\<not> 255 < val * 10 + d"
      "parse4 False False (Suc n) (val * 10 + d) fields cs = Some gs"
      using "2.prems"(1) Some by (simp_all split: if_splits)
    with "2.IH"(2) [OF Some] "2.prems" show ?thesis by simp
  qed
next
  case (1 first dot n val fields)
  then have "gs = fields @ [val]" "length fields = 3" by (simp_all split: if_splits)
  with 1 show ?case by simp
qed

lemma parseIPv4Fields_bytes:
  "parseIPv4Fields s = Some gs \<Longrightarrow> length gs = 4 \<and> (\<forall>x \<in> set gs. x \<le> 255)"
  using parse4_bytes [of True False 0 0 "[]" s gs] by (simp add: parseIPv4Fields_def)

text \<open>What a successful round of the loop did.\<close>

lemma parse6_round:
  assumes "parse6 gs el s = Some r" and "length gs < 8"
  shows "(\<exists>f. parseIPv4Fields s = Some f \<and> length gs \<le> 6 \<and>
      r = (gs @ [f ! 0 * 256 + f ! 1, f ! 2 * 256 + f ! 3], el)) \<or>
    (length (hexSpan s) \<le> 4 \<and>
     (\<exists>gs' el' t. gs' = gs @ [hexNat (hexSpan s)] \<and> (el' = el \<or> el' = Some (length gs')) \<and>
        (r = (gs', el') \<or> parse6 gs' el' t = Some r)))"
proof -
  let ?h = "hexSpan s" and ?r = "hexRest s"
  note once = assms(1) [unfolded parse6.simps [of gs el s] Let_def]
  have h: "?h \<noteq> []" "length ?h \<le> 4"
    using once assms(2) by (auto split: if_splits)
  consider "?r \<noteq> []" "hd ?r = CHR ''.''" | "?r = []" | r' where "?r = CHR '':'' # r'" |
    c r' where "?r = c # r'" "c \<noteq> CHR ''.''" "c \<noteq> CHR '':''"
    by (cases ?r) auto
  then show ?thesis
  proof cases
    case 1
    with once assms(2) h show ?thesis by (auto split: if_splits option.splits)
  next
    case 2
    with once assms(2) h have "r = (gs @ [hexNat ?h], el)" by simp
    with h show ?thesis by blast
  next
    case 3
    with once assms(2) h have u: "(case r' of [] \<Rightarrow> None
       | c' # r'' \<Rightarrow>
           if c' = CHR '':'' then
             (if el \<noteq> None then None
              else if r'' = [] then Some (gs @ [hexNat ?h], Some (length (gs @ [hexNat ?h])))
              else parse6 (gs @ [hexNat ?h]) (Some (length (gs @ [hexNat ?h]))) r'')
           else parse6 (gs @ [hexNat ?h]) el r') = Some r"
      by simp
    show ?thesis
    proof (cases r')
      case Nil
      with u show ?thesis by simp
    next
      case (Cons c' r'')
      with u h show ?thesis by (auto split: if_splits)
    qed
  next
    case 4
    with once assms(2) h show ?thesis by simp
  qed
qed

lemma parse6_groups:
  assumes "parse6 acc el s = Some (gs, el')" and "\<forall>g \<in> set acc. g < 65536" and "length acc \<le> 8"
    and "\<forall>e. el = Some e \<longrightarrow> e \<le> length acc"
  shows "(\<forall>g \<in> set gs. g < 65536) \<and> length gs \<le> 8 \<and> (\<forall>e. el' = Some e \<longrightarrow> e \<le> length gs)"
  using assms
proof (induction "8 - length acc" arbitrary: acc el s rule: less_induct)
  case less
  show ?case
  proof (cases "8 \<le> length acc")
    case True
    with less.prems show ?thesis by (subst (asm) parse6.simps) (auto split: if_splits)
  next
    case False
    have byte2: "a \<le> 255 \<Longrightarrow> b \<le> 255 \<Longrightarrow> a * 256 + b < 65536" for a b :: nat by simp
    have v4: "f ! 0 * 256 + f ! 1 < 65536 \<and> f ! 2 * 256 + f ! 3 < 65536" if "parseIPv4Fields s = Some f" for f
      using parseIPv4Fields_bytes [OF that] by (intro conjI byte2) auto
    have "length acc < 8" using False by simp
    from parse6_round [OF less.prems(1) this] False show ?thesis
    proof (elim disjE exE conjE, goal_cases)
      case (1 f)
      with v4 less.prems show ?case by fastforce
    next
      case (2 gs' e' t)
      then show ?case using less.prems hexSpan_less [of s] by auto
    next
      case (3 gs' e' t)
      have "\<forall>g \<in> set gs'. g < 65536" using 3 less.prems(2) hexSpan_less [of s] by auto
      moreover have "\<forall>e. e' = Some e \<longrightarrow> e \<le> length gs'" using 3 less.prems(4) by fastforce
      ultimately show ?case using 3 by (intro less.hyps [of gs' e' t]) auto
    next
      case (4 gs' e' t)
      then show ?case using less.prems hexSpan_less [of s] by auto
    next
      case (5 gs' e' t)
      have "\<forall>g \<in> set gs'. g < 65536" using 5 less.prems(2) hexSpan_less [of s] by auto
      then show ?case using 5 by (intro less.hyps [of gs' e' t]) auto
    qed
  qed
qed

lemma parse6Groups_wf:
  assumes "parse6Groups s = Some gs"
  shows "wf6 gs"
proof -
  have "wf6 hs" if "parse6 [] el t = Some (ks, el')" "expandEllipsis ks el' = Some hs" "el = None \<or> el = Some 0"
    for el t ks el' hs
    using parse6_groups [OF that(1)] that(2,3)
    by (auto simp: wf6_def expandEllipsis_def dest!: in_set_takeD in_set_dropD split: if_splits option.splits)
  moreover have "wf6 (replicate 8 0)" by (simp add: wf6_def)
  ultimately show ?thesis using assms
    by (auto simp: parse6Groups_def split: if_splits option.splits)
qed

lemma ParseAddr_Addr6:
  assumes "ParseAddr s = Some (Addr6 gs z)"
  shows "wf6 gs \<and> (z = [] \<or> (\<exists>a. s = a @ CHR ''%'' # z))"
  using assms cutStr_Some [of "''%''" s]
  by (auto simp: ParseAddr_def parseIPv6_def parse6Groups_wf split: option.splits if_splits)

subsection \<open>Mount targets\<close>

lemma cut_first: "cutStr sep s = Some (a, b) \<Longrightarrow> sep \<noteq> [] \<Longrightarrow> cutStr sep a = None"
proof (induction s arbitrary: a)
  case (Cons x s)
  show ?case
  proof (cases "prefix sep (x # s)")
    case True
    with Cons.prems show ?thesis by auto
  next
    case False
    with Cons.prems obtain c where a: "a = x # c" "cutStr sep s = Some (c, b)" by auto
    with Cons.IH Cons.prems(2) have "cutStr sep c = None" by blast
    moreover have "\<not> prefix sep (x # c)"
    proof
      assume "prefix sep (x # c)"
      then have "prefix sep ((x # c) @ sep @ b)" by (rule prefix_prefix)
      with cutStr_Some [OF a(2)] False show False by simp
    qed
    ultimately show ?thesis using a by simp
  qed
qed simp

lemma cut_infix:
  assumes "cutStr sep (a @ s @ b) = None"
  shows "cutStr sep s = None"
proof (rule ccontr)
  assume "cutStr sep s \<noteq> None"
  then obtain x y where "s = x @ sep @ y" by (auto dest: cutStr_Some)
  then have "a @ s @ b = (a @ x) @ sep @ (y @ b)" by simp
  then have "containsStr (a @ s @ b) sep" unfolding containsStr_iff by blast
  with assms show False by (simp add: containsStr_def)
qed

text \<open>The cut of a bracketed address: nothing before the bracket's end matches \<open>:/\<close>.\<close>

lemma cut_bracket: "cutStr '':/'' z = None \<Longrightarrow> cutStr '':/'' (z @ '']:/'' @ path) = Some (z @ '']'', path)"
proof (induction z)
  case (Cons x z)
  then have "\<not> prefix '':/'' (x # z)" "cutStr '':/'' z = None" by (auto split: if_splits)
  moreover from this have "\<not> prefix '':/'' (x # z @ '']:/'' @ path)" by (cases z) auto
  ultimately show ?case using Cons.IH by simp
qed simp

lemma cut_noSlash:
  "CHR ''/'' \<notin> set u \<Longrightarrow> u = [] \<or> last u \<noteq> CHR '':'' \<Longrightarrow>
     cutStr '':/'' (u @ v) = map_option (\<lambda>(a, b). (u @ a, b)) (cutStr '':/'' v)"
proof (induction u)
  case Nil
  show ?case by (cases "cutStr '':/'' v") auto
next
  case (Cons x u)
  then have "\<not> prefix '':/'' (x # u @ v)" by (cases u) auto
  with Cons show ?case by (cases "cutStr '':/'' v") (auto split: if_splits)
qed

lemma trimSet_ends:
  assumes "trimSet C s \<noteq> []"
  shows "last (trimSet C s) \<notin> C" and "\<exists>a b. s = a @ trimSet C s @ b"
proof -
  let ?u = "dropWhile (\<lambda>c. c \<in> C) s"
  let ?d = "dropWhile (\<lambda>c. c \<in> C) (rev ?u)"
  have "?d \<noteq> []" using assms by (simp add: trimSet_def)
  then have "hd ?d \<notin> C" using hd_dropWhile by blast
  then show "last (trimSet C s) \<notin> C" using \<open>?d \<noteq> []\<close> by (simp add: trimSet_def last_rev)
  have "rev ?u = takeWhile (\<lambda>c. c \<in> C) (rev ?u) @ ?d" by simp
  then have "?u = rev ?d @ rev (takeWhile (\<lambda>c. c \<in> C) (rev ?u))" by (metis rev_append rev_rev_ident)
  moreover have "s = takeWhile (\<lambda>c. c \<in> C) s @ ?u" by simp
  ultimately show "\<exists>a b. s = a @ trimSet C s @ b" unfolding trimSet_def by metis
qed

lemma trimSet_brackets:
  assumes "w \<noteq> []" and "hd w \<notin> C" and "last w \<notin> C" and "x \<in> C" and "y \<in> C"
  shows "trimSet C (x # w @ [y]) = w"
proof -
  obtain c cs where w: "w = c # cs" using assms(1) by (cases w) auto
  obtain d ds where r: "rev w = d # ds" using assms(1) by (cases "rev w") auto
  have "d = last w" using r by (metis last_snoc rev.simps(2) rev_rev_ident)
  then have "d \<notin> C" using assms(3) by simp
  have "dropWhile (\<lambda>c. c \<in> C) (x # w @ [y]) = w @ [y]" using assms w by simp
  then have "trimSet C (x # w @ [y]) = rev (dropWhile (\<lambda>c. c \<in> C) (y # rev w))"
    by (simp add: trimSet_def)
  also have "\<dots> = w" using assms(5) r \<open>d \<notin> C\<close> by (metis dropWhile.simps(2) rev_rev_ident)
  finally show ?thesis .
qed

text \<open>What a usable target's address looks like.\<close>

lemma mountTargetIP_form:
  assumes "mountTargetIP target \<noteq> []"
  obtains host rest gs z where "cutStr '':/'' target = Some (host, rest)"
    "ParseAddr (trimSet {CHR ''['', CHR '']''} host) = Some (Addr6 gs z)"
    "wf6 gs" "\<not> is4In6 (Addr6 gs z)" "mountTargetIP target = addrString (Addr6 gs z)"
    "cutStr '':/'' z = None" "z = [] \<or> last z \<notin> {CHR ''['', CHR '']''}"
proof -
  let ?C = "{CHR ''['', CHR '']''}"
  from assms obtain host rest address where
    cut: "cutStr '':/'' target = Some (host, rest)" and pa: "ParseAddr (trimSet ?C host) = Some address"
    and a6: "is6 address" "\<not> is4In6 address" "mountTargetIP target = addrString address"
    by (auto simp: mountTargetIP_def split: option.splits if_splits)
  from a6(1) obtain gs z where addr: "address = Addr6 gs z" by (cases address) auto
  from ParseAddr_Addr6 [OF pa [unfolded addr]] have gs: "wf6 gs"
    and z: "z = [] \<or> (\<exists>a. trimSet ?C host = a @ CHR ''%'' # z)" by auto
  have "cutStr '':/'' z = None \<and> (z = [] \<or> last z \<notin> ?C)"
  proof (cases "z = []")
    case False
    with z obtain a where t: "trimSet ?C host = a @ CHR ''%'' # z" by blast
    then have "trimSet ?C host \<noteq> []" by simp
    from trimSet_ends [OF this] obtain b c where l: "last (trimSet ?C host) \<notin> ?C" "host = b @ trimSet ?C host @ c"
      by blast
    then have "host = (b @ a @ ''%'') @ z @ c" using t by simp
    with cut_first [OF cut] have "cutStr '':/'' ((b @ a @ ''%'') @ z @ c) = None" by simp
    from cut_infix [OF this] l(1) t False show ?thesis by simp
  qed simp
  then have "cutStr '':/'' z = None" "z = [] \<or> last z \<notin> ?C" by simp_all
  with that [of host rest gs z] cut pa gs a6(2,3) show thesis unfolding addr by metis
qed

text \<open>The text of an address that is put back into a target, with any path, is extracted unchanged.\<close>

lemma mountTargetIP_again:
  assumes "wf6 gs" and "\<not> is4In6 (Addr6 gs z)" and "cutStr '':/'' z = None"
    and "z = [] \<or> last z \<notin> {CHR ''['', CHR '']''}"
  shows "mountTargetIP (''['' @ addrString (Addr6 gs z) @ '']:/'' @ path) = addrString (Addr6 gs z)"
proof -
  let ?C = "{CHR ''['', CHR '']''}"
  define w where "w = addrString (Addr6 gs z)"
  have w: "w = string6 gs @ (if z = [] then [] else CHR ''%'' # z)"
    unfolding w_def addrString.simps if_not_P [OF assms(2)] withZone_def by simp
  have len: "length gs = 8" using assms(1) by (simp add: wf6_def)
  have ne: "string6 gs \<noteq> []" using string6_colon [OF assms(1)] by auto
  have chars: "c \<notin> ?C" "c \<noteq> CHR ''/''" if "c \<in> set (string6 gs)" for c
    using string6_chars [OF len that] by auto
  have cut: "cutStr '':/'' (CHR ''['' # w @ '']:/'' @ path) = Some (CHR ''['' # w @ '']'', path)"
  proof (cases "z = []")
    case True
    have "cutStr '':/'' ((CHR ''['' # string6 gs @ '']'') @ '':/'' @ path) =
        Some ((CHR ''['' # string6 gs @ '']'') @ [], path)"
      by (subst cut_noSlash) (use chars in auto)
    with True w show ?thesis by simp
  next
    case False
    have "cutStr '':/'' ((CHR ''['' # string6 gs @ ''%'') @ z @ '']:/'' @ path) =
        Some ((CHR ''['' # string6 gs @ ''%'') @ z @ '']'', path)"
      by (subst cut_noSlash) (use chars cut_bracket [OF assms(3)] in auto)
    with False w show ?thesis by simp
  qed
  have trim: "trimSet ?C (CHR ''['' # w @ '']'') = w"
  proof (rule trimSet_brackets)
    show "hd w \<notin> ?C" using chars(1) ne w by simp
    show "last w \<notin> ?C" using chars(1) ne w assms(4) by (cases "z = []") simp_all
  qed (use ne w in auto)
  have "ParseAddr w = Some (Addr6 gs z)" unfolding w_def by (rule parse_addrString [OF assms(1,2)])
  then have "mountTargetIP (CHR ''['' # w @ '']:/'' @ path) = w"
    unfolding mountTargetIP_def cut option.case prod.case trim
    by (simp only: option.case is6.simps assms(2) w_def simp_thms if_False)
  then show ?thesis unfolding w_def by simp
qed

text \<open>C35: the address that \<open>mountTargetIP\<close> extracts from an API mount target is the one between the start (or the
  brackets) and \<open>:/\<close>, in the canonical text of RFC 5952 (lower case, no leading zeros, the first longest run of
  zero groups elided) followed by its zone if it has one, however the target spells it; it parses to that
  address again, and put back into a target, with any path, it is extracted unchanged.\<close>

theorem mountTargetIP_canonical:
  assumes "mountTargetIP target \<noteq> []"
  shows "(\<exists>host rest gs zone text.
      cutStr '':/'' target = Some (host, rest) \<and>
      ParseAddr (trimSet {CHR ''['', CHR '']''} host) = Some (Addr6 gs zone) \<and>
      wf6 gs \<and> \<not> is4In6 (Addr6 gs zone) \<and>
      mountTargetIP target = withZone zone text \<and> rfc5952 gs text \<and>
      ParseAddr (mountTargetIP target) = Some (Addr6 gs zone)) \<and>
    mountTargetIP (''['' @ mountTargetIP target @ '']:/'' @ path) = mountTargetIP target"
proof -
  obtain host rest gs z where a: "cutStr '':/'' target = Some (host, rest)"
    "ParseAddr (trimSet {CHR ''['', CHR '']''} host) = Some (Addr6 gs z)"
    "wf6 gs" "\<not> is4In6 (Addr6 gs z)" "mountTargetIP target = addrString (Addr6 gs z)"
    "cutStr '':/'' z = None" "z = [] \<or> last z \<notin> {CHR ''['', CHR '']''}"
    using mountTargetIP_form [OF assms] by metis
  have "addrString (Addr6 gs z) = withZone z (string6 gs)"
    unfolding addrString.simps if_not_P [OF a(4)] by (rule HOL.refl)
  with a string6_rfc5952 [OF a(3)] parse_addrString [OF a(3,4)] mountTargetIP_again [OF a(3,4,6,7)]
  show ?thesis by metis
qed

theorem mountTargetIP_canonical_witness:
  "\<exists>gs. ParseAddr ''2001:DB8:0:0::0001'' = Some (Addr6 gs []) \<and> rfc5952 gs ''2001:db8::1'' \<and>
     mountTargetIP ''[2001:DB8:0:0::0001]:/export'' = ''2001:db8::1'' \<and>
     mountTargetIP (''['' @ ''2001:db8::1'' @ '']:/'' @ ''x'') = ''2001:db8::1''"
proof -
  have ip: "mountTargetIP ''[2001:DB8:0:0::0001]:/export'' = ''2001:db8::1''" by code_simp
  have parts: "cutStr '':/'' ''[2001:DB8:0:0::0001]:/export'' = Some (''[2001:DB8:0:0::0001]'', ''export'')"
    "trimSet {CHR ''['', CHR '']''} ''[2001:DB8:0:0::0001]'' = ''2001:DB8:0:0::0001''"
    "ParseAddr ''2001:DB8:0:0::0001'' = Some (Addr6 [0x2001, 0xDB8, 0, 0, 0, 0, 0, 1] [])" by code_simp+
  have "mountTargetIP ''[2001:DB8:0:0::0001]:/export'' \<noteq> []" unfolding ip by simp
  from mountTargetIP_canonical [OF this, of "''x''", unfolded ip parts(1)] ip show ?thesis
    by (auto simp: parts(2,3) withZone_def)
qed

end
