(* ===== verification/Interleaving.thy ===== *)
theory Interleaving
  imports ControllerSafety
begin

text \<open>
  Concurrent requests. gRPC runs every handler in its own goroutine over the shared process state;
  a configuration is the list of the handlers' remaining programs and the process state, and a step
  performs the next call of one of them (each call on an interface, the lock set or a guarded field
  is atomic). Under every interleaving two handlers with the same lock key are never both between
  their acquire and their release, the lock set is exactly the keys of the handlers inside, and
  when all are done it is what it was at the start.
\<close>

type_synonym ('a, 'w) config = "'a prog list \<times> 'w proc"

inductive cstep :: "'w env \<Rightarrow> ('a, 'w) config \<Rightarrow> ('a, 'w) config \<Rightarrow> bool" for v where
  perform: "i < length ts \<Longrightarrow> ts ! i = Do e \<Longrightarrow> canStep e st \<Longrightarrow> step v e st = (p, st')
           \<Longrightarrow> cstep v (ts, st) (ts[i := p], st')"

inductive reach :: "'w env \<Rightarrow> ('a, 'w) config \<Rightarrow> ('a, 'w) config \<Rightarrow> bool" for v c where
  here: "reach v c c"
| onward: "reach v c c' \<Longrightarrow> cstep v c' c'' \<Longrightarrow> reach v c c''"

inductive_cases cstepE: "cstep v (ts, st) c"
inductive_simps cstep_iff: "cstep v (ts, st) (ts', st')"

text \<open>Running a schedule: the handlers to step, in order.\<close>

definition stepAt :: "'w env \<Rightarrow> nat \<Rightarrow> ('a, 'w) config \<Rightarrow> ('a, 'w) config option" where
  "stepAt v i c =
     (case c of (ts, st) \<Rightarrow>
        if length ts \<le> i then None
        else (case ts ! i of
            Ret a \<Rightarrow> None
          | Do e \<Rightarrow>
              if canStep e st then (case step v e st of (p, st') \<Rightarrow> Some (ts[i := p], st'))
              else None))"

fun schedule :: "'w env \<Rightarrow> nat list \<Rightarrow> ('a, 'w) config \<Rightarrow> ('a, 'w) config option" where
  "schedule v [] c = Some c"
| "schedule v (i # is) c =
     (case stepAt v i c of None \<Rightarrow> None | Some c' \<Rightarrow> schedule v is c')"

lemma stepAt_cstep: "stepAt v i c = Some c' \<Longrightarrow> cstep v c c'"
  by (cases c) (auto simp: stepAt_def intro: cstep.perform split: if_splits prog.splits prod.splits)

lemma reach_trans: "reach v b c \<Longrightarrow> reach v a b \<Longrightarrow> reach v a c"
  by (induction rule: reach.induct) (auto intro: reach.onward)

lemma schedule_reach: "schedule v is c = Some c' \<Longrightarrow> reach v c c'"
  by (induction "is" arbitrary: c)
    (auto split: option.splits intro: reach.here reach_trans [OF _ reach.onward [OF reach.here stepAt_cstep]])

subsection \<open>Where a locked handler is\<close>

definition releaseThen :: "string \<Rightarrow> (goError + 'a) \<Rightarrow> (goError + 'a) prog" where
  "releaseThen key r = bindP (call (LocksRelease key)) (\<lambda>_. Ret r)"

definition waiting :: "string \<Rightarrow> (goError + 'a) prog \<Rightarrow> bool" where
  "waiting key p \<longleftrightarrow> (\<exists>body. lockFree body \<and> p = withVolumeLock key body)"

lemma waitingI: "lockFree body \<Longrightarrow> waiting key (withVolumeLock key body)"
  by (auto simp: waiting_def)

definition holding :: "string \<Rightarrow> (goError + 'a) prog \<Rightarrow> bool" where
  "holding key p \<longleftrightarrow> (\<exists>q. lockFree q \<and> p = bindP q (releaseThen key))"

definition finished :: "'a prog \<Rightarrow> bool" where
  "finished p \<longleftrightarrow> (\<exists>r. p = Ret r)"

lemma withVolumeLock_Do:
  "withVolumeLock key body = Do (LocksTryAcquire key (\<lambda>acquired.
     if \<not> acquired then failE (StatusError Aborted VolumeOperationAlreadyExistsFmt [AStr key])
     else bindP body (releaseThen key)))"
  unfolding withVolumeLock_def releaseThen_def [abs_def] by (simp add: comp_def)

lemma releaseThen_Do: "releaseThen key r = Do (LocksRelease key (\<lambda>_. Ret r))"
  by (simp add: releaseThen_def comp_def)

lemma holding_Do:
  assumes "holding key p"
  obtains e where "p = Do e" "(\<exists>r. e = LocksRelease key (\<lambda>_. Ret r)) \<or> \<not> lockCall e"
proof -
  from assms obtain q where q: "lockFree q" "p = bindP q (releaseThen key)"
    by (auto simp: holding_def)
  show thesis
  proof (cases q)
    case (Ret r)
    with q that show thesis by (auto simp: releaseThen_Do)
  next
    case (Do e)
    with q that show thesis by (auto simp: lockFree_Do)
  qed
qed

lemma holding_not_finished: "holding key p \<Longrightarrow> \<not> finished p"
  by (erule holding_Do) (simp add: finished_def)

lemma waiting_not_holding: "waiting key p \<Longrightarrow> \<not> holding key' p"
  by (auto simp: waiting_def withVolumeLock_Do elim!: holding_Do)

lemma waiting_not_finished: "waiting key p \<Longrightarrow> \<not> finished p"
  by (auto simp: waiting_def withVolumeLock_Do finished_def)

text \<open>A step of a handler that waits, by the state of its key.\<close>

lemma step_waiting:
  assumes "waiting key (Do e)" and "step v e st = (p, st')"
  shows "(key \<in> vl_locks (proc_locks st) \<and> finished p \<and> st' = st) \<or>
    (key \<notin> vl_locks (proc_locks st) \<and> holding key p \<and>
     vl_locks (proc_locks st') = insert key (vl_locks (proc_locks st)))"
  using assms
  by (auto simp: waiting_def withVolumeLock_Do TryAcquire_def finished_def holding_def
      split: if_splits)

text \<open>A step of a handler that holds its key.\<close>

lemma step_holding:
  assumes "holding key (Do e)" and "step v e st = (p, st')"
  shows "(holding key p \<and> proc_locks st' = proc_locks st) \<or>
    (finished p \<and> vl_locks (proc_locks st') = vl_locks (proc_locks st) - {key})"
proof -
  from assms(1) obtain q where q: "lockFree q" "Do e = bindP q (releaseThen key)"
    by (auto simp: holding_def)
  show ?thesis
  proof (cases q)
    case (Ret r)
    with q assms(2) show ?thesis
      by (auto simp: releaseThen_Do Release_def finished_def)
  next
    case (Do e')
    with q have e: "e = map_eff (\<lambda>p. bindP p (releaseThen key)) e'" and lf: "\<not> lockCall e'"
      "\<And>p. p \<in> set_eff e' \<Longrightarrow> lockFree p"
      by (simp_all add: lockFree_Do)
    obtain p' s' where st: "step v e' st = (p', s')" by fastforce
    with e assms(2) have "p = bindP p' (releaseThen key)" "st' = s'"
      by (simp_all add: step_map)
    moreover have "lockFree p'" using lf(2) step_set [of v e' st] st by simp
    moreover have "proc_locks s' = proc_locks st" using step_locks [OF lf(1), of v st] st by simp
    ultimately show ?thesis by (auto simp: holding_def)
  qed
qed

subsection \<open>Mutual exclusion\<close>

definition inside :: "string list \<Rightarrow> (goError + 'a) prog list \<Rightarrow> nat set" where
  "inside ks ts = {i. i < length ts \<and> holding (ks ! i) (ts ! i)}"

text \<open>Every handler waits, is inside, or has finished; the handlers inside have different keys, none of
  them held from before; the lock set holds these keys and the ones from before.\<close>

definition lockInv :: "string set \<Rightarrow> string list \<Rightarrow> (goError + 'a, 'w) config \<Rightarrow> bool" where
  "lockInv old ks c \<longleftrightarrow> (case c of (ts, st) \<Rightarrow>
     length ts = length ks \<and>
     (\<forall>i < length ts. waiting (ks ! i) (ts ! i) \<or> holding (ks ! i) (ts ! i) \<or> finished (ts ! i)) \<and>
     inj_on (\<lambda>i. ks ! i) (inside ks ts) \<and>
     (\<lambda>i. ks ! i) ` inside ks ts \<inter> old = {} \<and>
     vl_locks (proc_locks st) = old \<union> (\<lambda>i. ks ! i) ` inside ks ts)"

lemma inside_update:
  "i < length ts \<Longrightarrow> inside ks (ts[i := p]) =
     (if holding (ks ! i) p then insert i (inside ks ts) else inside ks ts - {i})"
  by (auto simp: inside_def nth_list_update split: if_splits)

lemma lockInv_start:
  assumes "length ts = length ks" and "\<forall>i < length ts. waiting (ks ! i) (ts ! i) \<or> finished (ts ! i)"
  shows "lockInv (vl_locks (proc_locks st)) ks (ts, st)"
proof -
  have "inside ks ts = {}"
    using assms(2) by (auto simp: inside_def dest: waiting_not_holding holding_not_finished)
  with assms show ?thesis by (auto simp: lockInv_def)
qed

lemma lockInv_step:
  assumes "cstep v c c'" and "lockInv old ks c"
  shows "lockInv old ks c'"
  using assms(1)
proof cases
  case call: (perform i ts e st p st')
  let ?k = "ks ! i" let ?I = "inside ks ts"
  from assms(2) call have inv: "length ts = length ks"
    "\<forall>i < length ts. waiting (ks ! i) (ts ! i) \<or> holding (ks ! i) (ts ! i) \<or> finished (ts ! i)"
    "inj_on (\<lambda>i. ks ! i) ?I" "(\<lambda>i. ks ! i) ` ?I \<inter> old = {}"
    "vl_locks (proc_locks st) = old \<union> (\<lambda>i. ks ! i) ` ?I"
    by (simp_all add: lockInv_def)
  have others: "\<forall>j < length (ts[i := p]). waiting (ks ! j) (ts[i := p] ! j) \<or> holding (ks ! j) (ts[i := p] ! j)
      \<or> finished (ts[i := p] ! j)"
    if "holding ?k p \<or> finished p"
    using inv(2) that call(3) by (auto simp: nth_list_update)
  have "finished (ts ! i) \<Longrightarrow> False" using call by (simp add: finished_def)
  with inv(2) call consider (wait) "waiting ?k (Do e)" | (hold) "holding ?k (Do e)" by auto
  then show ?thesis
  proof cases
    case wait
    from wait call have notin: "i \<notin> ?I" by (auto simp: inside_def dest: waiting_not_holding)
    from step_waiting [OF wait call(6)] show ?thesis
    proof (elim disjE conjE)
      assume "finished p" "st' = st"
      then have "\<not> holding ?k p" using holding_not_finished by blast
      with notin have "inside ks (ts[i := p]) = ?I" using call(3) by (simp add: inside_update)
      with inv others \<open>finished p\<close> \<open>st' = st\<close> call(2) show ?thesis by (simp add: lockInv_def)
    next
      assume a: "?k \<notin> vl_locks (proc_locks st)" "holding ?k p"
        "vl_locks (proc_locks st') = insert ?k (vl_locks (proc_locks st))"
      then have "inside ks (ts[i := p]) = insert i ?I" using call(3) by (simp add: inside_update)
      with inv others a notin call(2) show ?thesis by (auto simp: lockInv_def)
    qed
  next
    case hold
    from hold call have i: "i \<in> ?I" by (simp add: inside_def)
    from step_holding [OF hold call(6)] show ?thesis
    proof (elim disjE conjE)
      assume a: "holding ?k p" "proc_locks st' = proc_locks st"
      with i have "inside ks (ts[i := p]) = ?I" using call(3) by (auto simp: inside_update)
      with inv others a call(2) show ?thesis by (simp add: lockInv_def)
    next
      assume a: "finished p" "vl_locks (proc_locks st') = vl_locks (proc_locks st) - {?k}"
      then have "\<not> holding ?k p" using holding_not_finished by blast
      then have I: "inside ks (ts[i := p]) = ?I - {i}" using call(3) by (simp add: inside_update)
      have "(\<lambda>i. ks ! i) ` (?I - {i}) = (\<lambda>i. ks ! i) ` ?I - {?k}"
        using inv(3) i by (auto simp: inj_on_def)
      moreover have "?k \<notin> old" using inv(4) i by auto
      ultimately show ?thesis
        using inv others a I call(2) inj_on_subset [OF inv(3), of "?I - {i}"]
        by (auto simp: lockInv_def)
    qed
  qed
qed

lemma lockInv_reach: "reach v c c' \<Longrightarrow> lockInv old ks c \<Longrightarrow> lockInv old ks c'"
  by (induction rule: reach.induct) (auto intro: lockInv_step)

text \<open>C28: under every interleaving of handlers that lock a key around a body without lock calls, two
  handlers inside their critical sections at the same time have different keys, no handler is inside
  with a key that was locked before, and when all handlers have finished the lock set is the
  initial one.\<close>

theorem mutual_exclusion:
  assumes "length ks = length bodies" and "\<forall>b \<in> set bodies. lockFree b"
    and "reach v (map2 withVolumeLock ks bodies, st) (ts, st')"
  shows "(\<forall>i < length ts. \<forall>j < length ts. i \<noteq> j \<longrightarrow> holding (ks ! i) (ts ! i) \<longrightarrow>
      holding (ks ! j) (ts ! j) \<longrightarrow> ks ! i \<noteq> ks ! j) \<and>
    (\<forall>i < length ts. holding (ks ! i) (ts ! i) \<longrightarrow> ks ! i \<notin> vl_locks (proc_locks st)) \<and>
    ((\<forall>t \<in> set ts. finished t) \<longrightarrow> vl_locks (proc_locks st') = vl_locks (proc_locks st))"
proof -
  let ?old = "vl_locks (proc_locks st)"
  have "lockInv ?old ks (map2 withVolumeLock ks bodies, st)"
    by (rule lockInv_start) (use assms(1,2) in \<open>auto simp: waiting_def\<close>)
  from lockInv_reach [OF assms(3) this] have inv: "inj_on (\<lambda>i. ks ! i) (inside ks ts)"
    "(\<lambda>i. ks ! i) ` inside ks ts \<inter> ?old = {}"
    "vl_locks (proc_locks st') = ?old \<union> (\<lambda>i. ks ! i) ` inside ks ts"
    by (simp_all add: lockInv_def)
  moreover have "inside ks ts = {}" if "\<forall>t \<in> set ts. finished t"
    using that holding_not_finished by (fastforce simp: inside_def)
  ultimately show ?thesis by (fastforce simp: inj_on_def inside_def)
qed

text \<open>What a finished handler has returned.\<close>

fun progResult :: "'a prog \<Rightarrow> 'a option" where
  "progResult (Ret a) = Some a"
| "progResult (Do e) = None"

lemma progResult_Some: "progResult p = Some a \<longleftrightarrow> p = Ret a"
  by (cases p) simp_all

text \<open>The configuration a schedule leads to, or the initial one when the schedule is not possible.\<close>

definition runSchedule :: "('w env) \<Rightarrow> nat list \<Rightarrow> ('a, 'w) config \<Rightarrow> ('a, 'w) config" where
  "runSchedule v is c = (case schedule v is c of None \<Rightarrow> c | Some c' \<Rightarrow> c')"

lemma runSchedule_reach: "runSchedule v is c = c' \<Longrightarrow> reach v c c'"
  by (auto simp: runSchedule_def intro: reach.here schedule_reach split: option.splits)

text \<open>Two reads under one lock, the second of which meets the first.\<close>

definition lockedBodies :: "(goError + NFSFilesystemAccessPolicy) prog list" where
  "lockedBodies = [call (GetNFSFilesystemAccessPolicy 1 10000), call (GetNFSFilesystemAccessPolicy 1 10000)]"

definition lockedEnd :: "(goError + NFSFilesystemAccessPolicy, SanityWorld) config" where
  "lockedEnd =
     runSchedule sanityEnv [0, 1, 0] (map2 withVolumeLock [''k'', ''k''] lockedBodies, createdProc)"

theorem mutual_exclusion_witness:
  "\<not> (holding ''k'' (fst lockedEnd ! 0) \<and> holding ''k'' (fst lockedEnd ! 1))"
proof -
  have r: "reach sanityEnv (map2 withVolumeLock [''k'', ''k''] lockedBodies, createdProc)
      (fst lockedEnd, snd lockedEnd)"
    unfolding prod.collapse lockedEnd_def by (rule runSchedule_reach) (rule HOL.refl)
  have "length (fst lockedEnd) = 2" by code_simp
  moreover have "\<forall>b \<in> set lockedBodies. lockFree b"
    by (auto simp: lockedBodies_def intro!: lockFree_intros)
  ultimately show ?thesis
    using mutual_exclusion [OF _ _ r] by (fastforce simp: lockedBodies_def)
qed

end
