(* ===== verification/NodeSafety.thy ===== *)
theory NodeSafety
  imports NodeFacts
begin

text \<open>
  Further properties of the node service: the lock set after every call, the rewriting of mount
  options, the arithmetic of volume statistics on 64-bit words, the node ID that
  \<open>NodeGetInfo\<close> reports, and what a failed bind mount does to the staging mount.
\<close>

subsection \<open>Locks\<close>

lemma lockFree_ensure [simp]: "lockFree (ensureMountPoint p)"
  by (auto simp: ensureMountPoint_def intro!: lockFree_intros split: option.split)

lemma lockFree_mountStage [simp]: "lockFree (mountStage req source o')"
  by (auto simp: mountStage_def intro!: lockFree_intros)

lemma lockFree_stageLocked [simp]: "lockFree (stageLocked req source ips)"
  by (auto simp: stageLocked_def nodeStageVolume_def Let_def intro!: lockFree_intros split: option.split)

lemma lockFree_nodePublishLocked [simp]: "lockFree (nodePublishLocked req)"
  by (auto simp: nodePublishLocked_def nodePublishVolume_def intro!: lockFree_intros split: option.split)

lemma lockFree_cleanupAt [simp]: "lockFree (cleanupAt p m)"
  by (auto simp: cleanupAt_def intro!: lockFree_intros)

text \<open>No node RPC leaks or drops a lock.\<close>

lemma node_locks_restored:
  "proc_locks (snd (run (NodeStageVolume s a) v st)) = proc_locks st \<and>
   proc_locks (snd (run (NodeUnstageVolume s b) v st)) = proc_locks st \<and>
   proc_locks (snd (run (NodePublishVolume s c) v st)) = proc_locks st \<and>
   proc_locks (snd (run (NodeUnpublishVolume s d) v st)) = proc_locks st \<and>
   proc_locks (snd (run (NodeGetVolumeStats s e) v st)) = proc_locks st \<and>
   proc_locks (snd (run (NodeGetInfo s) v st)) = proc_locks st"
proof (intro conjI)
  show "proc_locks (snd (run (NodeStageVolume s a) v st)) = proc_locks st"
    by (auto simp: NodeStageVolume_def run_bindE_Ret run_withVolumeLock_locks split: sum.split)
  show "proc_locks (snd (run (NodeGetVolumeStats s e) v st)) = proc_locks st"
    by (rule lockFree_run)
      (auto simp: NodeGetVolumeStats_def intro!: lockFree_intros split: sum.split)
  show "proc_locks (snd (run (NodeGetInfo s) v st)) = proc_locks st"
    by (rule lockFree_run)
      (auto simp: NodeGetInfo_def intro!: lockFree_intros split: option.split)
qed (simp_all add: NodeUnstageVolume_def NodePublishVolume_def NodeUnpublishVolume_def
    run_withVolumeLock_locks)

subsection \<open>Mount options\<close>

text \<open>The rewriting of a mount option replaces exactly the comma-separated parts
  \<open>remoteports=dns\<close> by the address list and keeps every other part; the two tests the code makes
  first are shortcuts that never change the result.\<close>

lemma rewriteOption_spec:
  "rewriteOption ips option' =
     joinStr '','' (map (\<lambda>part. if part = remoteportsDNS then ''remoteports='' @ joinStr ''~'' ips else part)
       (splitByte CHR '','' option'))"
proof (cases "remoteportsDNS \<in> set (splitByte CHR '','' option')")
  case True
  then obtain xs ys where "splitByte CHR '','' option' = xs @ remoteportsDNS # ys"
    by (auto simp: in_set_conv_decomp)
  then have "option' = joinStr '','' (xs @ remoteportsDNS # ys)" by (metis join_split)
  moreover have "\<exists>a b. joinStr '','' (xs @ z # ys) = a @ z @ b" for z :: string
  proof (induction xs)
    case Nil
    show ?case by (cases ys) (auto intro: exI [of _ "[]"])
  next
    case (Cons x xs)
    then obtain a b where "joinStr '','' (xs @ z # ys) = a @ z @ b" by blast
    then have "joinStr '','' ((x # xs) @ z # ys) = (x @ '','' @ a) @ z @ b"
      by (cases xs) auto
    then show ?case by blast
  qed
  ultimately have "containsStr option' remoteportsDNS" by (metis containsStr_iff)
  with True show ?thesis by (simp add: rewriteOption_def Let_def)
next
  case False
  then have "map (\<lambda>part. if part = remoteportsDNS then ''remoteports='' @ joinStr ''~'' ips else part)
      (splitByte CHR '','' option') = splitByte CHR '','' option'"
    by (intro map_idI) auto
  with False show ?thesis by (simp add: rewriteOption_def Let_def)
qed

subsection \<open>Volume statistics\<close>

lemma sint_small:
  fixes w :: "64 word"
  assumes "unat w < 2 ^ 63"
  shows "sint w = int (unat w)"
proof -
  have u: "uint w = int (unat w)" by simp
  have "int (unat w) < int (2 ^ 63)" using assms by (simp only: of_nat_less_iff)
  then have "uint w < 2 ^ 63" using u by (simp only: of_nat_power of_nat_numeral)
  moreover have "- (2 ^ 63) \<le> uint w" by (rule order_trans [OF _ uint_ge_0]) simp
  ultimately have "signed_take_bit 63 (uint w) = uint w"
    by (intro signed_take_bit_int_eq_self)
  then show ?thesis by (simp add: sint_uint)
qed

lemma sint_mult_small:
  fixes a b :: "64 word"
  assumes "unat a * unat b < 2 ^ 63"
  shows "sint (a * b) = int (unat a) * int (unat b)"
proof -
  from assms have "unat a * unat b < 2 ^ LENGTH(64)" by simp
  then have "unat (a * b) = unat a * unat b" by (simp only: unat_mult_lem)
  with sint_small [of "a * b"] assms show ?thesis by simp
qed

text \<open>C36: the byte statistics always satisfy used + free = total on 64-bit words; and for a filesystem of
  less than \<open>2 ^ 63\<close> bytes whose free, available counts do not exceed its size, the three signed
  numbers reported are exactly the block counts times the block size, and none is negative.\<close>

theorem volumeUsage_exact:
  assumes "unat (sf_Blocks f) * unat (sf_Bsize f) < 2 ^ 63"
    and "sf_Bfree f \<le> sf_Blocks f" and "sf_Bavail f \<le> sf_Blocks f"
  shows "case volumeUsage f of
      [bytes, inodes] \<Rightarrow>
        usage_Used bytes + sf_Bfree f * sf_Bsize f = usage_Total bytes \<and>
        sint (usage_Total bytes) = int (unat (sf_Blocks f)) * int (unat (sf_Bsize f)) \<and>
        sint (usage_Available bytes) = int (unat (sf_Bavail f)) * int (unat (sf_Bsize f)) \<and>
        sint (usage_Used bytes) =
          (int (unat (sf_Blocks f)) - int (unat (sf_Bfree f))) * int (unat (sf_Bsize f))
    | _ \<Rightarrow> False"
proof -
  have le: "unat x * unat (sf_Bsize f) < 2 ^ 63" if "x \<le> sf_Blocks f" for x
    by (rule le_less_trans [OF mult_le_mono1 assms(1)]) (use that in \<open>simp add: word_le_nat_alt\<close>)
  have used: "sf_Blocks f - sf_Bfree f \<le> sf_Blocks f" "unat (sf_Blocks f - sf_Bfree f) = unat (sf_Blocks f) - unat (sf_Bfree f)"
    using assms(2) by (simp_all add: word_le_nat_alt unat_sub)
  have "int (unat (sf_Blocks f - sf_Bfree f)) = int (unat (sf_Blocks f)) - int (unat (sf_Bfree f))"
    using used(2) assms(2) by (simp add: word_le_nat_alt)
  then have "sint ((sf_Blocks f - sf_Bfree f) * sf_Bsize f) =
      (int (unat (sf_Blocks f)) - int (unat (sf_Bfree f))) * int (unat (sf_Bsize f))"
    using sint_mult_small [OF le [OF used(1)]] by (simp only:)
  moreover have "(sf_Blocks f - sf_Bfree f) * sf_Bsize f + sf_Bfree f * sf_Bsize f = sf_Blocks f * sf_Bsize f"
    by (simp add: algebra_simps)
  ultimately show ?thesis
    using sint_mult_small [OF assms(1)] sint_mult_small [OF le [OF assms(3)]]
    by (simp only: volumeUsage_def list.case VolumeUsage.select_convs simp_thms)
qed

theorem volumeUsage_exact_witness:
  "case volumeUsage sampleStatfs of
     [bytes, inodes] \<Rightarrow> sint (usage_Total bytes) = 4096000 \<and> sint (usage_Used bytes) = 1638400
   | _ \<Rightarrow> False"
  using volumeUsage_exact [of sampleStatfs] by (simp add: sampleStatfs_def split: list.splits)

subsection \<open>The node ID\<close>

text \<open>The instance metadata service reports IDs in the range of Go's \<open>int\<close>.\<close>

definition instanceIDsInRange :: "'w MetadataClients \<Rightarrow> bool" where
  "instanceIDsInRange m \<longleftrightarrow>
     (\<forall>w i. fst (mc_GetInstance m w) = Inr i \<longrightarrow> int_range (inst_ID i))"

lemma linodeID_range: "linodeIDFromProviderID p = Inr i \<Longrightarrow> int_range i"
  by (auto simp: linodeIDFromProviderID_def dest: Atoi_range split: if_splits sum.splits)

lemma NodeByName_range:
  "run (NodeByName n) v st = (Inr node, st') \<Longrightarrow> int_range (nm_LinodeID node)"
  by (auto simp: NodeByName_def run_simps nodeMetadata_def bindR_eq_Inr_iff dest: linodeID_range
      split: if_splits sum.splits prod.splits)

lemma currentNode_range:
  assumes "run (currentNodeFromMetadata s) v st = (Inr node, st')"
    and "instanceIDsInRange (env_metadata v)"
  shows "int_range (nm_LinodeID node) \<and> nm_LinodeID node \<noteq> 0"
proof -
  from assms(1) obtain i where "fst (mc_GetInstance (env_metadata v) (proc_world st)) = Inr i"
    "inst_ID i = nm_LinodeID node" "inst_ID i \<noteq> 0"
    by (auto simp: currentNodeFromMetadata_def run_simps split: if_splits sum.splits prod.splits)
  with assms(2) show ?thesis unfolding instanceIDsInRange_def by metis
qed

lemma CurrentNode_range:
  assumes "run (CurrentNode s) v st = (Inr node, st')" and "instanceIDsInRange (env_metadata v)"
  shows "int_range (nm_LinodeID node)"
proof -
  obtain r st1 where c: "run (currentNodeFromMetadata s) v st = (r, st1)" by fastforce
  show ?thesis
  proof (cases "ms_nodeName s \<noteq> [] \<and> ms_instanceClient s \<and> (\<exists>n. r = Inr n)")
    case True
    with assms(1) c have "run (currentNodeFromMetadata s) v st = (Inr node, st')"
      by (auto simp: CurrentNode_def run_bindP)
    from currentNode_range [OF this assms(2)] show ?thesis by simp
  next
    case False
    with assms(1) c obtain st2 where "run (NodeByName (ms_nodeName s)) v st2 = (Inr node, st')"
      by (cases r) (auto simp: CurrentNode_def run_bindP split: if_splits)
    then show ?thesis by (rule NodeByName_range)
  qed
qed

text \<open>The node ID that \<open>NodeGetInfo\<close> reports is the decimal Linode ID, in the form the controller
  parses back when it publishes a volume to that node.\<close>

lemma nodeGetInfo_id:
  assumes "instanceIDsInRange (env_metadata v)" and "run (NodeGetInfo s) v st = (Inr nodeID, st')"
  shows "\<exists>linodeID. nodeID = Itoa linodeID \<and> Atoi nodeID = Inr linodeID \<and>
    (\<forall>volumeID h. parseVolumeHandle volumeID = Inr h \<longrightarrow>
       parseVolumeHandleAndNodeID volumeID nodeID = Inr (h, linodeID))"
proof -
  from assms(2) obtain m node where "run (CurrentNode m) v st = (Inr node, st')"
    and n: "nodeID = Itoa (nm_LinodeID node)"
    by (auto simp: NodeGetInfo_def run_bindE run_mapErr split: option.splits sum.splits prod.splits)
  from CurrentNode_range [OF this(1) assms(1)] n show ?thesis
    by (auto simp: parseVolumeHandleAndNodeID_Inr)
qed

theorem nodeGetInfo_id_witness:
  "\<exists>linodeID. ''123'' = Itoa linodeID \<and> parseVolumeHandleAndNodeID ''1/10000'' ''123'' =
     Inr (\<lparr>vh_spaceID = 1, vh_filesystemID = 10000\<rparr>, linodeID)"
proof -
  have "fst (run (NodeGetInfo sanityNodeServer) sanityEnv sanityProc) = Inr ''123''" by code_simp
  then have r: "run (NodeGetInfo sanityNodeServer) sanityEnv sanityProc =
      (Inr ''123'', snd (run (NodeGetInfo sanityNodeServer) sanityEnv sanityProc))"
    by (metis prod.collapse)
  have i: "instanceIDsInRange (env_metadata sanityEnv)"
    by (auto simp: instanceIDsInRange_def sanityEnv_def sanityMetadata_def sanityNodeID_def int_range_def)
  have h: "parseVolumeHandle ''1/10000'' = Inr \<lparr>vh_spaceID = 1, vh_filesystemID = 10000\<rparr>"
    by code_simp
  from nodeGetInfo_id [OF i r] h show ?thesis by blast
qed

subsection \<open>A failed bind mount\<close>

text \<open>A target that is mounted from elsewhere, which the mount-point check does not see: the bind
  mount that follows is refused.\<close>

text \<open>Making sure of a target that is not mounted, and does or does not exist yet.\<close>

lemma run_ensure_unmounted:
  assumes "h_IsLikelyNotMountPoint (env_host v) p (proc_world st) = ((True, e), w)"
    and "case e of None \<Rightarrow> w1 = w | Some x \<Rightarrow> osIsNotExist x \<and> h_MkdirAll (env_host v) p w = (None, w1)"
  shows "run (ensureMountPoint p) v st = (Inr True, st\<lparr>proc_world := w1\<rparr>)"
  using assms by (cases e) (simp_all add: ensureMountPoint_def run_simps)

text \<open>C40: when the target is not mounted (and exists or can be made) and the bind mount of a well-formed
  \<open>NodePublishVolume\<close> request fails, the handler fails with Internal, and its cleanup is applied to the staging
  path, not to the target that its log message names. If that unmounts it, as it says when it returns no
  error, the mount that all other pods of the volume on the node bind from is gone; nothing else, the target
  included, changes.\<close>

theorem failed_publish_unmounts_staging:
  assumes host: "mount_host (env_host v) canon mounts"
    and valid: "np_VolumeId req \<noteq> []" "np_StagingTargetPath req \<noteq> []" "np_TargetPath req \<noteq> []"
      "np_VolumeCapability req \<noteq> None"
    and free: "np_TargetPath req \<notin> vl_locks (proc_locks st)"
    and probe: "h_IsLikelyNotMountPoint (env_host v) (np_TargetPath req) (proc_world st) = ((True, e), w)"
      "case e of None \<Rightarrow> w1 = w
       | Some x \<Rightarrow> osIsNotExist x \<and> h_MkdirAll (env_host v) (np_TargetPath req) w = (None, w1)"
    and bind: "h_Mount (env_host v) (np_StagingTargetPath req) (np_TargetPath req) nfsFilesystemType
      (publishOptions req) w1 = (Some err, w2)"
    and cleanup: "h_CleanupMountPoint (env_host v) (np_StagingTargetPath req) False w2 = (unmntErr, w3)"
  shows "run (NodePublishVolume s req) v st =
      (Inl (errInternal ''NodePublishVolume could not mount %s at %s: %v''
         [AStr (np_StagingTargetPath req), AStr (np_TargetPath req), AErr err]), st\<lparr>proc_world := w3\<rparr>) \<and>
    (unmntErr = None \<longrightarrow> mounts w3 (canon (np_StagingTargetPath req)) = None) \<and>
    (\<forall>q. q \<noteq> canon (np_StagingTargetPath req) \<longrightarrow> mounts w3 q = mounts (proc_world st) q)"
proof
  let ?locked = "st\<lparr>proc_locks := (proc_locks st)\<lparr>vl_locks := insert (np_TargetPath req) (vl_locks (proc_locks st))\<rparr>\<rparr>"
  have "run (ensureMountPoint (np_TargetPath req)) v ?locked = (Inr True, ?locked\<lparr>proc_world := w1\<rparr>)"
    using probe by (intro run_ensure_unmounted) simp_all
  moreover have "run (nodePublishVolume req) v (?locked\<lparr>proc_world := w1\<rparr>) =
      (Inl (errInternal ''NodePublishVolume could not mount %s at %s: %v''
         [AStr (np_StagingTargetPath req), AStr (np_TargetPath req), AErr err]), ?locked\<lparr>proc_world := w3\<rparr>)"
    using bind cleanup by (simp add: nodePublishVolume_def run_simps)
  ultimately show "run (NodePublishVolume s req) v st =
      (Inl (errInternal ''NodePublishVolume could not mount %s at %s: %v''
         [AStr (np_StagingTargetPath req), AStr (np_TargetPath req), AErr err]), st\<lparr>proc_world := w3\<rparr>)"
    using valid free
    by (auto simp: NodePublishVolume_def run_withVolumeLock_free nodePublishLocked_def run_bindE)
  have "mounts w = mounts (proc_world st)" using mount_host.likely [OF host probe(1)] by blast
  moreover have "mounts w1 = mounts w" using probe(2) mount_host.mkdir [OF host] by (cases e) auto
  moreover have "mounts w2 = mounts w1" using mount_host.mount [OF host bind] by simp
  ultimately show "(unmntErr = None \<longrightarrow> mounts w3 (canon (np_StagingTargetPath req)) = None) \<and>
      (\<forall>q. q \<noteq> canon (np_StagingTargetPath req) \<longrightarrow> mounts w3 q = mounts (proc_world st) q)"
    using mount_host.cleanup [OF host cleanup] by simp
qed

text \<open>A host whose check misses a bind mount, as the documentation of \<open>IsLikelyNotMountPoint\<close> warns: the mounter of
  the suite then refuses to mount at the occupied target.\<close>

definition blindHost :: "SanityWorld Host" where
  "blindHost = sanityHost\<lparr>h_IsLikelyNotMountPoint := (\<lambda>p w. ((True, None), w))\<rparr>"

definition occupiedProc :: "SanityWorld proc" where
  "occupiedProc = stagedProc\<lparr>proc_world := (proc_world stagedProc)
     \<lparr>fm_mounts := (''/target'', \<lparr>fsm_source = ''/other'', fsm_fstype = ''nfs'', fsm_options = [''bind'']\<rparr>)
        # fm_mounts (proc_world stagedProc)\<rparr>\<rparr>"

lemma blindHost_contract: "mount_host blindHost Clean fakeTable"
proof -
  have "mount_host sanityHost Clean fakeTable" using nodeEnv_host by (simp add: nodeEnv_def)
  then show ?thesis unfolding mount_host_def blindHost_def by simp
qed

lemma occupied_mount:
  "fst (h_Mount blindHost ''/staging'' ''/target'' ''nfs'' (publishOptions nodePublishReq) (proc_world occupiedProc))
     \<noteq> None"
  "fst (h_CleanupMountPoint blindHost ''/staging'' False (snd (h_Mount blindHost ''/staging'' ''/target'' ''nfs''
     (publishOptions nodePublishReq) (proc_world occupiedProc)))) = None"
  by code_simp+

theorem failed_publish_unmounts_staging_witness:
  "\<exists>err st'. run (NodePublishVolume sanityNodeServer nodePublishReq) (nodeEnv\<lparr>env_host := blindHost\<rparr>) occupiedProc =
       (Inl (errInternal ''NodePublishVolume could not mount %s at %s: %v''
          [AStr ''/staging'', AStr ''/target'', AErr err]), st') \<and>
     fakeTable (proc_world occupiedProc) ''/staging'' \<noteq> None \<and>
     fakeTable (proc_world st') ''/staging'' = None \<and>
     fakeTable (proc_world st') ''/target'' = fakeTable (proc_world occupiedProc) ''/target''"
proof -
  let ?v = "nodeEnv\<lparr>env_host := blindHost\<rparr>"
  have host: "mount_host (env_host ?v) Clean fakeTable" by (simp add: blindHost_contract)
  have valid: "np_VolumeId nodePublishReq \<noteq> []" "np_StagingTargetPath nodePublishReq = ''/staging''"
    "np_TargetPath nodePublishReq = ''/target''" "np_VolumeCapability nodePublishReq \<noteq> None"
    by code_simp+
  have free: "''/target'' \<notin> vl_locks (proc_locks occupiedProc)" by code_simp
  have probe: "h_IsLikelyNotMountPoint (env_host ?v) ''/target'' (proc_world occupiedProc) =
      ((True, None), proc_world occupiedProc)"
    by (simp add: blindHost_def)
  obtain err w2 where bind: "h_Mount (env_host ?v) ''/staging'' ''/target'' nfsFilesystemType
      (publishOptions nodePublishReq) (proc_world occupiedProc) = (Some err, w2)"
    using occupied_mount(1) by (cases "h_Mount blindHost ''/staging'' ''/target'' ''nfs''
      (publishOptions nodePublishReq) (proc_world occupiedProc)") (auto simp: nfsFilesystemType_def)
  obtain w3 where cleanup: "h_CleanupMountPoint (env_host ?v) ''/staging'' False w2 = (None, w3)"
    using occupied_mount(2) bind by (cases "h_CleanupMountPoint blindHost ''/staging'' False w2")
      (auto simp: nfsFilesystemType_def)
  have staged: "fakeTable (proc_world occupiedProc) ''/staging'' \<noteq> None" by code_simp
  note f = failed_publish_unmounts_staging [OF host, of nodePublishReq occupiedProc None
      "proc_world occupiedProc" "proc_world occupiedProc" err w2 None w3 sanityNodeServer, unfolded valid(2,3)]
  from f [OF valid(1) _ _ valid(4) free probe _ bind cleanup] staged show ?thesis by auto
qed

end
