(* ===== verification/FilesystemFacts.thy ===== *)
theory FilesystemFacts
  imports ControllerSafety
begin

text \<open>
  What volume creation promises. The locale \<open>filesystem_store\<close> is the contract of the calls that
  \<open>CreateVolume\<close> and \<open>DeleteVolume\<close> make, over an abstract table of filesystems keyed by space and
  filesystem ID: an exact-field listing returns the matching filesystems, creation adds one or
  returns the existing one with the same parameters, a successful wait activates it, deletion
  removes it, and no other call changes the table. Under it a created volume is an active
  filesystem with the requested label, region and tags, nothing else in the table is touched, and a
  retry never makes a second filesystem.
\<close>

subsection \<open>Relations a program keeps\<close>

text \<open>A program keeps a relation on process states when every run of it does.\<close>

definition keeps :: "'w env \<Rightarrow> ('w proc \<Rightarrow> 'w proc \<Rightarrow> bool) \<Rightarrow> 'a prog \<Rightarrow> bool" where
  "keeps v R p \<longleftrightarrow> (\<forall>st. R st (snd (run p v st)))"

lemma keepsD: "keeps v R p \<Longrightarrow> run p v st = (r, st') \<Longrightarrow> R st st'"
  by (metis keeps_def snd_conv)

lemma keeps_Ret: "reflp R \<Longrightarrow> keeps v R (Ret a)"
  by (simp add: keeps_def reflpD)

lemma keeps_bindP:
  assumes "transp R" and "keeps v R p" and "\<And>a. keeps v R (f a)"
  shows "keeps v R (bindP p f)"
  unfolding keeps_def
proof
  fix st
  obtain a st1 where 1: "run p v st = (a, st1)" by fastforce
  obtain b st2 where 2: "run (f a) v st1 = (b, st2)" by fastforce
  show "R st (snd (run (bindP p f) v st))"
    using transpD [OF assms(1) keepsD [OF assms(2) 1] keepsD [OF assms(3) 2]] 1 2
    by (simp add: run_bindP)
qed

lemma keeps_bindE:
  "reflp R \<Longrightarrow> transp R \<Longrightarrow> keeps v R p \<Longrightarrow> (\<And>a. keeps v R (f a)) \<Longrightarrow> keeps v R (bindE p f)"
  unfolding bindE_def by (rule keeps_bindP) (auto intro: keeps_Ret split: sum.split)

lemma keeps_mapErr: "reflp R \<Longrightarrow> transp R \<Longrightarrow> keeps v R p \<Longrightarrow> keeps v R (mapErr h p)"
  unfolding mapErr_def by (rule keeps_bindP) (auto intro: keeps_Ret split: sum.split)

lemmas keeps_intros = keeps_bindP keeps_bindE keeps_mapErr keeps_Ret

subsection \<open>The contract\<close>

text \<open>Two filesystems that differ in status and mount targets at most.\<close>

definition sameFilesystem :: "NFSFilesystem \<Rightarrow> NFSFilesystem \<Rightarrow> bool" where
  "sameFilesystem f g \<longleftrightarrow>
     fs_ID f = fs_ID g \<and> fs_SpaceID f = fs_SpaceID g \<and> fs_Label f = fs_Label g \<and>
     fs_Region f = fs_Region g \<and> fs_MaxCapacityBytes f = fs_MaxCapacityBytes g \<and>
     fs_Tags f = fs_Tags g \<and> fs_ProtocolVersions f = fs_ProtocolVersions g"

lemma sameFilesystem_refl [simp]: "sameFilesystem f f"
  by (simp add: sameFilesystem_def)

text \<open>The tags a create request carries.\<close>

definition requestedTags :: "NFSFilesystemCreateOptions \<Rightarrow> string list" where
  "requestedTags o' = (case cr_Tags o' of None \<Rightarrow> [] | Some ts \<Rightarrow> elems ts)"

text \<open>On worlds: the invariant of the backend and the table are kept.\<close>

definition frame :: "('w \<Rightarrow> bool) \<Rightarrow> ('w \<Rightarrow> int \<times> int \<Rightarrow> NFSFilesystem option) \<Rightarrow> 'w \<Rightarrow> 'w \<Rightarrow> bool" where
  "frame good fss w w' \<longleftrightarrow> (good w \<longrightarrow> good w' \<and> fss w' = fss w)"

text \<open>On process states: the cached region is kept, too.\<close>

definition procFrame ::
    "('w \<Rightarrow> bool) \<Rightarrow> ('w \<Rightarrow> int \<times> int \<Rightarrow> NFSFilesystem option) \<Rightarrow> 'w proc \<Rightarrow> 'w proc \<Rightarrow> bool" where
  "procFrame good fss st st' \<longleftrightarrow>
     proc_region st' = proc_region st \<and> frame good fss (proc_world st) (proc_world st')"

lemma frame_rel: "reflp (frame good fss)" "transp (frame good fss)"
  by (auto simp: frame_def intro: reflpI transpI)

lemma procFrame_rel [simp]: "reflp (procFrame good fss)" "transp (procFrame good fss)"
  by (auto simp: procFrame_def frame_def intro: reflpI transpI)

text \<open>The invariant is kept and the table has the same keys.\<close>

definition sameKeys ::
    "('w \<Rightarrow> bool) \<Rightarrow> ('w \<Rightarrow> int \<times> int \<Rightarrow> NFSFilesystem option) \<Rightarrow> 'w proc \<Rightarrow> 'w proc \<Rightarrow> bool" where
  "sameKeys good fss st st' \<longleftrightarrow>
     (good (proc_world st) \<longrightarrow>
        good (proc_world st') \<and> dom (fss (proc_world st')) = dom (fss (proc_world st)))"

lemma sameKeys_rel [simp]: "reflp (sameKeys good fss)" "transp (sameKeys good fss)"
  by (auto simp: sameKeys_def intro: reflpI transpI)

lemma keeps_sameKeys: "keeps v (procFrame good fss) p \<Longrightarrow> keeps v (sameKeys good fss) p"
  by (auto simp: keeps_def procFrame_def frame_def sameKeys_def)

text \<open>The cached region is kept.\<close>

definition sameRegion :: "'w proc \<Rightarrow> 'w proc \<Rightarrow> bool" where
  "sameRegion st st' \<longleftrightarrow> proc_region st' = proc_region st"

lemma sameRegion_rel [simp]: "reflp sameRegion" "transp sameRegion"
  by (auto simp: sameRegion_def intro: reflpI transpI)

lemma keeps_sameRegion: "keeps v (procFrame good fss) p \<Longrightarrow> keeps v sameRegion p"
  by (auto simp: keeps_def procFrame_def sameRegion_def)

locale filesystem_store =
  fixes v :: "'w env" and lg :: linodego
    and fss :: "'w \<Rightarrow> int \<times> int \<Rightarrow> NFSFilesystem option"
    and good :: "'w \<Rightarrow> bool"
    and labelled :: "string \<Rightarrow> int set"
  assumes keys: "good w \<Longrightarrow> fss w (i, j) = Some f \<Longrightarrow> fs_SpaceID f = i \<and> fs_ID f = j"
    and list_filesystems:
      "FilterJSON lg [(filterFieldLabel, l), (filterFieldRegion, r)] = Inr b \<Longrightarrow> good w \<Longrightarrow>
       lc_ListNFSFilesystems (env_client v) i \<lparr>lo_Page = 0, lo_Filter = b\<rparr> w = (Inr fs, w') \<Longrightarrow>
         (\<forall>f \<in> set fs. fs_SpaceID f = i \<longrightarrow> fss w (i, fs_ID f) = Some f) \<and>
         (\<forall>j f. fss w (i, j) = Some f \<longrightarrow> fs_Label f = l \<longrightarrow> fs_Region f = r \<longrightarrow> f \<in> set fs)"
    and create:
      "good w \<Longrightarrow> lc_CreateNFSFilesystem (env_client v) i o' w = (x, w') \<Longrightarrow>
         good w' \<and>
         (case x of
            Inl e \<Rightarrow> fss w' = fss w
          | Inr f \<Rightarrow> fs_SpaceID f = i \<and> fs_Label f = cr_Label o' \<and> fs_Region f = cr_Region o' \<and>
              fs_Tags f = requestedTags o' \<and>
              (fss w' = fss w \<and> fss w (i, fs_ID f) = Some f \<or>
               fss w' = (fss w)((i, fs_ID f) \<mapsto> f) \<and> fss w (i, fs_ID f) = None \<and>
               fs_MaxCapacityBytes f = cr_MaxCapacityBytes o'))"
    and wait_filesystem:
      "good w \<Longrightarrow>
       lc_WaitForNFSFilesystemStatus (env_client v) t i j NFSFilesystemStatusActive w = (x, w') \<Longrightarrow>
         good w' \<and>
         (case x of
            Inl e \<Rightarrow> fss w' = fss w
          | Inr f \<Rightarrow> \<exists>g. fss w (i, j) = Some g \<and> sameFilesystem g f \<and>
              fs_Status f = NFSFilesystemStatusActive \<and> fss w' = (fss w)((i, j) \<mapsto> f))"
    and delete:
      "good w \<Longrightarrow> lc_DeleteNFSFilesystem (env_client v) i j w = (d, w') \<Longrightarrow>
         good w' \<and>
         (case d of
            None \<Rightarrow> fss w' = (fss w)((i, j) := None)
          | Some e \<Rightarrow> fss w' = fss w \<and> (IsNotFound lg e \<longrightarrow> fss w (i, j) = None))"
    and get_space:
      "lc_GetNFSSpace (env_client v) i w = (y, w') \<Longrightarrow>
         frame good fss w w' \<and> (\<forall>sp. y = Inr sp \<longrightarrow> space_ID sp = i)"
    and list_spaces:
      "FilterJSON lg [(filterFieldLabel, l)] = Inr b \<Longrightarrow> l \<noteq> [] \<Longrightarrow> good w \<Longrightarrow>
       lc_ListNFSSpaces (env_client v) \<lparr>lo_Page = 0, lo_Filter = b\<rparr> w = (Inr sps, w') \<Longrightarrow>
         space_ID ` set sps = labelled l"
    and frame_list_spaces: "frame good fss w (snd (lc_ListNFSSpaces (env_client v) o1 w))"
    and frame_list_filesystems: "frame good fss w (snd (lc_ListNFSFilesystems (env_client v) i o1 w))"
    and frame_space_policy: "frame good fss w (snd (lc_GetNFSSpaceAccessPolicy (env_client v) i w))"
    and frame_get_policy:
      "frame good fss w (snd (lc_GetNFSFilesystemAccessPolicy (env_client v) i j w))"
    and frame_update_policy:
      "frame good fss w (snd (lc_UpdateNFSFilesystemAccessPolicy (env_client v) i j o2 w))"
    and frame_wait_policy:
      "frame good fss w
         (snd (lc_WaitForNFSFilesystemAccessPolicyStatus (env_client v) t i j status w))"
    and frame_list_nodes: "frame good fss w (snd (mc_ListNodes (env_metadata v) w))"


text \<open>The filesystem IDs of the space a request names are those of its parameters.\<close>

definition spaceMatches :: "(string \<Rightarrow> int set) \<Rightarrow> createVolumeParameters \<Rightarrow> int \<Rightarrow> bool" where
  "spaceMatches labelled params i \<longleftrightarrow>
     (if par_spaceID params \<noteq> 0 then i = par_spaceID params
      else labelled (par_spaceLabel params) = {i})"

lemma listOptions_Inr:
  "listOptionsForExactFields lg exact = Inr o1 \<longleftrightarrow>
     (\<exists>b. FilterJSON lg exact = Inr b \<and> o1 = \<lparr>lo_Page = 0, lo_Filter = b\<rparr>)"
  by (auto simp: listOptionsForExactFields_def split: sum.splits)

text \<open>What a successful create returns: an active filesystem of the table with the label, region and
  tags that were asked for and a mount target, of which every other entry is as before.\<close>

definition volumePost ::
    "(int \<times> int \<Rightarrow> NFSFilesystem option) \<Rightarrow> (int \<times> int \<Rightarrow> NFSFilesystem option) \<Rightarrow> int \<Rightarrow> string
       \<Rightarrow> string \<Rightarrow> string list \<Rightarrow> NFSFilesystem \<Rightarrow> bool" where
  "volumePost t t' i label region tags f \<longleftrightarrow>
     fs_SpaceID f = i \<and> fs_Label f = label \<and> fs_Region f = region \<and> fs_Tags f = tags \<and>
     fs_Status f = NFSFilesystemStatusActive \<and> validateFilesystemMountTarget f = Inr () \<and>
     t' = t((i, fs_ID f) \<mapsto> f)"

context filesystem_store
begin

lemma frame_calls:
  "keeps v (procFrame good fss) (call (ListNFSSpaces o1))"
  "keeps v (procFrame good fss) (call (GetNFSSpace i))"
  "keeps v (procFrame good fss) (call (ListNFSFilesystems i o1))"
  "keeps v (procFrame good fss) (call (GetNFSSpaceAccessPolicy i))"
  "keeps v (procFrame good fss) (call (GetNFSFilesystemAccessPolicy i j))"
  "keeps v (procFrame good fss) (call (UpdateNFSFilesystemAccessPolicy i j o2))"
  "keeps v (procFrame good fss) (call (WaitForNFSFilesystemAccessPolicyStatus t i j status))"
  using frame_list_spaces get_space frame_list_filesystems frame_space_policy frame_get_policy
    frame_update_policy frame_wait_policy
  by (auto simp: keeps_def procFrame_def run_simps split: prod.splits) (metis snd_conv)+

lemma frame_waitPolicy:
  "keeps v (procFrame good fss) (waitForFilesystemAccessPolicyActive s i j)"
  unfolding waitForFilesystemAccessPolicyActive_def
  by (intro keeps_intros procFrame_rel frame_calls)

lemma frame_squash: "keeps v (procFrame good fss) (setInitialSquashPolicy s i j p)"
  unfolding setInitialSquashPolicy_def
  by (intro keeps_intros procFrame_rel frame_calls)
    (auto intro!: keeps_intros frame_calls frame_waitPolicy split: prod.split)

lemma frame_finalize: "keeps v (procFrame good fss) (finalizeFilesystemVolume s f params sp)"
  unfolding finalizeFilesystemVolume_def
  by (intro keeps_intros procFrame_rel) (auto intro!: keeps_intros frame_squash)

lemma frame_resolve: "keeps v (procFrame good fss) (resolveSpace s params)"
  unfolding resolveSpace_def
  by (auto intro!: keeps_intros frame_calls split: list.split)

lemma frame_spacePolicy: "keeps v (procFrame good fss) (getSpaceAccessPolicy s i)"
  unfolding getSpaceAccessPolicy_def
  by (auto intro!: keeps_intros frame_calls split: option.split)

lemma frame_find: "keeps v (procFrame good fss) (findExistingFilesystem s i l r)"
  unfolding findExistingFilesystem_def
  by (auto intro!: keeps_intros frame_calls split: list.split)

lemma frame_Region:
  assumes "run Region v st = (r, st')"
  shows "frame good fss (proc_world st) (proc_world st')"
proof -
  have n: "mc_ListNodes (env_metadata v) w = (r, w') \<Longrightarrow> frame good fss w w'" for r w w'
    using frame_list_nodes by (metis snd_conv)
  from assms show ?thesis
    by (auto simp: run_Region Let_def frame_rel(1) [THEN reflpD] dest: n
        split: if_splits prod.splits sum.splits list.splits)
qed

lemma resolve_ok:
  assumes "run (resolveSpace s params) v st = (Inr sp, st')" and "cs_linodego s = lg"
    and "good (proc_world st)" and "par_spaceID params = 0 \<longrightarrow> par_spaceLabel params \<noteq> []"
  shows "spaceMatches labelled params (space_ID sp)"
proof (cases "par_spaceID params = 0")
  case False
  with assms(1) show ?thesis
    by (auto simp: resolveSpace_def run_simps spaceMatches_def split: sum.splits prod.splits
        dest: get_space)
next
  case True
  from True assms(1,2) obtain b where
    b: "FilterJSON lg [(filterFieldLabel, par_spaceLabel params)] = Inr b"
    and l: "\<exists>w'. lc_ListNFSSpaces (env_client v) \<lparr>lo_Page = 0, lo_Filter = b\<rparr> (proc_world st) = (Inr [sp], w')"
    by (auto simp: resolveSpace_def run_simps listOptions_Inr split: sum.splits prod.splits list.splits)
  from l list_spaces [OF b] True assms(3,4) show ?thesis
    by (fastforce simp: spaceMatches_def)
qed

lemma find_ok:
  assumes "run (findExistingFilesystem s i l r) v st = (Inr x, st')" and "cs_linodego s = lg"
    and "good (proc_world st)"
  shows "case x of
      None \<Rightarrow> \<forall>j f. fss (proc_world st) (i, j) = Some f \<longrightarrow> fs_Label f = l \<longrightarrow> fs_Region f \<noteq> r
    | Some f \<Rightarrow> fs_SpaceID f = i \<and> fs_Label f = l \<and> fs_Region f = r \<and>
        fss (proc_world st) (i, fs_ID f) = Some f \<and>
        (\<forall>j g. fss (proc_world st) (i, j) = Some g \<longrightarrow> fs_Label g = l \<longrightarrow> fs_Region g = r \<longrightarrow> g = f)"
proof -
  from assms(1,2) obtain b fs w' where
    b: "FilterJSON lg [(filterFieldLabel, l), (filterFieldRegion, r)] = Inr b"
    and l: "lc_ListNFSFilesystems (env_client v) i \<lparr>lo_Page = 0, lo_Filter = b\<rparr> (proc_world st) = (Inr fs, w')"
    and x: "(fs = [] \<and> x = None) \<or> (\<exists>f. fs = [f] \<and> x = Some f \<and> fs_Label f = l \<and> fs_Region f = r
      \<and> fs_SpaceID f = i)"
    by (auto simp: findExistingFilesystem_def run_simps listOptions_Inr
        split: sum.splits prod.splits list.splits if_splits)
  from list_filesystems [OF b assms(3) l] x show ?thesis by auto
qed

lemma finalize_ok:
  assumes "run (finalizeFilesystemVolume s f params sp) v st = (Inr vol, st')"
  shows "vol = csiVolume f (sp_MTLSMode sp) \<and> validateFilesystemMountTarget f = Inr ()"
  using assms
  by (cases "validateFilesystemMountTarget f")
    (auto simp: finalizeFilesystemVolume_def run_simps split: sum.splits prod.splits)

lemma wait_ok:
  assumes "run (lwerr s m (call (WaitForNFSFilesystemStatus t i j NFSFilesystemStatusActive))) v st
      = (Inr f, st')" and "good (proc_world st)"
  shows "good (proc_world st') \<and> (\<exists>g. fss (proc_world st) (i, j) = Some g \<and> sameFilesystem g f \<and>
    fs_Status f = NFSFilesystemStatusActive \<and>
    fss (proc_world st') = (fss (proc_world st))((i, j) \<mapsto> f) \<and> fs_SpaceID f = i \<and> fs_ID f = j)"
proof -
  from assms(1) obtain w where
    w: "lc_WaitForNFSFilesystemStatus (env_client v) t i j NFSFilesystemStatusActive (proc_world st) = (Inr f, w)"
    and st': "proc_world st' = w"
    by (auto simp: run_simps split: sum.splits prod.splits)
  from wait_filesystem [OF assms(2) w] keys [OF assms(2)] st' show ?thesis
    by (fastforce simp: sameFilesystem_def)
qed

lemma create_ok:
  assumes "run (createFilesystem s i label params sp cap) v st = (Inr vol, st')"
    and "good (proc_world st)"
    and none: "\<forall>j f. fss (proc_world st) (i, j) = Some f \<longrightarrow> fs_Label f = label \<longrightarrow> fs_Region f \<noteq> par_region params"
  shows "good (proc_world st') \<and> (\<exists>f. vol = csiVolume f (sp_MTLSMode sp) \<and>
    volumePost (fss (proc_world st)) (fss (proc_world st')) i label (par_region params)
      (elems (par_tags params)) f \<and>
    fss (proc_world st) (i, fs_ID f) = None \<and> fs_MaxCapacityBytes f = cap)"
proof -
  from assms(1) obtain c w1 f st2 where
    c: "lc_CreateNFSFilesystem (env_client v) i (createOptions label params cap) (proc_world st) = (Inr c, w1)"
    and wt: "run (lwerr s ''wait for NFS filesystem active'' (call (WaitForNFSFilesystemStatus waitTimeout
        (fs_SpaceID c) (fs_ID c) NFSFilesystemStatusActive))) v (st\<lparr>proc_world := w1\<rparr>) = (Inr f, st2)"
    and fin: "run (finalizeFilesystemVolume s f params sp) v st2 = (Inr vol, st')"
    unfolding createFilesystem_def run_bindE
    by (auto simp: run_mapErr run_Do onWorld_def split: sum.splits prod.splits)
  from create [OF assms(2) c] none have
    c1: "good w1" "fs_SpaceID c = i" "fs_Label c = label" "fs_Region c = par_region params"
      "fs_Tags c = elems (par_tags params)" "fs_MaxCapacityBytes c = cap"
      "fss w1 = (fss (proc_world st))((i, fs_ID c) \<mapsto> c)" "fss (proc_world st) (i, fs_ID c) = None"
    by (auto simp: createOptions_def requestedTags_def split: if_splits)
  from wait_ok [OF wt] c1 have
    f: "good (proc_world st2)" "sameFilesystem c f" "fs_Status f = NFSFilesystemStatusActive"
      "fss (proc_world st2) = (fss w1)((i, fs_ID c) \<mapsto> f)" by auto
  from keepsD [OF frame_finalize fin] f(1) have "good (proc_world st') \<and> fss (proc_world st') = fss (proc_world st2)"
    by (simp add: procFrame_def frame_def)
  with finalize_ok [OF fin] f c1 show ?thesis
    by (intro conjI exI [of _ f]) (auto simp: volumePost_def sameFilesystem_def)
qed

lemma existing_ok:
  assumes "run (handleExistingFilesystem s g params sp cr None) v st = (Inr vol, st')"
    and "good (proc_world st)" and "fs_SpaceID g = i" and "fs_Label g = label"
    and "fs_Region g = par_region params" and "fss (proc_world st) (i, fs_ID g) = Some g"
  shows "good (proc_world st') \<and> (\<exists>f. vol = csiVolume f (sp_MTLSMode sp) \<and>
    volumePost (fss (proc_world st)) (fss (proc_world st')) i label (par_region params)
      (elems (par_tags params)) f \<and>
    sameFilesystem g f \<and> validateExistingFilesystemCapacity f cr = Inr ())"
proof -
  from assms(1,3) obtain f st2 where
    wt: "run (lwerr s ''wait for NFS filesystem active'' (call (WaitForNFSFilesystemStatus waitTimeout
        i (fs_ID g) NFSFilesystemStatusActive))) v st = (Inr f, st2)"
    and cap: "validateExistingFilesystemCapacity f cr = Inr ()"
    and ex: "validateExistingFilesystem f params = Inr ()"
    and fin: "run (finalizeFilesystemVolume s f params sp) v st2 = (Inr vol, st')"
    unfolding handleExistingFilesystem_def run_bindE
    by (auto simp: checkSource_def run_Ret split: sum.splits prod.splits)
  from wait_ok [OF wt assms(2)] assms(6) have
    f: "good (proc_world st2)" "sameFilesystem g f" "fs_Status f = NFSFilesystemStatusActive"
      "fss (proc_world st2) = (fss (proc_world st))((i, fs_ID g) \<mapsto> f)" by auto
  from keepsD [OF frame_finalize fin] f(1) have "good (proc_world st') \<and> fss (proc_world st') = fss (proc_world st2)"
    by (simp add: procFrame_def frame_def)
  moreover from ex have "fs_Tags f = elems (par_tags params)"
    by (auto simp: validateExistingFilesystem_def split: if_splits)
  ultimately show ?thesis
    using finalize_ok [OF fin] f assms(3-5) cap
    by (intro conjI exI [of _ f]) (auto simp: volumePost_def sameFilesystem_def)
qed

lemma region_kept:
  "keeps v sameRegion (call (WaitForNFSFilesystemStatus t i j status))"
  "keeps v sameRegion (call (CreateNFSFilesystem i o'))"
  by (auto simp: keeps_def sameRegion_def run_simps split: prod.splits)

lemma region_create: "keeps v sameRegion (createFilesystem s i l params sp c)"
  unfolding createFilesystem_def
  by (intro keeps_intros sameRegion_rel region_kept keeps_sameRegion [OF frame_finalize])

lemma region_existing: "keeps v sameRegion (handleExistingFilesystem s f params sp cr src)"
  unfolding handleExistingFilesystem_def
  by (intro keeps_intros sameRegion_rel region_kept keeps_sameRegion [OF frame_finalize])

lemma keys_wait:
  "keeps v (sameKeys good fss) (call (WaitForNFSFilesystemStatus t i j NFSFilesystemStatusActive))"
proof -
  have "lc_WaitForNFSFilesystemStatus (env_client v) t i j NFSFilesystemStatusActive w = (x, w') \<Longrightarrow>
      good w \<Longrightarrow> good w' \<and> dom (fss w') = dom (fss w)" for w x w'
    using wait_filesystem [of w t i j x w'] by (auto split: sum.splits if_splits)
  then show ?thesis
    by (fastforce simp: keeps_def sameKeys_def run_simps split: prod.splits)
qed

lemma keys_existing: "keeps v (sameKeys good fss) (handleExistingFilesystem s f params sp cr src)"
  unfolding handleExistingFilesystem_def
  by (intro keeps_intros sameKeys_rel keys_wait keeps_sameKeys [OF frame_finalize])

end

lemma checkCreateRequest_space:
  "checkCreateRequest req = Inr params \<Longrightarrow> par_spaceID params = 0 \<longrightarrow> par_spaceLabel params \<noteq> []"
  by (auto simp: checkCreateRequest_def parseCreateVolumeParameters_def Let_def bindR_eq_Inr_iff
      split: if_splits prod.splits)

lemma spaceMatches_region [simp]:
  "spaceMatches labelled (params\<lparr>par_region := r\<rparr>) i = spaceMatches labelled params i"
  by (simp add: spaceMatches_def)

text \<open>The last part of \<open>CreateVolume\<close>, after the lookup.\<close>

definition createOrReuse ::
    "ControllerServer \<Rightarrow> CreateVolumeRequest \<Rightarrow> createVolumeParameters \<Rightarrow> int \<Rightarrow> NFSSpaceAccessPolicy
       \<Rightarrow> NFSFilesystem option \<Rightarrow> (goError + Volume) prog" where
  "createOrReuse s req params i sp found =
     (case found of
        Some existing \<Rightarrow> handleExistingFilesystem s existing params sp (cv_CapacityRange req) None
      | None \<Rightarrow> createFilesystem s i (volumeLabel s (cv_Name req)) params sp
                  (requestedCapacityBytes (cv_CapacityRange req)))"

text \<open>The stages of a run of \<open>CreateVolume\<close> whose lookup succeeded.\<close>

lemma CreateVolume_stages:
  assumes "run (CreateVolume s req) v st = (Inr vol, st')"
  obtains params0 region st1 space st2 sp st3 found st4 where
    "checkCreateRequest req = Inr params0"
    "run Region v st = (Inr region, st1)"
    "run (resolveSpace s (params0\<lparr>par_region := region\<rparr>)) v st1 = (Inr space, st2)"
    "run (getSpaceAccessPolicy s (space_ID space)) v st2 = (Inr sp, st3)"
    "run (findExistingFilesystem s (space_ID space) (volumeLabel s (cv_Name req)) region) v st3
       = (Inr found, st4)"
    "run (createOrReuse s req (params0\<lparr>par_region := region\<rparr>) (space_ID space) sp found) v st4
       = (Inr vol, st')"
  using assms
  unfolding CreateVolume_def Let_def run_bindE_Ret run_bindE run_mapErr createOrReuse_def [symmetric]
  by (auto split: sum.splits prod.splits)

text \<open>The stages before the lookup keep the table, and the region is cached from the first on.\<close>

context filesystem_store
begin

lemma stages_frame:
  assumes "run Region v st = (Inr region, st1)"
    and "run (resolveSpace s params) v st1 = (Inr space, st2)"
    and "run (getSpaceAccessPolicy s i) v st2 = (Inr sp, st3)"
    and "run (findExistingFilesystem s i l r) v st3 = (Inr found, st4)"
    and "good (proc_world st)"
  shows "good (proc_world st1) \<and> good (proc_world st3) \<and> good (proc_world st4) \<and>
    fss (proc_world st3) = fss (proc_world st) \<and> fss (proc_world st4) = fss (proc_world st) \<and>
    proc_region st4 = region \<and> region \<noteq> []"
proof -
  from assms(1) regionFromNode_not_Nil have r: "proc_region st1 = region \<and> region \<noteq> []"
    by (auto simp: run_Region Let_def split: if_splits prod.splits sum.splits list.splits)
  from frame_Region [OF assms(1)] keepsD [OF frame_resolve assms(2)]
    keepsD [OF frame_spacePolicy assms(3)] keepsD [OF frame_find assms(4)] assms(5) r
  show ?thesis by (auto simp: procFrame_def frame_def)
qed

lemma CreateVolume_ok:
  assumes run: "run (CreateVolume s req) v st = (Inr vol, st')" and lg: "cs_linodego s = lg"
    and good: "good (proc_world st)"
  shows "good (proc_world st') \<and> proc_region st' \<noteq> [] \<and>
    (\<exists>params i f mtls. checkCreateRequest req = Inr params \<and> spaceMatches labelled params i \<and>
    vol = csiVolume f mtls \<and>
    volumePost (fss (proc_world st)) (fss (proc_world st')) i (volumeLabel s (cv_Name req))
      (proc_region st') (elems (par_tags params)) f \<and>
    (case fss (proc_world st) (i, fs_ID f) of
       None \<Rightarrow> fs_MaxCapacityBytes f = requestedCapacityBytes (cv_CapacityRange req)
     | Some g \<Rightarrow> sameFilesystem g f \<and>
         validateExistingFilesystemCapacity f (cv_CapacityRange req) = Inr ()))"
  using run
proof (rule CreateVolume_stages)
  fix params0 region st1 space st2 sp st3 found st4
  assume a: "checkCreateRequest req = Inr params0" "run Region v st = (Inr region, st1)"
    "run (resolveSpace s (params0\<lparr>par_region := region\<rparr>)) v st1 = (Inr space, st2)"
    "run (getSpaceAccessPolicy s (space_ID space)) v st2 = (Inr sp, st3)"
    "run (findExistingFilesystem s (space_ID space) (volumeLabel s (cv_Name req)) region) v st3
       = (Inr found, st4)"
    and last: "run (createOrReuse s req (params0\<lparr>par_region := region\<rparr>) (space_ID space) sp found) v st4
       = (Inr vol, st')"
  note fr = stages_frame [OF a(2-5) good]
  have space: "spaceMatches labelled params0 (space_ID space)"
    using resolve_ok [OF a(3) lg] fr checkCreateRequest_space [OF a(1)] by simp
  have found: "case found of
      None \<Rightarrow> \<forall>j f. fss (proc_world st) (space_ID space, j) = Some f \<longrightarrow>
        fs_Label f = volumeLabel s (cv_Name req) \<longrightarrow> fs_Region f \<noteq> region
    | Some f \<Rightarrow> fs_SpaceID f = space_ID space \<and> fs_Label f = volumeLabel s (cv_Name req) \<and>
        fs_Region f = region \<and> fss (proc_world st) (space_ID space, fs_ID f) = Some f"
    using find_ok [OF a(5) lg] fr by (auto split: option.splits)
  have reg: "proc_region st' = region"
    using keepsD [OF region_create] keepsD [OF region_existing] last fr
    by (auto simp: createOrReuse_def sameRegion_def split: option.splits)
  show ?thesis
  proof (cases found)
    case None
    with found fr have none: "\<forall>j f. fss (proc_world st4) (space_ID space, j) = Some f \<longrightarrow>
        fs_Label f = volumeLabel s (cv_Name req) \<longrightarrow> fs_Region f \<noteq> par_region (params0\<lparr>par_region := region\<rparr>)"
      by simp
    have "run (createFilesystem s (space_ID space) (volumeLabel s (cv_Name req))
        (params0\<lparr>par_region := region\<rparr>) sp (requestedCapacityBytes (cv_CapacityRange req))) v st4 = (Inr vol, st')"
      using last None by (simp add: createOrReuse_def)
    from create_ok [OF this _ none] fr a(1) space reg show ?thesis
      by (intro conjI exI [of _ params0] exI [of _ "space_ID space"]) auto
  next
    case (Some g)
    have "run (handleExistingFilesystem s g (params0\<lparr>par_region := region\<rparr>) sp (cv_CapacityRange req) None)
        v st4 = (Inr vol, st')"
      using last Some by (simp add: createOrReuse_def)
    from existing_ok [OF this, of "space_ID space" "volumeLabel s (cv_Name req)"] fr found Some
    obtain f where f: "good (proc_world st')" "vol = csiVolume f (sp_MTLSMode sp)"
      "volumePost (fss (proc_world st)) (fss (proc_world st')) (space_ID space)
        (volumeLabel s (cv_Name req)) region (elems (par_tags params0)) f"
      "sameFilesystem g f" "validateExistingFilesystemCapacity f (cv_CapacityRange req) = Inr ()"
      by auto
    moreover from f(4) found Some have "fss (proc_world st) (space_ID space, fs_ID f) = Some g"
      by (simp add: sameFilesystem_def)
    ultimately show ?thesis using a(1) space reg fr
      by (intro conjI exI [of _ params0] exI [of _ "space_ID space"]) auto
  qed
qed

end

end
