(* ===== verification/CreateFacts.thy ===== *)
theory CreateFacts
  imports FilesystemFacts
begin

text \<open>
  Volume creation and deletion against the contract \<open>filesystem_store\<close>: what a created volume is,
  that a retry finds the same filesystem and never makes a second one, and that deletion is
  idempotent. The contract is interpreted on the in-memory backend, which the witnesses run on.
\<close>

subsection \<open>Retries\<close>

lemma run_bindE_cases:
  assumes "run (bindE p f) v st = (r, st2)"
  obtains (err) e where "run p v st = (Inl e, st2)" "r = Inl e"
    | (ok) a st1 where "run p v st = (Inr a, st1)" "run (f a) v st1 = (r, st2)"
  using assms by (auto simp: run_bindE split: sum.splits prod.splits)

lemma run_mapErr_cases:
  assumes "run (mapErr h p) v st = (r, st2)"
  obtains (err) e where "run p v st = (Inl e, st2)" "r = Inl (h e)"
    | (ok) a where "run p v st = (Inr a, st2)" "r = Inr a"
  using assms by (auto simp: run_mapErr split: sum.splits prod.splits)

context filesystem_store
begin

lemma keys_Region: "run Region v st = (r, st') \<Longrightarrow> sameKeys good fss st st'"
  using frame_Region by (fastforce simp: sameKeys_def frame_def)

lemma keys_trans: "sameKeys good fss a b \<Longrightarrow> sameKeys good fss b c \<Longrightarrow> sameKeys good fss a c"
  by (auto simp: sameKeys_def)

text \<open>When the filesystem a request asks for is in the table, a call adds nothing to it, and a
  volume it returns is that filesystem.\<close>

lemma CreateVolume_existing:
  assumes run: "run (CreateVolume s req) v st = (r, st')" and lg: "cs_linodego s = lg"
    and good: "good (proc_world st)"
    and params: "checkCreateRequest req = Inr params" "spaceMatches labelled params i"
    and region: "proc_region st = region" "region \<noteq> []"
    and f: "fss (proc_world st) (i, fs_ID f) = Some f" "fs_SpaceID f = i"
      "fs_Label f = volumeLabel s (cv_Name req)" "fs_Region f = region"
  shows "sameKeys good fss st st' \<and>
    (\<forall>vol. r = Inr vol \<longrightarrow> vol_VolumeId vol = formatVolumeHandle i (fs_ID f))"
proof -
  let ?k = "sameKeys good fss"
  let ?params = "params\<lparr>par_region := region\<rparr>"
  have R: "run Region v st = (Inr region, st\<lparr>proc_regionMu := False\<rparr>)"
    using region by (simp add: run_Region)
  let ?st1 = "st\<lparr>proc_regionMu := False\<rparr>"
  have st1: "good (proc_world ?st1)" "?k st ?st1" using good by (simp_all add: sameKeys_def)
  from run have "run (bindE (resolveSpace s ?params) (\<lambda>space.
      bindE (getSpaceAccessPolicy s (space_ID space)) (\<lambda>sp.
      bindE (findExistingFilesystem s (space_ID space) (volumeLabel s (cv_Name req)) region) (\<lambda>found.
      createOrReuse s req ?params (space_ID space) sp found)))) v ?st1 = (r, st')"
    by (simp add: CreateVolume_def Let_def params(1) run_bindE run_mapErr R createOrReuse_def)
  then show ?thesis
  proof (cases rule: run_bindE_cases)
    case (err e)
    with keys_trans [OF st1(2) keepsD [OF keeps_sameKeys [OF frame_resolve]]] show ?thesis by auto
  next
    case (ok space st2)
    have "spaceMatches labelled params (space_ID space)"
      using resolve_ok [OF ok(1) lg st1(1)] checkCreateRequest_space [OF params(1)] by simp
    with params(2) have i: "space_ID space = i" by (auto simp: spaceMatches_def split: if_splits)
    have k2: "?k st st2"
      using keys_trans [OF st1(2) keepsD [OF keeps_sameKeys [OF frame_resolve] ok(1)]] .
    note fr2 = keepsD [OF frame_resolve ok(1)]
    from ok(2) show ?thesis
    proof (cases rule: run_bindE_cases)
      case (err e)
      with keys_trans [OF k2 keepsD [OF keeps_sameKeys [OF frame_spacePolicy]]] show ?thesis by auto
    next
      case (ok sp st3)
      have k3: "?k st st3"
        using keys_trans [OF k2 keepsD [OF keeps_sameKeys [OF frame_spacePolicy] ok(1)]] .
      have fr3: "good (proc_world st3)" "fss (proc_world st3) = fss (proc_world st)"
        using fr2 keepsD [OF frame_spacePolicy ok(1)] good by (auto simp: procFrame_def frame_def)
      from ok(2) show ?thesis
      proof (cases rule: run_bindE_cases)
        case (err e)
        with keys_trans [OF k3 keepsD [OF keeps_sameKeys [OF frame_find]]] show ?thesis by auto
      next
        case (ok found st4)
        have "found = Some f"
          using find_ok [OF ok(1) lg fr3(1)] fr3(2) f i by (cases found) auto
        then have h: "run (handleExistingFilesystem s f ?params sp (cv_CapacityRange req) None) v st4 = (r, st')"
          using ok(2) by (simp add: createOrReuse_def)
        have fr4: "good (proc_world st4)" "fss (proc_world st4) = fss (proc_world st)"
          using keepsD [OF frame_find ok(1)] fr3 by (auto simp: procFrame_def frame_def)
        have "?k st st'"
          using keys_trans [OF keys_trans [OF k3 keepsD [OF keeps_sameKeys [OF frame_find] ok(1)]]
              keepsD [OF keys_existing h]] .
        moreover have "vol_VolumeId vol = formatVolumeHandle i (fs_ID f)" if "r = Inr vol" for vol
          using existing_ok [OF h [unfolded that] fr4(1) f(2,3)] f(1,2,4) fr4(2)
          by (auto simp: sameFilesystem_def csiVolume_def)
        ultimately show ?thesis by blast
      qed
    qed
  qed
qed

lemma CreateVolume_retry:
  assumes "run (CreateVolume s req) v st = (Inr vol, st')" and "cs_linodego s = lg"
    and "good (proc_world st)" and "run (CreateVolume s req) v st' = (r, st'')"
  shows "dom (fss (proc_world st'')) = dom (fss (proc_world st')) \<and>
    (\<forall>vol2. r = Inr vol2 \<longrightarrow> vol_VolumeId vol2 = vol_VolumeId vol)"
proof -
  from CreateVolume_ok [OF assms(1-3)] obtain params i f mtls where
    o: "checkCreateRequest req = Inr params" "spaceMatches labelled params i" "vol = csiVolume f mtls"
    "volumePost (fss (proc_world st)) (fss (proc_world st')) i (volumeLabel s (cv_Name req))
      (proc_region st') (elems (par_tags params)) f" by blast
  have more: "good (proc_world st') \<and> proc_region st' \<noteq> []"
    using CreateVolume_ok [OF assms(1-3)] by blast
  have "sameKeys good fss st' st'' \<and>
    (\<forall>vol. r = Inr vol \<longrightarrow> vol_VolumeId vol = formatVolumeHandle i (fs_ID f))"
    by (rule CreateVolume_existing [OF assms(4,2) _ o(1,2) refl]) (use more o(4) in \<open>auto simp: volumePost_def\<close>)
  with more o show ?thesis by (auto simp: sameKeys_def csiVolume_def volumePost_def)
qed

end

subsection \<open>The in-memory backend keeps the contract\<close>

definition sanityGood :: "SanityWorld \<Rightarrow> bool" where
  "sanityGood w \<longleftrightarrow>
     sw_space w = \<lparr>space_ID = fakeSanitySpaceID, space_Label = ''sanity-space''\<rparr> \<and>
     distinct (map fst (sw_filesystems w)) \<and>
     (\<forall>j f. map_of (sw_filesystems w) j = Some f \<longrightarrow>
        fs_ID f = j \<and> fs_SpaceID f = fakeSanitySpaceID \<and> j < sw_nextFilesystemID w)"

definition sanityFilesystems :: "SanityWorld \<Rightarrow> int \<times> int \<Rightarrow> NFSFilesystem option" where
  "sanityFilesystems w =
     (\<lambda>(i, j). if i = fakeSanitySpaceID then map_of (sw_filesystems w) j else None)"

definition sanityLabelled :: "string \<Rightarrow> int set" where
  "sanityLabelled l = (if l = ''sanity-space'' then {fakeSanitySpaceID} else {})"

declare map_of_eq_Some_iff [simp del]

lemma filesystemLocked_good:
  "sanityGood w \<Longrightarrow> filesystemLocked w i j = Inr f \<longleftrightarrow> sanityFilesystems w (i, j) = Some f"
  by (auto simp: filesystemLocked_def requireSpaceLocked_def sanityGood_def sanityFilesystems_def
      split: option.splits)

lemma sanity_frame_same:
  "sw_space w' = sw_space w \<Longrightarrow> sw_filesystems w' = sw_filesystems w \<Longrightarrow>
     sw_nextFilesystemID w' = sw_nextFilesystemID w \<Longrightarrow> frame sanityGood sanityFilesystems w w'"
  by (auto simp: frame_def sanityGood_def sanityFilesystems_def)

lemma sanityGood_update:
  assumes "sanityGood w" and "fs_ID f = j" and "fs_SpaceID f = fakeSanitySpaceID" and "j < n"
    and "sw_nextFilesystemID w \<le> n" and "sw_space w' = sw_space w"
    and "sw_filesystems w' = AList.update j f (sw_filesystems w)" and "sw_nextFilesystemID w' = n"
  shows "sanityGood w' \<and> sanityFilesystems w' = (sanityFilesystems w)((fakeSanitySpaceID, j) \<mapsto> f)"
  using assms
  by (fastforce simp: sanityGood_def sanityFilesystems_def fun_eq_iff update_conv' distinct_update)

lemma sanityGood_delete:
  assumes "sanityGood w" and "sw_space w' = sw_space w"
    and "sw_filesystems w' = AList.delete j (sw_filesystems w)"
    and "sw_nextFilesystemID w' = sw_nextFilesystemID w"
  shows "sanityGood w' \<and> sanityFilesystems w' = (sanityFilesystems w)((fakeSanitySpaceID, j) := None)"
  using assms
  by (auto simp: sanityGood_def sanityFilesystems_def fun_eq_iff delete_conv' distinct_delete)

lemma sanity_filter2:
  "sanityListFilter \<lparr>lo_Page = 0,
     lo_Filter = flatJSON [(filterFieldLabel, l), (filterFieldRegion, r)]\<rparr> = Inr (l, r)"
  by (simp add: sanityListFilter_def parse_flat2 filterFieldLabel_def filterFieldRegion_def
      mapGet_def) (simp add: flatJSON_def)

lemma sanity_filter1:
  "sanityListFilter \<lparr>lo_Page = 0, lo_Filter = flatJSON [(filterFieldLabel, l)]\<rparr> = Inr (l, [])"
  by (simp add: sanityListFilter_def parse_flat1 filterFieldLabel_def mapGet_def)
    (simp add: flatJSON_def)

lemma sanity_create:
  assumes "sanityGood w" and "san_CreateNFSFilesystem i o' w = (x, w')"
  shows "sanityGood w' \<and>
    (case x of
       Inl e \<Rightarrow> sanityFilesystems w' = sanityFilesystems w
     | Inr f \<Rightarrow> fs_SpaceID f = i \<and> fs_Label f = cr_Label o' \<and> fs_Region f = cr_Region o' \<and>
         fs_Tags f = requestedTags o' \<and>
         (sanityFilesystems w' = sanityFilesystems w \<and> sanityFilesystems w (i, fs_ID f) = Some f \<or>
          sanityFilesystems w' = (sanityFilesystems w)((i, fs_ID f) \<mapsto> f) \<and>
          sanityFilesystems w (i, fs_ID f) = None \<and> fs_MaxCapacityBytes f = cr_MaxCapacityBytes o'))"
proof (cases "bindR (requireSpaceLocked w i) (\<lambda>_. validateSanityFilesystemCreate o')")
  case (Inl e)
  with assms show ?thesis by (auto simp: san_CreateNFSFilesystem_def)
next
  case (Inr u)
  then have i: "i = fakeSanitySpaceID"
    using assms(1) by (auto simp: bindR_eq_Inr_iff requireSpaceLocked_def sanityGood_def split: if_splits)
  let ?name = "fakeSanityFilesystemName i (cr_Label o')"
  show ?thesis
  proof (cases "map_of (sw_filesystemByName w) ?name")
    case (Some j)
    then show ?thesis
      using assms Inr i
      by (auto simp: san_CreateNFSFilesystem_def Let_def sanityFilesystemCreateCompatible_def
          requestedTags_def sanityGood_def sanityFilesystems_def split: option.splits if_splits)
  next
    case None
    let ?n = "sw_nextFilesystemID w"
    let ?f = "deactivateSanityFilesystem (newSanityFilesystem ?n i o')"
    have f: "fs_ID ?f = ?n" "fs_SpaceID ?f = i" "fs_Label ?f = cr_Label o'" "fs_Region ?f = cr_Region o'"
      "fs_Tags ?f = requestedTags o'" "fs_MaxCapacityBytes ?f = cr_MaxCapacityBytes o'"
      by (simp_all add: deactivateSanityFilesystem_def newSanityFilesystem_def requestedTags_def)
    from assms(2) Inr None have x: "x = Inr ?f" "sw_space w' = sw_space w"
      "sw_filesystems w' = AList.update ?n ?f (sw_filesystems w)" "sw_nextFilesystemID w' = ?n + 1"
      by (auto simp: san_CreateNFSFilesystem_def Let_def createSanityRootQuotaLocked_def f)
    from sanityGood_update [OF assms(1) f(1) _ _ _ x(2-4)] i f(2)
    have "sanityGood w' \<and> sanityFilesystems w' = (sanityFilesystems w)((fakeSanitySpaceID, ?n) \<mapsto> ?f)"
      by simp
    moreover have "sanityFilesystems w (i, ?n) = None"
      using assms(1) by (cases "map_of (sw_filesystems w) ?n") (auto simp: sanityGood_def sanityFilesystems_def)
    ultimately show ?thesis using x f i by simp
  qed
qed

lemma sanity_wait:
  assumes "sanityGood w" and "san_WaitForNFSFilesystemStatus t i j NFSFilesystemStatusActive w = (x, w')"
  shows "sanityGood w' \<and>
    (case x of
       Inl e \<Rightarrow> sanityFilesystems w' = sanityFilesystems w
     | Inr f \<Rightarrow> \<exists>g. sanityFilesystems w (i, j) = Some g \<and> sameFilesystem g f \<and>
         fs_Status f = NFSFilesystemStatusActive \<and>
         sanityFilesystems w' = (sanityFilesystems w)((i, j) \<mapsto> f))"
proof (cases "filesystemLocked w i j")
  case (Inl e)
  with assms(2) have "x = Inl e \<and> w' = w" by (simp add: san_WaitForNFSFilesystemStatus_def)
  with assms(1) show ?thesis by simp
next
  case (Inr g)
  then have g: "sanityFilesystems w (i, j) = Some g"
    using filesystemLocked_good [OF assms(1)] by simp
  then have k: "i = fakeSanitySpaceID" "fs_ID g = j" "fs_SpaceID g = i" "j < sw_nextFilesystemID w"
    using assms(1) by (auto simp: sanityFilesystems_def sanityGood_def split: if_splits)
  let ?f = "activateSanityFilesystem g"
  have f: "sameFilesystem g ?f" "fs_Status ?f = NFSFilesystemStatusActive"
    by (simp_all add: activateSanityFilesystem_def Let_def sameFilesystem_def)
  from assms(2) Inr have x: "x = Inr ?f" "w' = w\<lparr>sw_filesystems := AList.update j ?f (sw_filesystems w)\<rparr>"
    by (auto simp: san_WaitForNFSFilesystemStatus_def Let_def)
  have "fs_ID ?f = j" "fs_SpaceID ?f = fakeSanitySpaceID"
    using f(1) k by (auto simp: sameFilesystem_def)
  from sanityGood_update [OF assms(1) this k(4) order_refl, of w'] x f g k(1) show ?thesis by simp
qed

lemma sanity_delete:
  assumes "sanityGood w" and "san_DeleteNFSFilesystem i j w = (d, w')"
  shows "sanityGood w' \<and>
    (case d of
       None \<Rightarrow> sanityFilesystems w' = (sanityFilesystems w)((i, j) := None)
     | Some e \<Rightarrow> sanityFilesystems w' = sanityFilesystems w \<and>
         (IsNotFound sanityLinodego e \<longrightarrow> sanityFilesystems w (i, j) = None))"
proof (cases "filesystemLocked w i j")
  case (Inl e)
  moreover from this have "sanityFilesystems w (i, j) = None"
    using filesystemLocked_good [OF assms(1), of i j] by (cases "sanityFilesystems w (i, j)") auto
  ultimately show ?thesis using assms by (auto simp: san_DeleteNFSFilesystem_def)
next
  case (Inr g)
  then have "i = fakeSanitySpaceID"
    using assms(1) by (auto simp: filesystemLocked_good sanityFilesystems_def split: if_splits)
  with Inr assms(2) sanityGood_delete [OF assms(1), of w' j] show ?thesis
    by (auto simp: san_DeleteNFSFilesystem_def)
qed

lemma sanity_list:
  assumes "sanityGood w"
    and "san_ListNFSFilesystems i \<lparr>lo_Page = 0, lo_Filter = flatJSON [(filterFieldLabel, l), (filterFieldRegion, r)]\<rparr> w
      = (Inr fs, w')"
  shows "(\<forall>f \<in> set fs. fs_SpaceID f = i \<longrightarrow> sanityFilesystems w (i, fs_ID f) = Some f) \<and>
    (\<forall>j f. sanityFilesystems w (i, j) = Some f \<longrightarrow> fs_Label f = l \<longrightarrow> fs_Region f = r \<longrightarrow> f \<in> set fs)"
proof -
  have i: "i = fakeSanitySpaceID"
    using assms by (auto simp: san_ListNFSFilesystems_def bindR_eq_Inr_iff requireSpaceLocked_def
        sanityGood_def split: if_splits)
  from assms(2) have "fs = sort_key fs_ID (filter
      (\<lambda>f. (l = [] \<or> fs_Label f = l) \<and> (r = [] \<or> fs_Region f = r)) (map snd (sw_filesystems w)))"
    by (auto simp: san_ListNFSFilesystems_def sanity_filter2 bindR_eq_Inr_iff)
  then have fs: "set fs = {f \<in> set (map snd (sw_filesystems w)).
      (l = [] \<or> fs_Label f = l) \<and> (r = [] \<or> fs_Region f = r)}"
    by (simp only: set_sort set_filter)
  have "f \<in> set (map snd (sw_filesystems w)) \<Longrightarrow> map_of (sw_filesystems w) (fs_ID f) = Some f" for f
    using assms(1) map_of_eq_Some_iff [of "sw_filesystems w"] by (auto simp: sanityGood_def)
  moreover have "map_of (sw_filesystems w) j = Some f \<Longrightarrow> f \<in> set (map snd (sw_filesystems w))" for j f
    by (auto dest: map_of_SomeD simp: image_iff intro!: bexI)
  ultimately show ?thesis using i unfolding fs by (auto simp: sanityFilesystems_def)
qed

interpretation sanity_store:
  filesystem_store sanityEnv sanityLinodego sanityFilesystems sanityGood sanityLabelled
proof (unfold_locales, goal_cases)
  case (1 w i j f)
  then show ?case by (auto simp: sanityGood_def sanityFilesystems_def split: if_splits)
next
  case (2 l r b w i fs w')
  then show ?case
    using sanity_list [of w i l r fs w'] by (simp add: sanityEnv_def sanityClient_def sanityLinodego_def)
next
  case (3 w i o' x w')
  then show ?case
    using sanity_create [of w i o' x w'] by (simp add: sanityEnv_def sanityClient_def)
next
  case (4 w t i j x w')
  then show ?case
    using sanity_wait [of w t i j x w'] by (simp add: sanityEnv_def sanityClient_def)
next
  case (5 w i j d w')
  then show ?case
    using sanity_delete [of w i j d w'] by (simp add: sanityEnv_def sanityClient_def)
next
  case (6 i w y w')
  then show ?case
    by (auto simp: sanityEnv_def sanityClient_def san_GetNFSSpace_def bindR_eq_Inr_iff
        requireSpaceLocked_def frame_rel(1) [THEN reflpD] split: if_splits)
next
  case (7 l b w sps w')
  then show ?case
    by (auto simp: sanityEnv_def sanityClient_def san_ListNFSSpaces_def bindR_eq_Inr_iff
        sanity_filter1 sanityLinodego_def sanityLabelled_def sanityGood_def split: if_splits)
qed (auto simp: sanityEnv_def sanityClient_def sanityMetadata_def sanity_client_defs Let_def
    frame_rel(1) [THEN reflpD] intro!: sanity_frame_same split: sum.split option.split)

subsection \<open>Properties\<close>

text \<open>C3: a volume that \<open>CreateVolume\<close> returns names an active filesystem of the requested space, whose
  label is the normalized volume name, in the discovered region, with the requested tags and a
  mount target. It is either new, with the requested capacity, or the existing filesystem with that
  label, of compatible capacity. No other filesystem is touched.\<close>

theorem create_correct:
  assumes "filesystem_store v (cs_linodego s) fss good labelled" and "good (proc_world st)"
    and "run (CreateVolume s req) v st = (Inr vol, st')"
  shows "\<exists>params i f mtls. checkCreateRequest req = Inr params \<and> spaceMatches labelled params i \<and>
    vol = csiVolume f mtls \<and>
    volumePost (fss (proc_world st)) (fss (proc_world st')) i (volumeLabel s (cv_Name req))
      (proc_region st') (elems (par_tags params)) f \<and>
    (case fss (proc_world st) (i, fs_ID f) of
       None \<Rightarrow> fs_MaxCapacityBytes f = requestedCapacityBytes (cv_CapacityRange req)
     | Some g \<Rightarrow> sameFilesystem g f \<and>
         validateExistingFilesystemCapacity f (cv_CapacityRange req) = Inr ())"
  using filesystem_store.CreateVolume_ok [OF assms(1,3) refl assms(2)] by blast

lemma sanityServer_store:
  "filesystem_store sanityEnv (cs_linodego sanityServer) sanityFilesystems sanityGood sanityLabelled"
  using sanity_store.filesystem_store_axioms by (simp add: sanityServer_def)

lemma sanityGood_initial [simp]: "sanityGood (proc_world sanityProc)"
  by (simp add: sanityProc_def newFakeSanityLinodeClient_def sanityGood_def)

definition createdVolume :: Volume where
  "createdVolume = \<lparr>vol_VolumeId = ''1/10000'', vol_CapacityBytes = 1000,
     vol_VolumeContext =
       [(''space-id'', ''1''), (''filesystem-id'', ''10000''),
        (''mount-target'', ''sanity-space-1.nfs.us-east.linode.com:/pvc-1-2710''),
        (''mount-target-ips'', ''[2001:db8::2710]:/pvc-1-2710''),
        (''region'', ''us-east''), (''mtls-mode'', ''disabled'')]\<rparr>"

lemma run_created: "run (CreateVolume sanityServer createReq) sanityEnv sanityProc = (Inr createdVolume, createdProc)"
proof -
  have "fst (run (CreateVolume sanityServer createReq) sanityEnv sanityProc) = Inr createdVolume"
    by code_simp
  then show ?thesis unfolding createdProc_def by (metis prod.collapse)
qed

theorem create_correct_witness:
  "\<exists>params i f mtls. checkCreateRequest createReq = Inr params \<and> spaceMatches sanityLabelled params i \<and>
    createdVolume = csiVolume f mtls \<and>
    volumePost (sanityFilesystems (proc_world sanityProc)) (sanityFilesystems (proc_world createdProc))
      i (volumeLabel sanityServer ''pvc-1'') (proc_region createdProc) (elems (par_tags params)) f"
  using create_correct [OF sanityServer_store sanityGood_initial run_created]
  by (auto simp: createReq_def)

text \<open>Creation is idempotent: repeating a request that has succeeded never makes a second
  filesystem, whatever the repetition returns, and when it succeeds it returns the same volume.\<close>

lemma create_retry:
  assumes "filesystem_store v (cs_linodego s) fss good labelled" and "good (proc_world st)"
    and "run (CreateVolume s req) v st = (Inr vol, st')"
    and "run (CreateVolume s req) v st' = (r, st'')"
  shows "dom (fss (proc_world st'')) = dom (fss (proc_world st')) \<and>
    (case r of Inl e \<Rightarrow> True | Inr vol2 \<Rightarrow> vol_VolumeId vol2 = vol_VolumeId vol)"
  using filesystem_store.CreateVolume_retry [OF assms(1,3) refl assms(2,4)]
  by (cases r) simp_all

theorem create_retry_witness:
  "fst (run (CreateVolume sanityServer createReq) sanityEnv createdProc) = Inr createdVolume \<and>
   dom (sanityFilesystems (proc_world (snd (run (CreateVolume sanityServer createReq) sanityEnv createdProc))))
     = dom (sanityFilesystems (proc_world createdProc))"
proof
  show "fst (run (CreateVolume sanityServer createReq) sanityEnv createdProc) = Inr createdVolume"
    by code_simp
  show "dom (sanityFilesystems (proc_world (snd (run (CreateVolume sanityServer createReq) sanityEnv createdProc))))
     = dom (sanityFilesystems (proc_world createdProc))"
    using create_retry [OF sanityServer_store sanityGood_initial run_created prod.collapse [symmetric]]
    by simp
qed

lemma delete_effect:
  assumes "filesystem_store v (cs_linodego s) fss good labelled" and "good (proc_world st)"
    and "run (DeleteVolume s volumeID) v st = (r, st')"
  shows "case parseVolumeHandle volumeID of
      Inl e \<Rightarrow> st' = st \<and> (r = Inr ()) = (volumeID \<noteq> [])
    | Inr h \<Rightarrow> fss (proc_world st') =
        (if r = Inr () then (fss (proc_world st))(handleKey h := None) else fss (proc_world st))"
proof (cases "volumeID = []")
  case True
  moreover have "isl (parseVolumeHandle [])" by code_simp
  ultimately show ?thesis using assms(3) by (auto simp: DeleteVolume_def isl_def)
next
  case False
  show ?thesis
  proof (cases "parseVolumeHandle volumeID")
    case (Inl e)
    with False assms(3) show ?thesis by (auto simp: DeleteVolume_def)
  next
    case (Inr h)
    obtain d w where d: "lc_DeleteNFSFilesystem (env_client v) (vh_spaceID h) (vh_filesystemID h)
        (proc_world st) = (d, w)" by fastforce
    from filesystem_store.delete [OF assms(1,2) d] assms(3) False Inr d show ?thesis
      by (auto simp: DeleteVolume_def run_simps handleKey_def fun_upd_idem_iff
          split: option.splits if_splits)
  qed
qed

text \<open>C23: a delete that succeeds for a well-formed volume ID leaves no such filesystem and touches no
  other one, a delete that fails changes no filesystem, and for a malformed ID nothing is called and
  the delete succeeds unless the ID is empty.\<close>

theorem delete_correct:
  assumes "filesystem_store v (cs_linodego s) fss good labelled" and "good (proc_world st)"
    and "run (DeleteVolume s volumeID) v st = (r, st')"
  shows "case parseVolumeHandle volumeID of
      Inl e \<Rightarrow> st' = st \<and> (r = Inr ()) = (volumeID \<noteq> [])
    | Inr h \<Rightarrow> fss (proc_world st') =
        (if r = Inr () then (fss (proc_world st))(handleKey h := None) else fss (proc_world st))"
  using assms by (rule delete_effect)

theorem delete_correct_witness:
  "sanityFilesystems (proc_world (snd (run (DeleteVolume sanityServer ''1/10000'') sanityEnv createdProc)))
     = (sanityFilesystems (proc_world createdProc))((1, 10000) := None)"
proof -
  have "sanityGood (proc_world createdProc)"
    using filesystem_store.CreateVolume_ok [OF sanityServer_store run_created refl sanityGood_initial]
    by blast
  moreover have "parseVolumeHandle ''1/10000'' = Inr \<lparr>vh_spaceID = 1, vh_filesystemID = 10000\<rparr>"
    by code_simp
  moreover have "fst (run (DeleteVolume sanityServer ''1/10000'') sanityEnv createdProc) = Inr ()"
    by code_simp
  ultimately show ?thesis
    using delete_correct [OF sanityServer_store, of createdProc "''1/10000''" "Inr ()"
        "snd (run (DeleteVolume sanityServer ''1/10000'') sanityEnv createdProc)"]
    by (simp add: handleKey_def) (metis prod.collapse)
qed

end
