(* ===== verification/Progress.thy ===== *)
theory Progress
  imports Interleaving NodeSafety CreateFacts
begin

text \<open>
  Every RPC returns. The requests of both services run as concurrent handlers over one process
  (gRPC registers all services); the only calls that block are those on the mutex of the region
  cache. The handlers keep the discipline of the mutex on every path, errors included, so some
  handler can always go on until all have returned; and as the program of a handler is a
  well-founded tree, no run is infinite.
\<close>

subsection \<open>The requests of a process\<close>

datatype rpc =
    RpcCreateVolume CreateVolumeRequest
  | RpcDeleteVolume string
  | RpcPublishVolume ControllerPublishVolumeRequest
  | RpcUnpublishVolume ControllerUnpublishVolumeRequest
  | RpcValidateCapabilities ValidateVolumeCapabilitiesRequest
  | RpcExpandVolume ControllerExpandVolumeRequest
  | RpcGetVolume string
  | RpcNodeStage NodeStageVolumeRequest
  | RpcNodeUnstage NodeUnstageVolumeRequest
  | RpcNodePublish NodePublishVolumeRequest
  | RpcNodeUnpublish NodeUnpublishVolumeRequest
  | RpcNodeStats NodeGetVolumeStatsRequest
  | RpcNodeInfo

text \<open>The error a handler returns, if any.\<close>

definition outcome :: "(goError + 'a) prog \<Rightarrow> goError option prog" where
  "outcome p = bindP p (\<lambda>r. Ret (case r of Inl e \<Rightarrow> Some e | Inr _ \<Rightarrow> None))"

primrec serveRpc :: "ControllerServer \<Rightarrow> NodeServer \<Rightarrow> rpc \<Rightarrow> goError option prog" where
  "serveRpc cs ns (RpcCreateVolume r) = outcome (CreateVolume cs r)"
| "serveRpc cs ns (RpcDeleteVolume r) = outcome (DeleteVolume cs r)"
| "serveRpc cs ns (RpcPublishVolume r) = outcome (ControllerPublishVolume cs r)"
| "serveRpc cs ns (RpcUnpublishVolume r) = outcome (ControllerUnpublishVolume cs r)"
| "serveRpc cs ns (RpcValidateCapabilities r) = outcome (ValidateVolumeCapabilities cs r)"
| "serveRpc cs ns (RpcExpandVolume r) = outcome (ControllerExpandVolume cs r)"
| "serveRpc cs ns (RpcGetVolume r) = outcome (ControllerGetVolume cs r)"
| "serveRpc cs ns (RpcNodeStage r) = outcome (NodeStageVolume ns r)"
| "serveRpc cs ns (RpcNodeUnstage r) = outcome (NodeUnstageVolume ns r)"
| "serveRpc cs ns (RpcNodePublish r) = outcome (NodePublishVolume ns r)"
| "serveRpc cs ns (RpcNodeUnpublish r) = outcome (NodeUnpublishVolume ns r)"
| "serveRpc cs ns (RpcNodeStats r) = outcome (NodeGetVolumeStats ns r)"
| "serveRpc cs ns RpcNodeInfo = outcome (NodeGetInfo ns)"

subsection \<open>The discipline of the region mutex\<close>

text \<open>Whether the handler holds the mutex after a call, if the call keeps the discipline: no second
  lock, no unlock without a lock.\<close>

fun holdsAfter :: "'k eff \<Rightarrow> bool \<Rightarrow> bool option" where
  "holdsAfter (LockRegionMu k) held = (if held then None else Some True)"
| "holdsAfter (UnlockRegionMu k) held = (if held then Some False else None)"
| "holdsAfter e held = Some held"

text \<open>\<open>mutexPath p a b\<close>: started with the mutex held (\<open>a\<close>) or not, every path of \<open>p\<close> keeps the discipline
  and ends with the mutex held (\<open>b\<close>) or not.\<close>

primrec mutexPath :: "'a prog \<Rightarrow> bool \<Rightarrow> bool \<Rightarrow> bool" where
  "mutexPath (Ret x) a b = (a = b)"
| "mutexPath (Do e) a b =
     (case holdsAfter e a of None \<Rightarrow> False | Some c \<Rightarrow> \<forall>f \<in> set_eff (map_eff mutexPath e). f c b)"

lemma holdsAfter_map [simp]: "holdsAfter (map_eff f e) a = holdsAfter e a"
  by (cases e) simp_all

lemma mutexPath_Do:
  "mutexPath (Do e) a b \<longleftrightarrow> (\<exists>c. holdsAfter e a = Some c \<and> (\<forall>p \<in> set_eff e. mutexPath p c b))"
  by (simp add: eff.set_map split: option.split)

declare mutexPath.simps(2) [simp del]

lemma mutexPath_call:
  "holdsAfter e a = Some c \<Longrightarrow> (\<And>p. p \<in> set_eff e \<Longrightarrow> mutexPath p c b) \<Longrightarrow> mutexPath (Do e) a b"
  by (auto simp: mutexPath_Do)

lemma mutexPath_bindP:
  assumes "mutexPath p a c" and "\<And>x. mutexPath (f x) c b"
  shows "mutexPath (bindP p f) a b"
  using assms(1)
proof (induction p arbitrary: a)
  case (Ret x)
  then show ?case using assms(2) by simp
next
  case (Do e)
  then show ?case by (auto simp: mutexPath_Do eff.set_map)
qed

text \<open>Programs that leave the mutex alone.\<close>

definition regionFree :: "'a prog \<Rightarrow> bool" where
  "regionFree p \<longleftrightarrow> (\<forall>a. mutexPath p a a)"

lemma regionFree_Ret [simp]: "regionFree (Ret x)"
  by (simp add: regionFree_def)

lemma regionFree_call:
  "(\<And>a. holdsAfter e a = Some a) \<Longrightarrow> (\<And>p. p \<in> set_eff e \<Longrightarrow> regionFree p) \<Longrightarrow> regionFree (Do e)"
  by (auto simp: regionFree_def intro: mutexPath_call)

lemma regionFree_bindP: "regionFree p \<Longrightarrow> (\<And>x. regionFree (f x)) \<Longrightarrow> regionFree (bindP p f)"
  by (auto simp: regionFree_def intro: mutexPath_bindP)

lemma regionFree_bindE: "regionFree p \<Longrightarrow> (\<And>x. regionFree (f x)) \<Longrightarrow> regionFree (bindE p f)"
  by (auto simp: bindE_def intro: regionFree_bindP split: sum.split)

lemma regionFree_mapErr: "regionFree p \<Longrightarrow> regionFree (mapErr h p)"
  by (auto simp: mapErr_def intro: regionFree_bindP split: sum.split)

lemma regionFree_checkErr: "regionFree p \<Longrightarrow> regionFree (checkErr p)"
  by (auto simp: checkErr_def intro: regionFree_bindP split: option.split)

lemmas regionFree_intros =
  regionFree_bindP regionFree_bindE regionFree_mapErr regionFree_checkErr regionFree_call

lemma regionFree_locked: "regionFree body \<Longrightarrow> regionFree (withVolumeLock key body)"
  by (auto simp: withVolumeLock_def intro!: regionFree_intros)

lemma regionFree_steps [simp]:
  "regionFree (waitForFilesystemAccessPolicyActive s i j)"
  "regionFree (getFilesystemPolicyForVolumeAndNode x y)"
  "regionFree (ensureMountPoint path)"
  "regionFree (mountStage sreq source opts)"
  "regionFree (cleanupAt path msg)"
  "regionFree (NodeByName name)"
  "regionFree (currentNodeFromMetadata m)"
  by (auto simp: waitForFilesystemAccessPolicyActive_def getFilesystemPolicyForVolumeAndNode_def
      ensureMountPoint_def mountStage_def cleanupAt_def NodeByName_def currentNodeFromMetadata_def
      intro!: regionFree_intros split: option.split)

lemma regionFree_locked_bodies [simp]:
  "regionFree (updatePolicyAndWait s h opts)"
  "regionFree (publishLocked s preq)"
  "regionFree (unpublishLocked s ureq)"
  "regionFree (expandLocked s h r l c)"
  "regionFree (stageLocked sreq source ips)"
  "regionFree (nodePublishLocked nreq)"
  by (auto simp: updatePolicyAndWait_def publishLocked_def unpublishLocked_def expandLocked_def
      stageLocked_def nodeStageVolume_def nodePublishLocked_def nodePublishVolume_def Let_def
      intro!: regionFree_intros split: sum.split option.split)

lemma regionFree_create_steps [simp]:
  "regionFree (setInitialSquashPolicy s i j sp)"
  "regionFree (finalizeFilesystemVolume s f params space)"
  "regionFree (handleExistingFilesystem s f params space cr src)"
  "regionFree (createFilesystem s i label params space c)"
  "regionFree (resolveSpace s params)"
  "regionFree (findExistingFilesystem s i label region)"
  "regionFree (getSpaceAccessPolicy s i)"
  "regionFree discoverRegion"
proof -
  show squash: "regionFree (setInitialSquashPolicy s i j sp)" for i j sp
    by (auto simp: setInitialSquashPolicy_def intro!: regionFree_intros split: prod.split)
  show final: "regionFree (finalizeFilesystemVolume s f params space)" for f
    by (auto simp: finalizeFilesystemVolume_def intro!: regionFree_intros squash)
  show "regionFree (handleExistingFilesystem s f params space cr src)"
    by (auto simp: handleExistingFilesystem_def intro!: regionFree_intros final)
  show "regionFree (createFilesystem s i label params space c)"
    by (auto simp: createFilesystem_def intro!: regionFree_intros final)
qed (auto simp: resolveSpace_def findExistingFilesystem_def getSpaceAccessPolicy_def discoverRegion_def
    intro!: regionFree_intros split: list.split option.split)

lemma Region_path: "mutexPath Region False False"
proof -
  have lock: "mutexPath (call LockRegionMu) False True"
    "mutexPath (call UnlockRegionMu) True False" by (auto intro!: mutexPath_call)
  have "regionFree (call ReadRegion)" by (auto intro!: regionFree_call)
  then show ?thesis unfolding Region_def
    using lock regionFree_create_steps(8)
    by (intro mutexPath_bindP [where c = True] mutexPath_bindP [where c = False])
      (auto simp: regionFree_def)
qed

lemma mutexPath_bindE:
  "mutexPath p a c \<Longrightarrow> (\<And>x. mutexPath (f x) c b) \<Longrightarrow> (c = b) \<Longrightarrow> mutexPath (bindE p f) a b"
  by (auto simp: bindE_def intro!: mutexPath_bindP split: sum.split)

lemma CreateVolume_path: "mutexPath (CreateVolume s req) False False"
proof -
  have region: "mutexPath (mapErr h Region) False False" for h
    unfolding mapErr_def using Region_path by (rule mutexPath_bindP) (auto split: sum.split)
  show ?thesis
    unfolding CreateVolume_def Let_def
    by (intro mutexPath_bindE [where c = False] region)
      (auto simp: regionFree_def [symmetric]
        intro!: regionFree_intros regionFree_def [THEN iffD1, rule_format] split: option.split)
qed

lemma outcome_path: "mutexPath p a b \<Longrightarrow> mutexPath (outcome p) a b"
  unfolding outcome_def by (rule mutexPath_bindP) (auto split: sum.split)

lemma regionFree_outcome: "regionFree p \<Longrightarrow> mutexPath (outcome p) False False"
  by (rule outcome_path) (simp add: regionFree_def)

lemma serveRpc_path: "mutexPath (serveRpc cs ns r) False False"
proof (cases r)
  case (RpcCreateVolume q)
  then show ?thesis by (simp add: outcome_path CreateVolume_path)
next
  case (RpcNodeInfo)
  then show ?thesis
    by (auto simp: NodeGetInfo_def CurrentNode_def intro!: regionFree_outcome regionFree_intros
        split: option.split sum.split)
qed (auto simp: DeleteVolume_def ControllerPublishVolume_def ControllerUnpublishVolume_def
    ValidateVolumeCapabilities_def ControllerExpandVolume_def ControllerGetVolume_def NodeStageVolume_def
    NodeUnstageVolume_def NodePublishVolume_def NodeUnpublishVolume_def NodeGetVolumeStats_def Let_def
    intro!: regionFree_outcome regionFree_locked regionFree_intros
    split: sum.split option.split prod.split)

subsection \<open>No deadlock\<close>

text \<open>The flags say which handler holds the mutex: at most one, and some one exactly if it is locked.\<close>

definition mutexInv :: "('a, 'w) config \<Rightarrow> bool" where
  "mutexInv c \<longleftrightarrow> (case c of (ts, st) \<Rightarrow>
     \<exists>own. length own = length ts \<and> (\<forall>i < length ts. mutexPath (ts ! i) (own ! i) False) \<and>
       (\<forall>i < length ts. \<forall>j < length ts. own ! i \<longrightarrow> own ! j \<longrightarrow> i = j) \<and>
       proc_regionMu st = (\<exists>i < length ts. own ! i))"

lemma mutexInv_start:
  assumes "\<forall>t \<in> set ts. mutexPath t False False" and "\<not> proc_regionMu st"
  shows "mutexInv (ts, st)"
  using assms by (auto simp: mutexInv_def intro!: exI [of _ "replicate (length ts) False"])

text \<open>What a call does to the mutex, when it can be performed.\<close>

lemma step_mutex:
  assumes "canStep e st" and "holdsAfter e a = Some b" and "a \<longrightarrow> proc_regionMu st"
    and "step v e st = (p, st')"
  shows "proc_regionMu st' = (if a = b then proc_regionMu st else b) \<and> (b \<and> \<not> a \<longrightarrow> \<not> proc_regionMu st)"
  using assms by (cases e) (auto simp: onWorld_def split: prod.splits if_splits)

text \<open>Changing one flag along with the mutex.\<close>

lemma update_flags:
  assumes i: "i < length own" and one: "\<And>j k. j < length own \<Longrightarrow> k < length own \<Longrightarrow> own ! j \<Longrightarrow> own ! k \<Longrightarrow> j = k"
    and mu: "m = (\<exists>j < length own. own ! j)" and m': "m' = (if own ! i = b then m else b)"
    and free: "b \<and> \<not> own ! i \<longrightarrow> \<not> m"
  shows "(\<forall>j < length own. \<forall>k < length own. own[i := b] ! j \<longrightarrow> own[i := b] ! k \<longrightarrow> j = k) \<and>
    m' = (\<exists>j < length own. own[i := b] ! j)"
proof (cases "own ! i = b")
  case True
  have "own[i := b] = own" by (subst True [symmetric]) (rule list_update_id)
  with True one mu m' show ?thesis by simp
next
  case diff: False
  show ?thesis
  proof (cases b)
    case True
    with diff free mu have "\<not> own ! n" if "n < length own" for n using that by blast
    with True i m' diff show ?thesis by (auto simp: nth_list_update intro!: exI [of _ i])
  next
    case False
    with diff have here: "own ! i" by simp
    have "\<not> own[i := False] ! j" if "j < length own" for j
      using one [OF that i _ here] i by (cases "j = i") auto
    with False here m' show ?thesis by simp
  qed
qed

lemma mutexInv_step:
  assumes "cstep v c c'" and "mutexInv c"
  shows "mutexInv c'"
  using assms(1)
proof cases
  case (perform i ts e st p st')
  from assms(2) perform(1) obtain own where
    own: "length own = length ts" "\<And>j. j < length ts \<Longrightarrow> mutexPath (ts ! j) (own ! j) False"
    "\<And>j k. j < length own \<Longrightarrow> k < length own \<Longrightarrow> own ! j \<Longrightarrow> own ! k \<Longrightarrow> j = k"
    "proc_regionMu st = (\<exists>j < length own. own ! j)"
    by (auto simp: mutexInv_def)
  from own(2) [OF perform(3)] perform(4) obtain b where
    b: "holdsAfter e (own ! i) = Some b" "\<And>q. q \<in> set_eff e \<Longrightarrow> mutexPath q b False"
    by (auto simp: mutexPath_Do)
  have "p \<in> set_eff e" using step_set [of v e st] perform(6) by simp
  with b(2) have p: "mutexPath p b False" .
  have i: "i < length own" using own(1) perform(3) by simp
  then have "own ! i \<longrightarrow> proc_regionMu st" using own(4) by auto
  from step_mutex [OF perform(5) b(1) this perform(6)] update_flags [OF i own(3,4)]
  have "(\<forall>j < length own. \<forall>k < length own. own[i := b] ! j \<longrightarrow> own[i := b] ! k \<longrightarrow> j = k) \<and>
    proc_regionMu st' = (\<exists>j < length own. own[i := b] ! j)" by blast
  moreover have "\<forall>j < length ts. mutexPath (ts[i := p] ! j) (own[i := b] ! j) False"
    using own(1,2) p perform(3) by (auto simp: nth_list_update)
  ultimately show ?thesis
    using own(1) unfolding perform(2) mutexInv_def by (auto intro!: exI [of _ "own[i := b]"])
qed

lemma mutexInv_reach: "reach v c c' \<Longrightarrow> mutexInv c \<Longrightarrow> mutexInv c'"
  by (induction rule: reach.induct) (auto intro: mutexInv_step)

lemma blocked_iff: "\<not> canStep e st \<longleftrightarrow> proc_regionMu st \<and> (\<exists>k. e = LockRegionMu k)"
  by (cases e) auto

lemma mutexInv_progress:
  assumes inv: "mutexInv (ts, st)" and unfinished: "t \<in> set ts" "\<not> finished t"
  shows "\<exists>c. cstep v (ts, st) c"
proof -
  have go: "\<exists>c. cstep v (ts, st) c" if "i < length ts" "ts ! i = Do e" "canStep e st" for i e
    using cstep.perform [OF that, of v] by (metis prod.exhaust)
  from inv obtain own where
    own: "length own = length ts" "\<And>j. j < length ts \<Longrightarrow> mutexPath (ts ! j) (own ! j) False"
    "proc_regionMu st = (\<exists>j < length ts. own ! j)"
    by (auto simp: mutexInv_def)
  show ?thesis
  proof (cases "proc_regionMu st")
    case True
    with own obtain j where j: "j < length ts" "own ! j" by blast
    with own(2) [OF j(1)] obtain e where e: "ts ! j = Do e" "holdsAfter e True \<noteq> None"
      by (cases "ts ! j") (auto simp: mutexPath_Do)
    then have "canStep e st" by (cases e) auto
    from go [OF j(1) e(1) this] show ?thesis .
  next
    case False
    from unfinished(1) obtain i where i: "i < length ts" "ts ! i = t" by (auto simp: in_set_conv_nth)
    with unfinished(2) obtain e where "t = Do e" by (cases t) (auto simp: finished_def)
    moreover have "canStep e st" using False blocked_iff [of e st] by blast
    ultimately show ?thesis using go i by blast
  qed
qed

subsection \<open>No infinite run\<close>

text \<open>The programs that follow a call are below it in a well-founded order.\<close>

definition below :: "('a prog \<times> 'a prog) set" where
  "below = {(p, q). \<exists>e. q = Do e \<and> p \<in> set_eff e}"

lemma wf_below: "wf below"
proof (rule wfUNIVI)
  fix P :: "'a prog \<Rightarrow> bool" and p
  assume step: "\<forall>q. (\<forall>p. (p, q) \<in> below \<longrightarrow> P p) \<longrightarrow> P q"
  show "P p" by (induction p) (use step in \<open>auto simp: below_def\<close>)
qed

lemma cstep_below: "cstep v c c' \<Longrightarrow> (fst c', fst c) \<in> listrel1 below"
proof (erule cstep.cases)
  fix i ts e st p st'
  assume c: "c = (ts, st)" "c' = (ts[i := p], st')" and i: "i < length ts" and e: "ts ! i = Do e"
    and st: "step v e st = (p, st')"
  have "p \<in> set_eff e" using step_set [of v e st] st by simp
  with e have "(p, ts ! i) \<in> below" by (auto simp: below_def)
  with i show "(fst c', fst c) \<in> listrel1 below"
    unfolding c fst_conv by (subst (2) id_take_nth_drop [OF i], subst upd_conv_take_nth_drop [OF i])
      (auto simp: listrel1_def)
qed

lemma no_infinite_interleaving: "\<not> (\<forall>n. cstep v (f n) (f (Suc n)))"
proof
  assume "\<forall>n. cstep v (f n) (f (Suc n))"
  then have "\<forall>n. (fst (f (Suc n)), fst (f n)) \<in> listrel1 below" by (blast intro: cstep_below)
  moreover have "wf (listrel1 below)" using wf_below by simp
  ultimately show False unfolding wf_iff_no_infinite_down_chain
    by (auto dest: spec [of _ "\<lambda>n. fst (f n)"])
qed

text \<open>C9: every request is answered: when any requests to the controller and the node service are handled
  concurrently, no interleaving of their calls is infinite, and none gets stuck before all handlers
  have returned, whatever the API, Kubernetes and the host answer. When it ends the mutex of the
  region cache is free.\<close>

theorem rpc_progress:
  assumes "\<not> proc_regionMu st" and "reach v (map (serveRpc cs ns) reqs, st) (ts, st')"
  shows "((\<exists>c. cstep v (ts, st') c) \<or> ((\<forall>t \<in> set ts. finished t) \<and> \<not> proc_regionMu st')) \<and>
    (\<nexists>f. f 0 = (ts, st') \<and> (\<forall>n. cstep v (f n) (f (Suc n))))"
proof -
  have inv: "mutexInv (ts, st')"
    by (rule mutexInv_reach [OF assms(2) mutexInv_start [OF _ assms(1)]]) (simp add: serveRpc_path)
  have "\<not> proc_regionMu st'" if fin: "\<forall>t \<in> set ts. finished t"
  proof
    assume "proc_regionMu st'"
    with inv obtain i own where "i < length ts" "mutexPath (ts ! i) True False" by (auto simp: mutexInv_def)
    moreover from this fin obtain x where "ts ! i = Ret x"
      by (meson finished_def nth_mem)
    ultimately show False by simp
  qed
  moreover have "\<exists>c. cstep v (ts, st') c" if "\<not> (\<forall>t \<in> set ts. finished t)"
    using that mutexInv_progress [OF inv] by blast
  ultimately show ?thesis using no_infinite_interleaving by blast
qed

text \<open>Two creations at once: the second one is blocked while the first one discovers the region.\<close>

definition twoCreates :: "(goError option, SanityWorld) config" where
  "twoCreates =
     (map (serveRpc sanityServer sanityNodeServer) [RpcCreateVolume createReq, RpcCreateVolume createReq], sanityProc)"

theorem rpc_progress_witness:
  "schedule sanityEnv [0, 1] twoCreates = None \<and>
   (\<exists>c. cstep sanityEnv (runSchedule sanityEnv [0] twoCreates) c)"
proof
  have "(case schedule sanityEnv [0, 1] twoCreates of None \<Rightarrow> True | Some c \<Rightarrow> False)" by code_simp
  then show "schedule sanityEnv [0, 1] twoCreates = None" by (auto split: option.splits)
  let ?c = "runSchedule sanityEnv [0] twoCreates"
  have r: "reach sanityEnv twoCreates (fst ?c, snd ?c)"
    unfolding prod.collapse by (rule runSchedule_reach) (rule HOL.refl)
  have "\<not> proc_regionMu sanityProc" by (simp add: sanityProc_def)
  moreover have "progResult (fst ?c ! 0) = None \<and> length (fst ?c) = 2" by code_simp
  then have "\<exists>t \<in> set (fst ?c). \<not> finished t"
    by (intro bexI [of _ "fst ?c ! 0"]) (auto simp: finished_def)
  ultimately show "\<exists>c. cstep sanityEnv ?c c"
    using rpc_progress [OF _ r [unfolded twoCreates_def]] unfolding prod.collapse twoCreates_def by blast
qed

end
