(* ===== verification/BackendInvariant.thy ===== *)
theory BackendInvariant
  imports Progress
begin

text \<open>
  The invariant of the in-memory backend of \<open>tests/sanity\<close> and of the host, under any requests: the
  name index names exactly the filesystems, so that no two have one label; each filesystem has an
  access policy and one root quota with its capacity, and nothing is left of a deleted one. As every
  call on the backend keeps it, it holds at every moment of every interleaving.
\<close>

subsection \<open>Invariants of the world\<close>

text \<open>A call does to the state what it does, whatever it continues with.\<close>

lemma step_state: "snd (step v (map_eff f e) s) = snd (step v e s)"
  by (simp add: step_map)

definition keepsWorld :: "'w env \<Rightarrow> ('w \<Rightarrow> bool) \<Rightarrow> bool" where
  "keepsWorld v I \<longleftrightarrow>
     (\<forall>(e :: unit eff) s. I (proc_world s) \<longrightarrow> I (proc_world (snd (step v e s))))"

lemma keepsWorld_step: "keepsWorld v I \<Longrightarrow> I (proc_world s) \<Longrightarrow> I (proc_world (snd (step v e s)))"
  using step_state [of v "\<lambda>_. ()" e s] unfolding keepsWorld_def by metis

lemma keepsWorld_cstep: "cstep v c c' \<Longrightarrow> keepsWorld v I \<Longrightarrow> I (proc_world (snd c)) \<Longrightarrow> I (proc_world (snd c'))"
  by (erule cstep.cases) (metis keepsWorld_step snd_conv)

lemma keepsWorld_reach:
  "reach v c c' \<Longrightarrow> keepsWorld v I \<Longrightarrow> I (proc_world (snd c)) \<Longrightarrow> I (proc_world (snd c'))"
  by (induction rule: reach.induct) (auto intro: keepsWorld_cstep)

lemma keepsWorld_run: "keepsWorld v I \<Longrightarrow> I (proc_world s) \<Longrightarrow> I (proc_world (snd (run p v s)))"
proof (induction p arbitrary: s)
  case (Do e)
  obtain p s' where ps: "step v e s = (p, s')" by fastforce
  with Do.prems keepsWorld_step [of v I s e] have "I (proc_world s')" by simp
  with Do.IH [of p s'] Do.prems(1) ps step_set [of v e s] show ?case by (simp add: run_Do)
qed simp

subsection \<open>The backend\<close>

declare map_of_eq_Some_iff [simp del]

text \<open>The quotas, by the filesystem they are of: one each, the root quota, with the capacity of the
  filesystem.\<close>

definition quotasMatch :: "(int \<times> NFSFilesystem) list \<Rightarrow> (int \<times> NFSQuota) list \<Rightarrow> bool" where
  "quotasMatch fs qs \<longleftrightarrow>
     distinct (map (quota_FilesystemID \<circ> snd) qs) \<and>
     (\<forall>j. map_of fs j \<noteq> None \<longleftrightarrow> j \<in> set (map (quota_FilesystemID \<circ> snd) qs)) \<and>
     (\<forall>(k, q) \<in> set qs. quota_IsRoot q \<and>
        (\<forall>f. map_of fs (quota_FilesystemID q) = Some f \<longrightarrow> quota_MaxCapacityBytes q = Some (fs_MaxCapacityBytes f)))"

definition namesMatch :: "(int \<times> NFSFilesystem) list \<Rightarrow> (string \<times> int) list \<Rightarrow> bool" where
  "namesMatch fs ns \<longleftrightarrow>
     (\<forall>n j. map_of ns n = Some j \<longleftrightarrow>
        (\<exists>f. map_of fs j = Some f \<and> n = fakeSanityFilesystemName fakeSanitySpaceID (fs_Label f)))"

definition backendWf :: "SanityWorld \<Rightarrow> bool" where
  "backendWf w \<longleftrightarrow> sanityGood w \<and> namesMatch (sw_filesystems w) (sw_filesystemByName w) \<and>
     (\<forall>j. map_of (sw_filesystemPolicy w) j = None \<longleftrightarrow> map_of (sw_filesystems w) j = None) \<and>
     quotasMatch (sw_filesystems w) (sw_quotas w) \<and>
     (\<forall>k \<in> fst ` set (sw_quotas w). k < sw_nextQuotaID w)"

lemma name_inj [simp]:
  "fakeSanityFilesystemName i l = fakeSanityFilesystemName i l' \<longleftrightarrow> l = l'"
  by (simp add: fakeSanityFilesystemName_def)

lemma locked_Some:
  "backendWf w \<Longrightarrow> filesystemLocked w i j = Inr f \<Longrightarrow> i = fakeSanitySpaceID \<and> map_of (sw_filesystems w) j = Some f"
  by (auto simp: backendWf_def filesystemLocked_good sanityFilesystems_def split: if_splits)

lemma wf_at: "backendWf w \<Longrightarrow> map_of (sw_filesystems w) j = Some f \<Longrightarrow>
    fs_ID f = j \<and> fs_SpaceID f = fakeSanitySpaceID \<and> j < sw_nextFilesystemID w"
  by (simp add: backendWf_def sanityGood_def)

text \<open>Replacing a filesystem by one with the same label and capacity.\<close>

lemma namesMatch_update:
  assumes "namesMatch fs ns" and "map_of fs j = Some g" and "fs_Label f = fs_Label g"
  shows "namesMatch (AList.update j f fs) ns"
  using assms by (auto simp: namesMatch_def update_conv')

lemma backendWf_replace:
  assumes w: "backendWf w" and g: "map_of (sw_filesystems w) j = Some g"
    and f: "fs_ID f = fs_ID g" "fs_SpaceID f = fs_SpaceID g" "fs_Label f = fs_Label g"
    and qs: "quotasMatch (AList.update j f (sw_filesystems w)) qs" "fst ` set qs = fst ` set (sw_quotas w)"
  shows "backendWf (w\<lparr>sw_filesystems := AList.update j f (sw_filesystems w), sw_quotas := qs\<rparr>)"
proof -
  note at = wf_at [OF w g]
  let ?w = "w\<lparr>sw_filesystems := AList.update j f (sw_filesystems w), sw_quotas := qs\<rparr>"
  have good: "sanityGood w" using w by (simp add: backendWf_def)
  from at f have new: "fs_ID f = j" "fs_SpaceID f = fakeSanitySpaceID" by simp_all
  have "sanityGood ?w"
    using sanityGood_update [OF good new, of "sw_nextFilesystemID w" ?w] at by simp
  moreover have "namesMatch (sw_filesystems ?w) (sw_filesystemByName ?w)"
    using w g f by (simp add: backendWf_def namesMatch_update)
  moreover have "map_of (sw_filesystems ?w) i = None \<longleftrightarrow> map_of (sw_filesystems w) i = None" for i
    using g by (simp add: update_conv')
  ultimately show ?thesis using w qs by (simp add: backendWf_def)
qed

lemma quotasMatch_replace:
  assumes "quotasMatch fs qs" and "map_of fs j = Some g" and "fs_MaxCapacityBytes f = fs_MaxCapacityBytes g"
  shows "quotasMatch (AList.update j f fs) qs"
  using assms by (auto simp: quotasMatch_def update_conv' split: if_splits)

lemma keeps_wait:
  assumes "backendWf w"
  shows "backendWf (snd (san_WaitForNFSFilesystemStatus t i j status w))"
proof (cases "filesystemLocked w i j")
  case (Inr g)
  from locked_Some [OF assms this] have g: "map_of (sw_filesystems w) j = Some g" by simp
  let ?f = "activateSanityFilesystem g"
  have f: "fs_ID ?f = fs_ID g" "fs_SpaceID ?f = fs_SpaceID g" "fs_Label ?f = fs_Label g"
    "fs_MaxCapacityBytes ?f = fs_MaxCapacityBytes g"
    by (simp_all add: activateSanityFilesystem_def Let_def)
  have "quotasMatch (AList.update j ?f (sw_filesystems w)) (sw_quotas w)"
    using assms g f by (intro quotasMatch_replace) (auto simp: backendWf_def)
  from backendWf_replace [OF assms g f(1-3) this HOL.refl]
  have "backendWf (w\<lparr>sw_filesystems := AList.update j ?f (sw_filesystems w)\<rparr>)" by simp
  then show ?thesis using assms Inr by (simp add: san_WaitForNFSFilesystemStatus_def Let_def)
qed (use assms in \<open>simp add: san_WaitForNFSFilesystemStatus_def\<close>)

text \<open>An update of the capacity changes the root quota along.\<close>

lemma keeps_update:
  assumes "backendWf w"
  shows "backendWf (snd (san_UpdateNFSFilesystem i j o' w))"
proof (cases "filesystemLocked w i j")
  case (Inr g)
  from locked_Some [OF assms this] have g: "map_of (sw_filesystems w) j = Some g" by simp
  show ?thesis
  proof (cases "uf_MaxCapacityBytes o'")
    case (Some c)
    let ?f = "g\<lparr>fs_MaxCapacityBytes := c\<rparr>"
    let ?qs = "map (\<lambda>(k, q). (k, if quota_FilesystemID q \<noteq> j \<or> \<not> quota_IsRoot q then q
        else q\<lparr>quota_MaxCapacityBytes := Some c\<rparr>)) (sw_quotas w)"
    have ids: "map (quota_FilesystemID \<circ> snd) ?qs = map (quota_FilesystemID \<circ> snd) (sw_quotas w)"
      "fst ` set ?qs = fst ` set (sw_quotas w)" by (force simp: image_iff)+
    have "quotasMatch (AList.update j ?f (sw_filesystems w)) ?qs"
      using assms g unfolding backendWf_def quotasMatch_def ids(1)
      by (auto simp: update_conv' split: if_splits)
    from backendWf_replace [OF assms g _ _ _ this ids(2)] show ?thesis
      using assms Inr Some by (simp add: san_UpdateNFSFilesystem_def Let_def)
  qed (use assms Inr in \<open>simp add: san_UpdateNFSFilesystem_def\<close>)
qed (use assms in \<open>simp add: san_UpdateNFSFilesystem_def\<close>)

lemma quotasMatch_delete:
  assumes "quotasMatch fs qs"
  shows "quotasMatch (AList.delete j fs) (filter (\<lambda>(k, q). quota_FilesystemID q \<noteq> j) qs)"
proof -
  let ?qs = "filter (\<lambda>(k, q). quota_FilesystemID q \<noteq> j) qs"
  have "distinct (map (quota_FilesystemID \<circ> snd) ?qs)"
    using assms by (simp add: quotasMatch_def distinct_map_filter)
  moreover have "set (map (quota_FilesystemID \<circ> snd) ?qs) = set (map (quota_FilesystemID \<circ> snd) qs) - {j}"
    by force
  ultimately show ?thesis
    using assms unfolding quotasMatch_def by (simp add: delete_conv' split_beta)
qed

lemma namesMatch_delete:
  assumes names: "namesMatch fs ns" and f: "map_of fs j = Some f"
  shows "namesMatch (AList.delete j fs)
    (AList.delete (fakeSanityFilesystemName fakeSanitySpaceID (fs_Label f)) ns)"
  unfolding namesMatch_def
proof (intro allI)
  fix n k
  let ?name = "fakeSanityFilesystemName fakeSanitySpaceID (fs_Label f)"
  have at: "map_of ns ?name = Some j" using names f unfolding namesMatch_def by blast
  have "map_of ns n = Some k \<longleftrightarrow> (\<exists>g. map_of fs k = Some g \<and> n = fakeSanityFilesystemName fakeSanitySpaceID (fs_Label g))"
    for n using names unfolding namesMatch_def by blast
  note ns = this
  have "n \<noteq> ?name \<longleftrightarrow> k \<noteq> j" if "map_of ns n = Some k"
    using ns [of n] at f that by auto
  then show "map_of (AList.delete ?name ns) n = Some k \<longleftrightarrow>
      (\<exists>g. map_of (AList.delete j fs) k = Some g \<and> n = fakeSanityFilesystemName fakeSanitySpaceID (fs_Label g))"
    using ns [of n] f by (cases "k = j"; cases "n = ?name") (auto simp: delete_conv')
qed

lemma keeps_delete:
  assumes w: "backendWf w"
  shows "backendWf (snd (san_DeleteNFSFilesystem i j w))"
proof (cases "filesystemLocked w i j")
  case (Inr f)
  from locked_Some [OF w this] have i: "i = fakeSanitySpaceID" and f: "map_of (sw_filesystems w) j = Some f"
    by simp_all
  let ?fs = "AList.delete j (sw_filesystems w)" and ?qs = "filter (\<lambda>(k, q). quota_FilesystemID q \<noteq> j) (sw_quotas w)"
  let ?ns = "AList.delete (fakeSanityFilesystemName i (fs_Label f)) (sw_filesystemByName w)"
  let ?w = "w\<lparr>sw_filesystems := ?fs, sw_filesystemByName := ?ns,
    sw_filesystemPolicy := AList.delete j (sw_filesystemPolicy w), sw_quotas := ?qs\<rparr>"
  have good: "sanityGood w" and names: "namesMatch (sw_filesystems w) (sw_filesystemByName w)"
    using w by (simp_all add: backendWf_def)
  have "sanityGood ?w" using sanityGood_delete [OF good, of ?w j] by simp
  moreover have "namesMatch ?fs ?ns" unfolding i using names f by (rule namesMatch_delete)
  moreover have "quotasMatch ?fs ?qs"
    using w by (intro quotasMatch_delete) (simp add: backendWf_def)
  ultimately have "backendWf ?w" using w by (auto simp: backendWf_def delete_conv')
  then show ?thesis using Inr by (simp add: san_DeleteNFSFilesystem_def)
qed (use w in \<open>simp add: san_DeleteNFSFilesystem_def\<close>)

lemma namesMatch_insert:
  assumes names: "namesMatch fs ns" and new: "map_of fs j = None"
    and free: "map_of ns (fakeSanityFilesystemName fakeSanitySpaceID (fs_Label f)) = None"
  shows "namesMatch (AList.update j f fs)
    (AList.update (fakeSanityFilesystemName fakeSanitySpaceID (fs_Label f)) j ns)"
  unfolding namesMatch_def
proof (intro allI)
  fix n k
  let ?name = "fakeSanityFilesystemName fakeSanitySpaceID (fs_Label f)"
  have ns: "map_of ns n = Some k \<longleftrightarrow> (\<exists>g. map_of fs k = Some g \<and> n = fakeSanityFilesystemName fakeSanitySpaceID (fs_Label g))"
    for n k using names unfolding namesMatch_def by blast
  have other: "fs_Label g \<noteq> fs_Label f" if "map_of fs k = Some g" for g k
    using ns [of ?name k] free that by auto
  show "map_of (AList.update ?name j ns) n = Some k \<longleftrightarrow>
      (\<exists>g. map_of (AList.update j f fs) k = Some g \<and> n = fakeSanityFilesystemName fakeSanitySpaceID (fs_Label g))"
    using ns [of n k] new by (cases "k = j"; cases "n = ?name") (auto simp: update_conv' dest: other)
qed

lemma quotasMatch_insert:
  assumes qs: "quotasMatch fs qs" and new: "map_of fs j = None" and fresh: "\<And>k. k \<in> fst ` set qs \<Longrightarrow> k < n"
    and q: "quota_FilesystemID q = j" "quota_IsRoot q" "quota_MaxCapacityBytes q = Some (fs_MaxCapacityBytes f)"
  shows "quotasMatch (AList.update j f fs) (AList.update n q qs)"
proof -
  have "n \<notin> fst ` set qs" using fresh by blast
  then have upd: "AList.update n q qs = qs @ [(n, q)]"
    by (induction qs) auto
  have j: "j \<notin> set (map (quota_FilesystemID \<circ> snd) qs)" using qs new unfolding quotasMatch_def by blast
  have old: "quota_FilesystemID x \<noteq> j" if "(k, x) \<in> set qs" for k x
    using j that by force
  show ?thesis
    unfolding quotasMatch_def upd
    using qs j q new old by (auto simp: quotasMatch_def update_conv' split: if_splits)
qed

lemma keeps_create:
  assumes w: "backendWf w"
  shows "backendWf (snd (san_CreateNFSFilesystem i o' w))"
proof (cases "bindR (requireSpaceLocked w i) (\<lambda>_. validateSanityFilesystemCreate o')")
  case (Inl e)
  with w show ?thesis by (simp add: san_CreateNFSFilesystem_def)
next
  case (Inr u)
  have good: "sanityGood w" and names: "namesMatch (sw_filesystems w) (sw_filesystemByName w)"
    and quotas: "quotasMatch (sw_filesystems w) (sw_quotas w)"
    and fresh: "\<And>k. k \<in> fst ` set (sw_quotas w) \<Longrightarrow> k < sw_nextQuotaID w"
    using w unfolding backendWf_def by blast+
  from Inr have i: "i = fakeSanitySpaceID"
    using good by (auto simp: bindR_eq_Inr_iff requireSpaceLocked_def sanityGood_def split: if_splits)
  let ?name = "fakeSanityFilesystemName i (cr_Label o')"
  show ?thesis
  proof (cases "map_of (sw_filesystemByName w) ?name")
    case (Some j)
    with w Inr show ?thesis
      by (simp add: san_CreateNFSFilesystem_def Let_def split: option.split)
  next
    case None
    let ?n = "sw_nextFilesystemID w"
    let ?f = "deactivateSanityFilesystem (newSanityFilesystem ?n i o')"
    let ?w = "snd (san_CreateNFSFilesystem i o' w)"
    have f: "fs_ID ?f = ?n" "fs_SpaceID ?f = fakeSanitySpaceID" "fs_Label ?f = cr_Label o'"
      by (simp_all add: deactivateSanityFilesystem_def newSanityFilesystem_def i)
    have fields: "sw_space ?w = sw_space w" "sw_filesystems ?w = AList.update ?n ?f (sw_filesystems w)"
      "sw_filesystemByName ?w = AList.update ?name ?n (sw_filesystemByName w)"
      "sw_filesystemPolicy ?w = AList.update ?n (newSanityFilesystemPolicy ?f) (sw_filesystemPolicy w)"
      "sw_nextFilesystemID ?w = ?n + 1" "sw_nextQuotaID ?w = sw_nextQuotaID w + 1"
      "sw_quotas ?w = AList.update (sw_nextQuotaID w) \<lparr>quota_ID = sw_nextQuotaID w, quota_FilesystemID = ?n,
         quota_IsRoot = True, quota_MaxCapacityBytes = Some (fs_MaxCapacityBytes ?f)\<rparr> (sw_quotas w)"
      using Inr None by (simp_all add: san_CreateNFSFilesystem_def Let_def createSanityRootQuotaLocked_def f)
    have new: "map_of (sw_filesystems w) ?n = None"
      using wf_at [OF w, of ?n] by (cases "map_of (sw_filesystems w) ?n") auto
    have "sanityGood ?w"
      using sanityGood_update [OF good f(1,2), of "?n + 1" ?w] fields by simp
    moreover have "namesMatch (sw_filesystems ?w) (sw_filesystemByName ?w)"
      unfolding fields using namesMatch_insert [OF names new, of ?f] None f i by simp
    moreover have "quotasMatch (sw_filesystems ?w) (sw_quotas ?w)"
      unfolding fields by (rule quotasMatch_insert [OF quotas new fresh]) simp_all
    moreover have "map_of (sw_filesystemPolicy ?w) j = None \<longleftrightarrow> map_of (sw_filesystems ?w) j = None" for j
      unfolding fields using w by (simp add: update_conv' backendWf_def)
    moreover have "k < sw_nextQuotaID ?w" if "k \<in> fst ` set (sw_quotas ?w)" for k
    proof -
      have "k \<in> insert (sw_nextQuotaID w) (fst ` set (sw_quotas w))"
        using that unfolding fields dom_map_of_conv_image_fst [symmetric]
        by (simp add: dom_def update_conv' split: if_splits)
      with fresh [of k] show ?thesis unfolding fields by (elim insertE) simp_all
    qed
    ultimately show ?thesis by (simp add: backendWf_def)
  qed
qed

text \<open>Changing the policy of a filesystem.\<close>

lemma backendWf_policy:
  assumes "backendWf w" and "filesystemLocked w i j = Inr f"
  shows "backendWf (w\<lparr>sw_filesystemPolicy := AList.update j p (sw_filesystemPolicy w)\<rparr>)"
  using assms(1) locked_Some [OF assms] by (simp add: backendWf_def sanityGood_def update_conv')

lemma keeps_policy:
  assumes "backendWf w"
  shows "backendWf (snd (san_UpdateNFSFilesystemAccessPolicy i j o' w))"
    "backendWf (snd (san_WaitForNFSFilesystemAccessPolicyStatus t i j status w))"
  using assms backendWf_policy [OF assms, of i j]
  by (auto simp: san_UpdateNFSFilesystemAccessPolicy_def san_WaitForNFSFilesystemAccessPolicyStatus_def
      Let_def bindR_def split: sum.split option.split)

lemma keeps_host:
  "backendWf (w\<lparr>fm_mounts := m\<rparr>) = backendWf w" "backendWf (w\<lparr>sw_dirs := d\<rparr>) = backendWf w"
  by (simp_all add: backendWf_def sanityGood_def)

definition hostKeeps :: "SanityWorld Host \<Rightarrow> bool" where
  "hostKeeps h \<longleftrightarrow> (\<forall>w. backendWf w \<longrightarrow>
     (\<forall>p. backendWf (snd (h_IsLikelyNotMountPoint h p w)) \<and> backendWf (snd (h_MkdirAll h p w)) \<and>
        backendWf (snd (h_Statfs h p w))) \<and>
     (\<forall>p b. backendWf (snd (h_CleanupMountPoint h p b w))) \<and>
     (\<forall>a b c d. backendWf (snd (h_Mount h a b c d w))))"

lemma keepsWorld_env:
  assumes "env_client v = sanityClient" and "env_metadata v = sanityMetadata" and "hostKeeps (env_host v)"
  shows "keepsWorld v backendWf"
proof -
  have w: "backendWf (proc_world (snd (onWorld f k s)))"
    if "backendWf (proc_world s)" and "\<And>w. backendWf w \<Longrightarrow> backendWf (snd (f w))"
    for f :: "SanityWorld \<Rightarrow> 'r \<times> SanityWorld" and k :: "'r \<Rightarrow> unit" and s
    using that by (auto simp: onWorld_def split: prod.split) (metis snd_conv)
  have host: "backendWf w \<Longrightarrow> backendWf (snd (h_IsLikelyNotMountPoint (env_host v) p w))"
    "backendWf w \<Longrightarrow> backendWf (snd (h_MkdirAll (env_host v) p w))"
    "backendWf w \<Longrightarrow> backendWf (snd (h_Statfs (env_host v) p w))"
    "backendWf w \<Longrightarrow> backendWf (snd (h_CleanupMountPoint (env_host v) p b w))"
    "backendWf w \<Longrightarrow> backendWf (snd (h_Mount (env_host v) x y z o' w))" for w p b x y z o'
    using assms(3) by (simp_all add: hostKeeps_def)
  show ?thesis
    unfolding keepsWorld_def
  proof (intro allI impI)
    fix e :: "unit eff" and s :: "SanityWorld proc"
    assume "backendWf (proc_world s)"
    then show "backendWf (proc_world (snd (step v e s)))"
      by (cases e)
        (auto simp: assms(1,2) sanityClient_def sanityMetadata_def
          san_ListNFSSpaces_def san_GetNFSSpace_def san_ListNFSFilesystems_def
          san_GetNFSFilesystemInSpace_def san_ListNFSQuotas_def san_GetNFSSpaceAccessPolicy_def
          san_GetNFSFilesystemAccessPolicy_def
          intro!: w host keeps_wait keeps_update keeps_delete keeps_create keeps_policy split: prod.split)
  qed
qed

lemma hostKeeps_sanity: "hostKeeps sanityHost" "hostKeeps nullHost"
  by (simp_all add: hostKeeps_def sanityHost_def nullHost_def host_Statfs_def nodeHost_def
      newFakeSanitySafeMounter_def fakeMounterInterface_def fake_IsLikelyNotMountPoint_def fake_Mount_def
      fake_mount_def fake_Unmount_def sanityOS_def sanityMountPackage_def NewFileSystem_def
      OSFileSystem_MkdirAll_def keeps_host Let_def split: option.split sum.split prod.split)

lemma keepsWorld_backend: "keepsWorld nodeEnv backendWf" "keepsWorld sanityEnv backendWf"
  using hostKeeps_sanity by (auto simp: nodeEnv_def sanityEnv_def intro: keepsWorld_env)

subsection \<open>Every moment of every interleaving\<close>

lemma backendWf_label:
  assumes "backendWf w" and "map_of (sw_filesystems w) j = Some f" and "map_of (sw_filesystems w) k = Some g"
    and "fs_Label f = fs_Label g"
  shows "j = k"
proof -
  let ?name = "fakeSanityFilesystemName fakeSanitySpaceID (fs_Label g)"
  have "map_of (sw_filesystemByName w) ?name = Some j" "map_of (sw_filesystemByName w) ?name = Some k"
    using assms unfolding backendWf_def namesMatch_def by metis+
  then show ?thesis by simp
qed

text \<open>C25: whatever RPCs run concurrently on the in-memory backend and host, at every moment the backend is
  consistent: no two filesystems have one label, each has an access policy and exactly one root
  quota with its capacity, and nothing refers to a filesystem that is gone.\<close>

theorem backend_invariant:
  assumes "backendWf (proc_world st)" and "reach nodeEnv (map (serveRpc cs ns) reqs, st) (ts, st')"
  shows "backendWf (proc_world st') \<and>
    (map_of (sw_filesystems (proc_world st')) j = Some f \<longrightarrow>
     map_of (sw_filesystems (proc_world st')) k = Some g \<longrightarrow> fs_Label f = fs_Label g \<longrightarrow> j = k)"
proof -
  have wf: "backendWf (proc_world st')"
    using keepsWorld_reach [OF assms(2) keepsWorld_backend(1)] assms(1) by simp
  with backendWf_label [OF wf] show ?thesis by blast
qed

text \<open>Two creations of one volume at once: both have found no filesystem before either creates it; both
  succeed, and there is one.\<close>

definition createRace :: "(goError option, SanityWorld) config" where
  "createRace = runSchedule nodeEnv ([0,0,0,0,0,0,0,0] @ [1,1,1,1,1,1] @ [0,1,0,1])
     (map (serveRpc sanityServer sanityNodeServer) [RpcCreateVolume createReq, RpcCreateVolume createReq], sanityProc)"

lemma createRace_reach:
  "reach nodeEnv (map (serveRpc sanityServer sanityNodeServer)
     [RpcCreateVolume createReq, RpcCreateVolume createReq], sanityProc) (fst createRace, snd createRace)"
  unfolding prod.collapse createRace_def by (rule runSchedule_reach) (rule HOL.refl)

lemma backendWf_start: "backendWf newFakeSanityLinodeClient"
  by (simp add: backendWf_def sanityGood_def namesMatch_def quotasMatch_def newFakeSanityLinodeClient_def)

lemma createRace_end:
  "map progResult (fst createRace) = [Some None, Some None] \<and>
   map fst (sw_filesystems (proc_world (snd createRace))) = [10000]"
proof -
  have "(case createRace of (ts, st) \<Rightarrow> (map progResult ts, map fst (sw_filesystems (proc_world st)))) =
    ([Some None, Some None], [10000])" by code_simp
  then show ?thesis by (simp add: case_prod_unfold)
qed

theorem backend_invariant_witness:
  "backendWf (proc_world (snd createRace)) \<and> map progResult (fst createRace) = [Some None, Some None] \<and>
   map fst (sw_filesystems (proc_world (snd createRace))) = [10000]"
proof (intro conjI)
  have "backendWf (proc_world sanityProc)" using backendWf_start by (simp add: sanityProc_def)
  from backend_invariant [OF this createRace_reach] show "backendWf (proc_world (snd createRace))" by blast
qed (simp_all add: createRace_end)

end
