(* ===== verification/CreateAvailable.thy ===== *)
theory CreateAvailable
  imports BackendInvariant
begin

text \<open>
  Creation succeeds: on the in-memory backend, in any consistent state, every valid request for a
  name that is not taken gives a volume. So the checks and error paths of \<open>CreateVolume\<close> refuse no
  such request, and the properties that assume its success are about something.
\<close>

declare map_of_eq_Some_iff [simp del]

lemma wf_space:
  assumes "backendWf w"
  shows "requireSpaceLocked w fakeSanitySpaceID = Inr ()" "space_ID (sw_space w) = fakeSanitySpaceID"
    "space_Label (sw_space w) = ''sanity-space''"
  using assms by (simp_all add: backendWf_def sanityGood_def requireSpaceLocked_def)

lemma region_runs:
  assumes "proc_region st = [] \<or> proc_region st = sanityRegion"
  shows "\<exists>st1. run Region sanityEnv st = (Inr sanityRegion, st1) \<and> proc_world st1 = proc_world st"
proof -
  have "regionFromNode (Some sanityNode) = Inr sanityRegion" by code_simp
  then show ?thesis
    using assms by (auto simp: run_Region sanityEnv_def sanityMetadata_def Let_def)
qed

lemma space_runs:
  assumes "backendWf (proc_world st)" and "spaceMatches sanityLabelled params fakeSanitySpaceID"
    and "cs_linodego s = sanityLinodego"
  shows "run (resolveSpace s params) sanityEnv st = (Inr (sw_space (proc_world st)), st)"
proof (cases "par_spaceID params = 0")
  case True
  with assms(2) have l: "par_spaceLabel params = ''sanity-space''"
    by (auto simp: spaceMatches_def sanityLabelled_def split: if_splits)
  from True show ?thesis
    using wf_space [OF assms(1)] sanity_filter1 [of "''sanity-space''"]
    by (simp add: resolveSpace_def run_simps assms(3) sanityLinodego_def listOptionsForExactFields_def l
        sanityEnv_def sanityClient_def san_ListNFSSpaces_def)
next
  case False
  with assms(2) have "par_spaceID params = fakeSanitySpaceID" by (simp add: spaceMatches_def)
  with False show ?thesis
    using wf_space [OF assms(1)]
    by (simp add: resolveSpace_def run_simps sanityEnv_def sanityClient_def san_GetNFSSpace_def)
qed

lemma spacePolicy_runs:
  assumes "backendWf (proc_world st)"
  shows "run (getSpaceAccessPolicy s fakeSanitySpaceID) sanityEnv st = (Inr (sw_spacePolicy (proc_world st)), st)"
  using wf_space [OF assms]
  by (simp add: getSpaceAccessPolicy_def run_simps sanityEnv_def sanityClient_def
      san_GetNFSSpaceAccessPolicy_def)

text \<open>No filesystem has the label.\<close>

definition labelFree :: "string \<Rightarrow> SanityWorld \<Rightarrow> bool" where
  "labelFree label w \<longleftrightarrow> label \<noteq> [] \<and> label \<notin> fs_Label ` snd ` set (sw_filesystems w)"

lemma find_runs:
  assumes "backendWf (proc_world st)" and "labelFree label (proc_world st)"
    and "cs_linodego s = sanityLinodego"
  shows "run (findExistingFilesystem s fakeSanitySpaceID label region) sanityEnv st = (Inr None, st)"
proof -
  have "filter (\<lambda>f. (label = [] \<or> fs_Label f = label) \<and> (region = [] \<or> fs_Region f = region))
      (map snd (sw_filesystems (proc_world st))) = []"
    using assms(2) by (auto simp: labelFree_def filter_empty_conv image_iff)
  then show ?thesis
    using wf_space [OF assms(1)] sanity_filter2 [of label region]
    by (simp add: findExistingFilesystem_def run_simps assms(3) sanityLinodego_def
        listOptionsForExactFields_def sanityEnv_def sanityClient_def san_ListNFSFilesystems_def)
qed

text \<open>The policy of a new filesystem accepts the initial squash policy.\<close>

lemma squash_runs:
  assumes locked: "filesystemLocked (proc_world st) i j = Inr f"
    and p: "pol_LinodeACL (policyAt (proc_world st) j) = []"
      "pol_Protocols (policyAt (proc_world st) j) = Some [NFSProtocolVersionV4]"
    and q: "q \<in> {NFSSquashPolicyNone, NFSSquashPolicyRootSquash, NFSSquashPolicyAllSquash}"
  shows "\<exists>st'. run (setInitialSquashPolicy s i j q) sanityEnv st = (Inr (), st')"
proof -
  let ?p = "cloneSanityFilesystemPolicy (policyAt (proc_world st) j)"
  obtain e ids needed where t: "squashTarget s ?p q = (e, ids, needed)" by (cases "squashTarget s ?p q")
  have ids: "elems ids = []"
    using t p(1) by (auto simp: squashTarget_def filesystemPolicyLinodeIDs_def
        cloneSanityFilesystemPolicy_def Let_def split: if_splits)
  have v: "validateSanityFilesystemPolicy ((filesystemPolicyUpdate ?p e ids)\<lparr>up_SquashPolicy := Some q\<rparr>) = Inr ()"
    using q p(2) ids
    by (simp add: validateSanityFilesystemPolicy_def filesystemPolicyUpdate_def cloneSanityFilesystemPolicy_def)
  have u: "up_LinodeIDs ((filesystemPolicyUpdate ?p e ids)\<lparr>up_SquashPolicy := Some q\<rparr>) = Some ids"
    by (simp add: filesystemPolicyUpdate_def)
  show ?thesis
    by (cases needed)
      (simp_all add: setInitialSquashPolicy_def run_simps sanityEnv_def sanityClient_def t
        san_GetNFSFilesystemAccessPolicy_def san_UpdateNFSFilesystemAccessPolicy_def locked v u ids
        waitForFilesystemAccessPolicyActive_def san_WaitForNFSFilesystemAccessPolicyStatus_def Let_def)
qed

text \<open>Creating and waiting: an active filesystem with a mount target and a fresh policy.\<close>

lemma new_filesystem:
  assumes wf: "backendWf w" and free: "labelFree (cr_Label o') w"
    and o': "cr_Region o' = sanityRegion" "cr_ProtocolVersions o' = Some [NFSProtocolVersionV4]"
  obtains f w1 f' w2 where
    "san_CreateNFSFilesystem fakeSanitySpaceID o' w = (Inr f, w1)"
    "san_WaitForNFSFilesystemStatus waitTimeout (fs_SpaceID f) (fs_ID f) NFSFilesystemStatusActive w1 = (Inr f', w2)"
    "filesystemLocked w2 (fs_SpaceID f') (fs_ID f') = Inr f'"
    "validateFilesystemMountTarget f' = Inr ()"
    "pol_LinodeACL (policyAt w2 (fs_ID f')) = []"
    "pol_Protocols (policyAt w2 (fs_ID f')) = Some [NFSProtocolVersionV4]"
proof -
  let ?n = "sw_nextFilesystemID w"
  let ?f = "deactivateSanityFilesystem (newSanityFilesystem ?n fakeSanitySpaceID o')"
  let ?f' = "activateSanityFilesystem ?f"
  let ?w1 = "snd (san_CreateNFSFilesystem fakeSanitySpaceID o' w)"
  let ?w2 = "?w1\<lparr>sw_filesystems := AList.update ?n ?f' (sw_filesystems ?w1)\<rparr>"
  have f: "fs_ID ?f = ?n" "fs_SpaceID ?f = fakeSanitySpaceID"
    "fs_ID ?f' = ?n" "fs_SpaceID ?f' = fakeSanitySpaceID"
    by (simp_all add: deactivateSanityFilesystem_def newSanityFilesystem_def activateSanityFilesystem_def Let_def)
  have valid: "validateSanityFilesystemCreate o' = Inr ()"
    using free o' by (simp add: validateSanityFilesystemCreate_def labelFree_def)
  have name: "map_of (sw_filesystemByName w) (fakeSanityFilesystemName fakeSanitySpaceID (cr_Label o')) = None"
  proof (rule ccontr)
    assume "\<not> ?thesis"
    then obtain j g where "map_of (sw_filesystems w) j = Some g" "fs_Label g = cr_Label o'"
      using wf by (auto simp: backendWf_def namesMatch_def)
    then have "cr_Label o' \<in> fs_Label ` snd ` set (sw_filesystems w)" by (force dest: map_of_SomeD)
    with free show False by (simp add: labelFree_def)
  qed
  have create: "san_CreateNFSFilesystem fakeSanitySpaceID o' w = (Inr ?f, ?w1)"
    "sw_space ?w1 = sw_space w" "map_of (sw_filesystems ?w1) ?n = Some ?f"
    "policyAt ?w1 ?n = newSanityFilesystemPolicy ?f"
    using wf_space [OF wf] valid name
    by (simp_all add: san_CreateNFSFilesystem_def Let_def createSanityRootQuotaLocked_def f update_conv'
        policyAt_def)
  have locked: "filesystemLocked ?w1 fakeSanitySpaceID ?n = Inr ?f"
    "filesystemLocked ?w2 fakeSanitySpaceID ?n = Inr ?f'"
    using create(2,3) wf_space [OF wf]
    by (simp_all add: filesystemLocked_def requireSpaceLocked_def update_conv')
  have wait: "san_WaitForNFSFilesystemStatus waitTimeout (fs_SpaceID ?f) (fs_ID ?f) NFSFilesystemStatusActive ?w1
      = (Inr ?f', ?w2)"
    using locked(1) by (simp add: san_WaitForNFSFilesystemStatus_def f Let_def)
  have target: "validateFilesystemMountTarget ?f' = Inr ()"
    by (simp add: validateFilesystemMountTarget_def filesystemMountTarget_def activateSanityFilesystem_def Let_def)
  have policy: "policyAt ?w2 ?n = newSanityFilesystemPolicy ?f"
    using create(4) by (simp add: policyAt_def)
  show thesis
    by (rule that [OF create(1) wait _ target]) (simp_all add: f locked policy newSanityFilesystemPolicy_def)
qed

lemma create_runs:
  assumes "backendWf (proc_world st)" and "labelFree label (proc_world st)"
    and "par_region params = sanityRegion"
    and "par_squashPolicySet params \<longrightarrow> par_squashPolicy params
      \<in> {NFSSquashPolicyNone, NFSSquashPolicyRootSquash, NFSSquashPolicyAllSquash}"
  shows "\<exists>vol st'. run (createFilesystem s fakeSanitySpaceID label params sp capacity) sanityEnv st = (Inr vol, st')"
proof -
  let ?o = "createOptions label params capacity"
  have o': "cr_Label ?o = label" "cr_Region ?o = sanityRegion" "cr_ProtocolVersions ?o = Some [NFSProtocolVersionV4]"
    using assms(3) by (simp_all add: createOptions_def)
  from new_filesystem [OF assms(1) _ o'(2,3)] o'(1) assms(2) obtain f w1 f' w2 where
    new: "san_CreateNFSFilesystem fakeSanitySpaceID ?o (proc_world st) = (Inr f, w1)"
      "san_WaitForNFSFilesystemStatus waitTimeout (fs_SpaceID f) (fs_ID f) NFSFilesystemStatusActive w1 = (Inr f', w2)"
    and locked: "filesystemLocked w2 (fs_SpaceID f') (fs_ID f') = Inr f'"
    and target: "validateFilesystemMountTarget f' = Inr ()"
    and policy: "pol_LinodeACL (policyAt w2 (fs_ID f')) = []"
      "pol_Protocols (policyAt w2 (fs_ID f')) = Some [NFSProtocolVersionV4]" by metis
  have "\<exists>vol st'. run (finalizeFilesystemVolume s f' params sp) sanityEnv (st\<lparr>proc_world := w2\<rparr>) = (Inr vol, st')"
  proof (cases "par_squashPolicySet params")
    case True
    with assms(4) squash_runs [of "st\<lparr>proc_world := w2\<rparr>" "fs_SpaceID f'" "fs_ID f'" f' "par_squashPolicy params" s]
      locked policy obtain st' where "run (setInitialSquashPolicy s (fs_SpaceID f') (fs_ID f')
        (par_squashPolicy params)) sanityEnv (st\<lparr>proc_world := w2\<rparr>) = (Inr (), st')" by auto
    with True target show ?thesis by (simp add: finalizeFilesystemVolume_def run_bindE run_Ret)
  next
    case False
    with target show ?thesis by (simp add: finalizeFilesystemVolume_def run_bindE run_Ret)
  qed
  moreover have "run (createFilesystem s fakeSanitySpaceID label params sp capacity) sanityEnv st =
      run (finalizeFilesystemVolume s f' params sp) sanityEnv (st\<lparr>proc_world := w2\<rparr>)"
    using new by (simp add: createFilesystem_def run_bindE run_mapErr run_Do onWorld_def sanityEnv_def sanityClient_def)
  ultimately show ?thesis by simp
qed

text \<open>C13: on the in-memory backend, in any consistent state, a valid create request for the backend's Space
  and a name whose label no filesystem has succeeds, with any squash policy, tags and capacity.\<close>

theorem create_available:
  assumes "backendWf (proc_world st)" and "proc_region st = [] \<or> proc_region st = sanityRegion"
    and "cs_linodego s = sanityLinodego" and "checkCreateRequest req = Inr params"
    and "spaceMatches sanityLabelled params fakeSanitySpaceID"
    and "labelFree (volumeLabel s (cv_Name req)) (proc_world st)"
  shows "\<exists>vol st'. run (CreateVolume s req) sanityEnv st = (Inr vol, st')"
proof -
  let ?params = "params\<lparr>par_region := sanityRegion\<rparr>"
  from region_runs [OF assms(2)] obtain st1 where
    R: "run Region sanityEnv st = (Inr sanityRegion, st1)" "proc_world st1 = proc_world st" by blast
  have wf: "backendWf (proc_world st1)" and free: "labelFree (volumeLabel s (cv_Name req)) (proc_world st1)"
    using assms(1,6) R(2) by simp_all
  have "spaceMatches sanityLabelled ?params fakeSanitySpaceID" using assms(5) by (simp add: spaceMatches_def)
  note sp = space_runs [OF wf this assms(3)]
  have "parseCreateVolumeParameters (cv_Parameters req) = Inr params"
    using assms(4) by (auto simp: checkCreateRequest_def bindR_eq_Inr_iff split: if_splits)
  then have "par_squashPolicySet params \<longrightarrow> par_squashPolicy params
      \<in> {NFSSquashPolicyNone, NFSSquashPolicyRootSquash, NFSSquashPolicyAllSquash}"
    by (auto simp: parseCreateVolumeParameters_Inr validParameters_def Let_def)
  with create_runs [OF wf free, of ?params] obtain vol st' where
    "run (createFilesystem s fakeSanitySpaceID (volumeLabel s (cv_Name req)) ?params
      (sw_spacePolicy (proc_world st1)) (requestedCapacityBytes (cv_CapacityRange req))) sanityEnv st1
      = (Inr vol, st')" by fastforce
  then have "run (CreateVolume s req) sanityEnv st = (Inr vol, st')"
    using R sp spacePolicy_runs [OF wf] find_runs [OF wf free assms(3)] wf_space [OF wf]
    by (simp add: CreateVolume_def assms(4) run_bindE run_mapErr run_Ret Let_def)
  then show ?thesis by blast
qed

text \<open>A second volume beside the first, with a squash policy.\<close>

definition secondReq :: CreateVolumeRequest where
  "secondReq = createReq\<lparr>cv_Name := ''pvc-2'',
     cv_Parameters := [(storageClassParamSpaceLabel, ''sanity-space''), (storageClassParamRootSquash, ''none'')]\<rparr>"

theorem create_available_witness:
  "\<exists>vol st'. run (CreateVolume sanityServer secondReq) sanityEnv createdProc = (Inr vol, st')"
proof -
  have wf: "backendWf (proc_world createdProc)"
    unfolding createdProc_def by (rule keepsWorld_run [OF keepsWorld_backend(2)])
      (use backendWf_start in \<open>simp add: sanityProc_def\<close>)
  have "(case checkCreateRequest secondReq of Inl _ \<Rightarrow> False
      | Inr p \<Rightarrow> par_spaceID p = 0 \<and> par_spaceLabel p = ''sanity-space'')" by code_simp
  then obtain params where params: "checkCreateRequest secondReq = Inr params" "par_spaceID params = 0"
    "par_spaceLabel params = ''sanity-space''" by (auto split: sum.splits)
  then have "spaceMatches sanityLabelled params fakeSanitySpaceID"
    by (simp add: spaceMatches_def sanityLabelled_def)
  moreover have "proc_region createdProc = sanityRegion" by code_simp
  moreover have "labelFree (volumeLabel sanityServer (cv_Name secondReq)) (proc_world createdProc)" by code_simp
  ultimately show ?thesis
    using create_available [OF wf _ _ params(1)] by (simp add: sanityServer_def)
qed

end
