(* ===== verification/Serial.thy ===== *)
theory Serial
  imports Interleaving
begin

text \<open>
  The volume lock serialises. When any number of handlers that take one lock key run concurrently,
  every complete interleaving has the effect of running those that got the lock one after the other,
  in the order in which they got it, and with the same results; the others have returned Aborted
  without an effect. What is proved of a handler that runs alone therefore holds of concurrent ones.
\<close>

subsection \<open>Running programs one after the other\<close>

primrec serial :: "'w env \<Rightarrow> 'a prog list \<Rightarrow> 'w proc \<Rightarrow> 'a list \<times> 'w proc" where
  "serial v [] st = ([], st)"
| "serial v (p # ps) st =
     (case run p v st of (r, st1) \<Rightarrow> (case serial v ps st1 of (rs, st2) \<Rightarrow> (r # rs, st2)))"

lemma serial_snoc:
  "serial v (ps @ [p]) st =
     (case serial v ps st of (rs, st1) \<Rightarrow> (case run p v st1 of (r, st2) \<Rightarrow> (rs @ [r], st2)))"
  by (induction ps arbitrary: st) (simp_all split: prod.split)

lemma serial_length: "serial v ps st = (rs, st') \<Longrightarrow> length rs = length ps"
  by (induction ps arbitrary: st rs) (auto split: prod.splits)

subsection \<open>Handlers that share a key\<close>

abbreviation volumeBusy :: "string \<Rightarrow> goError" where
  "volumeBusy key \<equiv> StatusError Aborted VolumeOperationAlreadyExistsFmt [AStr key]"

text \<open>The handlers of \<open>xs\<close> are done, in this order, with the results \<open>rs\<close>; the others but the one
  that holds the lock have not started, or gave up.\<close>

definition doneInOrder ::
    "string \<Rightarrow> (goError + 'a) prog list \<Rightarrow> nat list \<Rightarrow> (goError + 'a) list \<Rightarrow> nat set
       \<Rightarrow> (goError + 'a) prog list \<Rightarrow> bool" where
  "doneInOrder key ps xs rs own ts \<longleftrightarrow>
     length ts = length ps \<and> distinct xs \<and> set xs \<subseteq> {..< length ps} - own \<and>
     length rs = length xs \<and> (\<forall>m < length xs. ts ! (xs ! m) = Ret (rs ! m)) \<and>
     (\<forall>i < length ps. i \<notin> set xs \<union> own \<longrightarrow> ts ! i = ps ! i \<or> ts ! i = Ret (Inl (volumeBusy key)))"

definition serialFree ::
    "'w env \<Rightarrow> string \<Rightarrow> (goError + 'a) prog list \<Rightarrow> 'w proc \<Rightarrow> (goError + 'a, 'w) config \<Rightarrow> bool" where
  "serialFree v key ps st0 c \<longleftrightarrow> (case c of (ts, st) \<Rightarrow>
     key \<notin> vl_locks (proc_locks st) \<and>
     (\<exists>xs rs. doneInOrder key ps xs rs {} ts \<and> serial v (map ((!) ps) xs) st0 = (rs, st)))"

text \<open>Handler \<open>i\<close> holds the lock: going on alone it ends as if it had started when it got the lock.\<close>

definition serialHeld ::
    "'w env \<Rightarrow> string \<Rightarrow> (goError + 'a) prog list \<Rightarrow> 'w proc \<Rightarrow> nat \<Rightarrow> (goError + 'a, 'w) config \<Rightarrow> bool" where
  "serialHeld v key ps st0 i c \<longleftrightarrow> (case c of (ts, st) \<Rightarrow>
     key \<in> vl_locks (proc_locks st) \<and> i < length ps \<and> holding key (ts ! i) \<and>
     (\<exists>xs rs st1. doneInOrder key ps xs rs {i} ts \<and> serial v (map ((!) ps) xs) st0 = (rs, st1) \<and>
        run (ts ! i) v st = run (ps ! i) v st1))"

definition serialInv ::
    "'w env \<Rightarrow> string \<Rightarrow> (goError + 'a) prog list \<Rightarrow> 'w proc \<Rightarrow> (goError + 'a, 'w) config \<Rightarrow> bool" where
  "serialInv v key ps st0 c \<longleftrightarrow> serialFree v key ps st0 c \<or> (\<exists>i. serialHeld v key ps st0 i c)"

text \<open>What the first call of a waiting handler does.\<close>

lemma acquire_step:
  assumes "waiting key (Do e)" and "step v e st = (p, st')"
  shows "if key \<in> vl_locks (proc_locks st) then p = Ret (Inl (volumeBusy key)) \<and> st' = st
    else holding key p \<and> key \<in> vl_locks (proc_locks st')"
  using assms
  by (auto simp: waiting_def withVolumeLock_Do TryAcquire_def holding_def split: if_splits)

lemma release_step:
  assumes "holding key (Do e)" and "step v e st = (p, st')"
  shows "(holding key p \<and> proc_locks st' = proc_locks st) \<or>
    ((\<exists>r. p = Ret r) \<and> key \<notin> vl_locks (proc_locks st'))"
  using step_holding [OF assms] by (auto simp: finished_def)

lemma run_call: "step v e st = (p, st') \<Longrightarrow> run (Do e) v st = run p v st'"
  by (simp add: run_Do)

lemma doneInOrder_give_up:
  "doneInOrder key ps xs rs own ts \<Longrightarrow> i \<notin> set xs \<union> own \<Longrightarrow> i < length ps \<Longrightarrow>
     doneInOrder key ps xs rs own (ts[i := Ret (Inl (volumeBusy key))])"
  by (auto simp: doneInOrder_def nth_list_update)

lemma doneInOrder_own:
  "doneInOrder key ps xs rs own ts \<Longrightarrow> i \<notin> set xs \<Longrightarrow> i < length ps \<Longrightarrow>
     doneInOrder key ps xs rs (insert i own) (ts[i := p])"
  by (auto simp: doneInOrder_def nth_list_update)

lemma doneInOrder_finish:
  assumes "doneInOrder key ps xs rs {i} ts" and "i < length ps"
  shows "doneInOrder key ps (xs @ [i]) (rs @ [r]) {} (ts[i := Ret r])"
proof -
  have i: "i < length ts" "\<And>m. m < length xs \<Longrightarrow> xs ! m \<noteq> i"
    using assms by (auto simp: doneInOrder_def dest!: nth_mem)
  have "ts[i := Ret r] ! ((xs @ [i]) ! m) = Ret ((rs @ [r]) ! m)" if "m < length (xs @ [i])" for m
  proof (cases "m = length xs")
    case True
    then show ?thesis using assms(1) i(1) by (simp add: doneInOrder_def nth_append)
  next
    case False
    with that have m: "m < length xs" by simp
    from i(2) [OF m] have "ts[i := Ret r] ! (xs ! m) = ts ! (xs ! m)" by (intro nth_list_update_neq) simp
    with m assms(1) show ?thesis by (simp add: doneInOrder_def nth_append)
  qed
  then show ?thesis using assms by (auto simp: doneInOrder_def nth_list_update)
qed

lemma serialInv_step:
  assumes "cstep v c c'" and inv: "serialInv v key ps st0 c"
    and ps: "\<And>p. p \<in> set ps \<Longrightarrow> waiting key p \<or> finished p"
  shows "serialInv v key ps st0 c'"
  using assms(1)
proof cases
  case (perform j ts e st p st')
  have wait: "waiting key (Do e) \<and> ts ! j = ps ! j \<and> j \<notin> set xs \<and> j < length ps"
    if d: "doneInOrder key ps xs rs own ts" and j: "j \<notin> own" for xs rs own
  proof -
    have lt: "j < length ps" using d perform(3) by (simp add: doneInOrder_def)
    have fresh: "j \<notin> set xs"
    proof
      assume "j \<in> set xs"
      then obtain m where "m < length xs" "xs ! m = j" by (auto simp: in_set_conv_nth)
      with d perform(4) show False by (auto simp: doneInOrder_def)
    qed
    with d j lt perform(4) have eq: "ts ! j = ps ! j" by (auto simp: doneInOrder_def)
    with ps [of "ps ! j"] lt perform(4) show ?thesis using fresh by (auto simp: finished_def)
  qed
  from inv consider (free) "serialFree v key ps st0 c" | (held) i where "serialHeld v key ps st0 i c"
    by (auto simp: serialInv_def)
  then show ?thesis
  proof cases
    case free
    then obtain xs rs where d: "doneInOrder key ps xs rs {} ts" and key: "key \<notin> vl_locks (proc_locks st)"
      and ser: "serial v (map ((!) ps) xs) st0 = (rs, st)"
      by (auto simp: serialFree_def perform(1))
    note w = wait [OF d, simplified]
    from acquire_step [OF _ perform(6)] w key have hold: "holding key p" "key \<in> vl_locks (proc_locks st')"
      by auto
    have "run p v st' = run (ps ! j) v st"
      using run_call [OF perform(6)] w perform(4) by simp
    with hold ser doneInOrder_own [OF d, of j p] w perform(3)
    have "serialHeld v key ps st0 j (ts[j := p], st')" by (fastforce simp: serialHeld_def)
    then show ?thesis unfolding perform(2) serialInv_def by blast
  next
    case (held i)
    then obtain xs rs st1 where d: "doneInOrder key ps xs rs {i} ts" and key: "key \<in> vl_locks (proc_locks st)"
      and i: "i < length ps" and hold: "holding key (ts ! i)"
      and ser: "serial v (map ((!) ps) xs) st0 = (rs, st1)" "run (ts ! i) v st = run (ps ! i) v st1"
      by (auto simp: serialHeld_def perform(1))
    show ?thesis
    proof (cases "j = i")
      case False
      with wait [OF d] have w: "waiting key (Do e)" "j \<notin> set xs" "j < length ps" by auto
      from acquire_step [OF w(1) perform(6)] key have "p = Ret (Inl (volumeBusy key))" "st' = st" by auto
      with doneInOrder_give_up [OF d, of j] w(2,3) False key i hold ser
      have "serialHeld v key ps st0 i (ts[j := p], st')" by (auto simp: serialHeld_def)
      then show ?thesis unfolding perform(2) serialInv_def by blast
    next
      case True
      with perform(4) run_call [OF perform(6)] ser have go: "run p v st' = run (ps ! i) v st1" by simp
      from release_step [OF _ perform(6)] hold True perform(4) consider
          (inside) "holding key p" "proc_locks st' = proc_locks st"
        | (out) r where "p = Ret r" "key \<notin> vl_locks (proc_locks st')" by auto
      then show ?thesis
      proof cases
        case inside
        have "i \<notin> set xs" using d by (auto simp: doneInOrder_def)
        with doneInOrder_own [OF d, of i p] i inside key go ser(1) perform(3) True
        have "serialHeld v key ps st0 i (ts[j := p], st')" by (auto simp: serialHeld_def)
        then show ?thesis unfolding perform(2) serialInv_def by blast
      next
        case (out r)
        with go ser(1) have "serial v (map ((!) ps) (xs @ [i])) st0 = (rs @ [r], st')"
          by (simp add: serial_snoc split: prod.splits) (metis prod.inject)
        with doneInOrder_finish [OF d i, of r] out True
        have "serialFree v key ps st0 (ts[j := p], st')"
          unfolding serialFree_def prod.case by blast
        then show ?thesis unfolding perform(2) serialInv_def by blast
      qed
    qed
  qed
qed

lemma serialInv_reach:
  "reach v c c' \<Longrightarrow> (\<And>p. p \<in> set ps \<Longrightarrow> waiting key p \<or> finished p) \<Longrightarrow> serialInv v key ps st0 c \<Longrightarrow>
     serialInv v key ps st0 c'"
  by (induction rule: reach.induct) (auto intro: serialInv_step)

lemma reach_length: "reach v c c' \<Longrightarrow> length (fst c') = length (fst c)"
  by (induction rule: reach.induct) (auto elim: cstep.cases)

lemma serializable:
  assumes "\<And>p. p \<in> set ps \<Longrightarrow> waiting key p \<or> finished p" and "key \<notin> vl_locks (proc_locks st)"
    and "reach v (ps, st) (ts, st')" and fin: "\<forall>t \<in> set ts. finished t"
  obtains xs rs where "doneInOrder key ps xs rs {} ts" "serial v (map ((!) ps) xs) st = (rs, st')"
proof -
  have "doneInOrder key ps [] [] {} ps" by (simp add: doneInOrder_def)
  with assms(2) have "serialFree v key ps st (ps, st)" by (fastforce simp: serialFree_def)
  with serialInv_reach [OF assms(3,1)] have inv: "serialInv v key ps st (ts, st')"
    by (auto simp: serialInv_def)
  have "\<not> serialHeld v key ps st i (ts, st')" for i
  proof
    assume h: "serialHeld v key ps st i (ts, st')"
    then have "i < length ts" "holding key (ts ! i)" by (auto simp: serialHeld_def doneInOrder_def)
    with fin holding_not_finished show False by (meson nth_mem)
  qed
  with inv that show thesis by (auto simp: serialInv_def serialFree_def)
qed

text \<open>The same for handlers of a list of requests.\<close>

lemma serial_order:
  assumes form: "\<And>r. r \<in> set reqs \<Longrightarrow> waiting key (h r) \<or> finished (h r)"
    and "key \<notin> vl_locks (proc_locks st)"
    and "reach v (map h reqs, st) (ts, st')" and "\<forall>t \<in> set ts. finished t"
  shows "\<exists>xs rs. distinct xs \<and> set xs \<subseteq> {..< length reqs} \<and>
    serial v (map (\<lambda>i. h (reqs ! i)) xs) st = (rs, st') \<and> map ((!) ts) xs = map Ret rs \<and>
    (\<forall>i \<in> {..< length reqs} - set xs. ts ! i = Ret (Inl (volumeBusy key)) \<or> ts ! i = h (reqs ! i))"
proof -
  let ?ps = "map h reqs"
  have "waiting key p \<or> finished p" if "p \<in> set ?ps" for p using that form by auto
  from serializable [OF this assms(2-4)] obtain xs rs where
    d: "doneInOrder key ?ps xs rs {} ts" and ser: "serial v (map ((!) ?ps) xs) st = (rs, st')" by blast
  from d have xs: "set xs \<subseteq> {..< length reqs}" by (simp add: doneInOrder_def)
  then have eq: "map ((!) ?ps) xs = map (\<lambda>i. h (reqs ! i)) xs" by auto
  have "map ((!) ts) xs = map Ret rs"
    using d by (auto simp: doneInOrder_def intro!: nth_equalityI)
  moreover have "ts ! i = Ret (Inl (volumeBusy key)) \<or> ts ! i = h (reqs ! i)"
    if "i \<in> {..< length reqs} - set xs" for i
    using d that by (auto simp: doneInOrder_def)
  ultimately show ?thesis using d ser xs unfolding eq by (auto simp: doneInOrder_def)
qed

subsection \<open>Publishing and unpublishing\<close>

datatype accessRequest =
    PublishRequest ControllerPublishVolumeRequest
  | UnpublishRequest ControllerUnpublishVolumeRequest

primrec accessVolume :: "accessRequest \<Rightarrow> string" where
  "accessVolume (PublishRequest r) = pv_VolumeId r"
| "accessVolume (UnpublishRequest r) = uv_VolumeId r"

primrec accessHandler :: "ControllerServer \<Rightarrow> accessRequest \<Rightarrow> (goError + unit) prog" where
  "accessHandler s (PublishRequest r) = ControllerPublishVolume s r"
| "accessHandler s (UnpublishRequest r) = ControllerUnpublishVolume s r"

lemma accessHandler_form:
  "waiting (accessVolume a) (accessHandler s a) \<or> finished (accessHandler s a)"
  by (cases a)
    (auto simp: ControllerPublishVolume_def ControllerUnpublishVolume_def finished_def bindE_def
      intro!: waitingI split: sum.split)

lemma serialized_access:
  assumes "\<forall>a \<in> set reqs. accessVolume a = volumeID" and "volumeID \<notin> vl_locks (proc_locks st)"
    and "reach v (map (accessHandler s) reqs, st) (ts, st')" and "\<forall>t \<in> set ts. finished t"
  shows "\<exists>xs rs. distinct xs \<and> set xs \<subseteq> {..< length reqs} \<and>
    serial v (map (\<lambda>i. accessHandler s (reqs ! i)) xs) st = (rs, st') \<and>
    map ((!) ts) xs = map Ret rs \<and>
    (\<forall>i \<in> {..< length reqs} - set xs.
       ts ! i = Ret (Inl (volumeBusy volumeID)) \<or> ts ! i = accessHandler s (reqs ! i))"
proof (rule serial_order [OF _ assms(2-4)])
  fix a assume "a \<in> set reqs"
  with assms(1) accessHandler_form [of a s]
  show "waiting volumeID (accessHandler s a) \<or> finished (accessHandler s a)" by auto
qed

text \<open>A publish and an unpublish at once: the unpublish finds the volume locked.\<close>

definition accessRequests :: "accessRequest list" where
  "accessRequests = [PublishRequest publishReq, UnpublishRequest unpublishReq]"

definition accessEnd :: "(goError + unit, SanityWorld) config" where
  "accessEnd = runSchedule sanityEnv [0, 0, 1, 0, 0, 0] (map (accessHandler sanityServer) accessRequests, createdProc)"

lemma accessEnd_results: "map progResult (fst accessEnd) =
    [Some (Inr ()), Some (Inl (volumeBusy ''1/10000''))]"
  by code_simp

lemma accessEnd_finished: "fst accessEnd = [Ret (Inr ()), Ret (Inl (volumeBusy ''1/10000''))]"
  using accessEnd_results by (auto simp: map_eq_Cons_conv progResult_Some)

lemma accessEnd_reach:
  "reach sanityEnv (map (accessHandler sanityServer) accessRequests, createdProc) (fst accessEnd, snd accessEnd)"
  unfolding prod.collapse accessEnd_def by (rule runSchedule_reach) (rule HOL.refl)

end
