(* ===== verification/PublishRace.thy ===== *)
theory PublishRace
  imports Interleaving
begin

text \<open>
  Concurrent publishes of one volume. Each handler reads the access policy, adds its node and writes
  the whole ACL back; the volume lock makes this read-modify-write safe. Whatever the interleaving,
  no node that a handler reported as published is lost to another handler's write.
\<close>

subsection \<open>The handler, call by call\<close>

definition publishIDs :: "NFSFilesystemAccessPolicy \<Rightarrow> int \<Rightarrow> int slice" where
  "publishIDs p n =
     (if n \<in> set (elems (filesystemPolicyLinodeIDs p)) then filesystemPolicyLinodeIDs p
      else slice_append (filesystemPolicyLinodeIDs p) n)"

definition publishWrite :: "ControllerServer \<Rightarrow> volumeHandle \<Rightarrow> NFSFilesystemAccessPolicy \<Rightarrow> int \<Rightarrow> (goError + unit) prog" where
  "publishWrite s h p n = updatePolicyAndWait s h (filesystemPolicyUpdate p True (publishIDs p n))"

definition publishAfterGet :: "ControllerServer \<Rightarrow> volumeHandle \<Rightarrow> int \<Rightarrow> goError + NFSFilesystemAccessPolicy \<Rightarrow> (goError + unit) prog" where
  "publishAfterGet s h n r =
     (case r of
        Inl err \<Rightarrow>
          if statusCode err = InvalidArgument then failE err
          else failE (linodeError (cs_linodego s) err ''get NFS filesystem access policy'')
      | Inr p \<Rightarrow>
          if n \<in> set (elems (filesystemPolicyLinodeIDs p)) \<and> pol_Enabled p then okE ()
          else publishWrite s h p n)"

lemma publishLocked_Do:
  assumes "parseVolumeHandleAndNodeID (pv_VolumeId req) (pv_NodeId req) = Inr (h, n)"
  shows "publishLocked s req =
    Do (GetNFSFilesystemAccessPolicy (vh_spaceID h) (vh_filesystemID h) (publishAfterGet s h n))"
  using assms
  by (auto simp: publishLocked_def getFilesystemPolicyForVolumeAndNode_def publishAfterGet_def
      publishWrite_def publishIDs_def bindE_def Let_def fun_eq_iff split: sum.split)

definition afterUpdate :: "ControllerServer \<Rightarrow> volumeHandle \<Rightarrow> goError + 'p \<Rightarrow> (goError + unit) prog" where
  "afterUpdate s h r =
     (case r of
        Inl err \<Rightarrow> failE (linodeError (cs_linodego s) err ''update NFS filesystem access policy'')
      | Inr q \<Rightarrow> waitForFilesystemAccessPolicyActive s (vh_spaceID h) (vh_filesystemID h))"

lemma updatePolicyAndWait_Do:
  "updatePolicyAndWait s h o' =
     Do (UpdateNFSFilesystemAccessPolicy (vh_spaceID h) (vh_filesystemID h) o' (afterUpdate s h))"
  by (auto simp: updatePolicyAndWait_def bindE_def mapErr_def afterUpdate_def fun_eq_iff
      split: sum.split)

definition afterWait :: "ControllerServer \<Rightarrow> goError + 'p \<Rightarrow> (goError + unit) prog" where
  "afterWait s r =
     (case r of
        Inl err \<Rightarrow> failE (linodeWaitError (cs_linodego s) err ''wait for NFS filesystem access policy active'')
      | Inr q \<Rightarrow> okE ())"

lemma waitPolicy_Do:
  "waitForFilesystemAccessPolicyActive s i j =
     Do (WaitForNFSFilesystemAccessPolicyStatus waitTimeout i j NFSAccessPolicyStatusActive (afterWait s))"
  by (auto simp: waitForFilesystemAccessPolicyActive_def bindE_def mapErr_def afterWait_def fun_eq_iff
      split: sum.split)

subsection \<open>Phases\<close>

type_synonym policies = "int \<times> int \<Rightarrow> NFSFilesystemAccessPolicy option"

text \<open>The node is admitted by an enabled policy.\<close>

definition admitted :: "policies \<Rightarrow> volumeHandle \<Rightarrow> int \<Rightarrow> bool" where
  "admitted m h n \<longleftrightarrow>
     (\<exists>p. m (handleKey h) = Some p \<and> pol_Enabled p \<and> n \<in> set (pol_LinodeACL p))"

text \<open>A change of the volume's policy that keeps it enabled and keeps every node, and touches no
  other policy.\<close>

definition grows :: "volumeHandle \<Rightarrow> policies \<Rightarrow> policies \<Rightarrow> bool" where
  "grows h m m' \<longleftrightarrow>
     (\<forall>k. k \<noteq> handleKey h \<longrightarrow> m' k = m k) \<and>
     (case m (handleKey h) of
        None \<Rightarrow> m' (handleKey h) = None
      | Some p \<Rightarrow> \<exists>p'. m' (handleKey h) = Some p' \<and>
          (pol_Enabled p \<longrightarrow> pol_Enabled p') \<and> aclNodes p \<subseteq> aclNodes p')"

lemma grows_refl [simp]: "grows h m m"
  by (auto simp: grows_def split: option.split)

lemma grows_trans: "grows h m1 m2 \<Longrightarrow> grows h m2 m3 \<Longrightarrow> grows h m1 m3"
  by (fastforce simp: grows_def split: option.splits)

lemma grows_admitted: "grows h m m' \<Longrightarrow> n \<noteq> 0 \<Longrightarrow> admitted m h n \<Longrightarrow> admitted m' h n"
  by (fastforce simp: grows_def admitted_def aclNodes_def split: option.splits)

text \<open>Where a publishing handler is, and what it knows about the policies at that point.\<close>

definition publishPhase ::
    "ControllerServer \<Rightarrow> volumeHandle \<Rightarrow> policies \<Rightarrow> ControllerPublishVolumeRequest \<Rightarrow> int
       \<Rightarrow> (goError + unit) prog \<Rightarrow> bool" where
  "publishPhase s h m req n t \<longleftrightarrow>
     t = withVolumeLock (pv_VolumeId req) (publishLocked s req) \<or>
     t = bindP (publishLocked s req) (releaseThen (pv_VolumeId req)) \<or>
     (\<exists>p. m (handleKey h) = Some p \<and> t = bindP (publishWrite s h p n) (releaseThen (pv_VolumeId req))) \<or>
     (admitted m h n \<and> t = bindP (waitForFilesystemAccessPolicyActive s (vh_spaceID h) (vh_filesystemID h))
        (releaseThen (pv_VolumeId req))) \<or>
     (\<exists>r. (r = Inr () \<longrightarrow> admitted m h n) \<and> t = releaseThen (pv_VolumeId req) r) \<or>
     (\<exists>r. (r = Inr () \<longrightarrow> admitted m h n) \<and> t = Ret r)"

lemma holdingI: "lockFree q \<Longrightarrow> holding key (bindP q (releaseThen key))"
  by (auto simp: holding_def)

lemma phase_outside:
  assumes "publishPhase s h m req n t" and "\<not> holding (pv_VolumeId req) t"
  shows "t = withVolumeLock (pv_VolumeId req) (publishLocked s req) \<or>
    (\<exists>r. (r = Inr () \<longrightarrow> admitted m h n) \<and> t = Ret r)"
proof -
  have "lockFree (publishWrite s h p n)" for p by (simp add: publishWrite_def)
  then show ?thesis
    using assms(2) assms(1)
    unfolding publishPhase_def
    by (metis holdingI lockFree.simps(1) lockFree_publishLocked lockFree_waitPolicy bindP.simps(1))
qed

lemma phase_stable:
  assumes "publishPhase s h m req n t" and "\<not> holding (pv_VolumeId req) t" and "grows h m m'" and "n \<noteq> 0"
  shows "publishPhase s h m' req n t"
  using phase_outside [OF assms(1,2)] grows_admitted [OF assms(3,4)]
  by (auto simp: publishPhase_def)

text \<open>The contract also for calls that fail: a failed update was not applied, or it was and the answer
  got lost; a failed wait changes the status of the policy at most.\<close>

locale policy_store_errors = policy_store c pol
  for c :: "'w LinodeClient" and pol :: "'w \<Rightarrow> (int \<times> int) \<Rightarrow> NFSFilesystemAccessPolicy option" +
  assumes update_err:
      "lc_UpdateNFSFilesystemAccessPolicy c i j o' w = (Inl e, w') \<Longrightarrow>
         pol w' = pol w \<or> (\<exists>p status. pol w (i, j) = Some p \<and>
           pol w' = (pol w)((i, j) \<mapsto> (applyPolicyUpdate o' p)\<lparr>pol_Status := status\<rparr>))"
    and wait_err:
      "lc_WaitForNFSFilesystemAccessPolicyStatus c t i j status w = (Inl e, w') \<Longrightarrow>
         pol w' = pol w \<or> (\<exists>p status'. pol w (i, j) = Some p \<and>
           pol w' = (pol w)((i, j) \<mapsto> p\<lparr>pol_Status := status'\<rparr>))"

lemma elems_publishIDs:
  "n \<noteq> 0 \<Longrightarrow> set (elems (publishIDs p n)) = aclNodes p \<union> {n}"
  by (auto simp: publishIDs_def aclNodes_def)

text \<open>Writing the ACL that was computed from the current policy.\<close>

lemma grows_write:
  assumes "m (handleKey h) = Some p" and "n \<noteq> 0"
    and "m' = m(handleKey h \<mapsto> (applyPolicyUpdate (filesystemPolicyUpdate p True (publishIDs p n)) p)
            \<lparr>pol_Status := status\<rparr>)"
  shows "grows h m m' \<and> admitted m' h n"
  using assms elems_publishIDs [OF assms(2), of p]
  by (auto simp: grows_def admitted_def aclNodes_def)

lemma grows_status:
  assumes "m (handleKey h) = Some p" and "m' = m(handleKey h \<mapsto> p\<lparr>pol_Status := status\<rparr>)"
  shows "grows h m m' \<and> (admitted m h n \<longrightarrow> admitted m' h n)"
  using assms by (auto simp: grows_def admitted_def aclNodes_def)

context policy_store_errors
begin

lemma after_get:
  assumes "lc_GetNFSFilesystemAccessPolicy c (vh_spaceID h) (vh_filesystemID h) w = (r, w')"
    and "key = pv_VolumeId req"
  shows "pol w' = pol w \<and>
    publishPhase s h (pol w') req n (bindP (publishAfterGet s h n r) (releaseThen key))"
proof (cases r)
  case (Inl e)
  with assms get_err show ?thesis
    by (auto simp: publishAfterGet_def publishPhase_def split: if_splits)
next
  case (Inr p)
  with assms(1) get_ok have p: "pol w' = pol w" "pol w (handleKey h) = Some p"
    by (auto simp: handleKey_def)
  show ?thesis
  proof (cases "n \<in> set (elems (filesystemPolicyLinodeIDs p)) \<and> pol_Enabled p")
    case True
    with p have "admitted (pol w') h n" by (auto simp: admitted_def)
    with True Inr p assms(2) show ?thesis
      by (auto simp: publishAfterGet_def publishPhase_def)
  next
    case False
    with Inr p assms(2) show ?thesis
      by (auto simp: publishAfterGet_def publishPhase_def)
  qed
qed

lemma after_update:
  assumes "lc_UpdateNFSFilesystemAccessPolicy c (vh_spaceID h) (vh_filesystemID h)
      (filesystemPolicyUpdate p True (publishIDs p n)) w = (r, w')"
    and "pol w (handleKey h) = Some p" and "n \<noteq> 0" and "key = pv_VolumeId req"
  shows "grows h (pol w) (pol w') \<and>
    publishPhase s h (pol w') req n (bindP (afterUpdate s h r) (releaseThen key))"
proof (cases r)
  case (Inl e)
  from update_err [OF assms(1) [unfolded Inl]] have "grows h (pol w) (pol w')"
    using grows_write [where m = "pol w" and m' = "pol w'", OF assms(2,3)] assms(2)
    by (metis grows_refl handleKey_def option.inject)
  with Inl assms(4) show ?thesis by (auto simp: afterUpdate_def publishPhase_def)
next
  case (Inr q)
  from update_ok [OF assms(1) [unfolded Inr]] have "grows h (pol w) (pol w') \<and> admitted (pol w') h n"
    using grows_write [where m = "pol w" and m' = "pol w'", OF assms(2,3)] assms(2) by (metis handleKey_def option.inject)
  with Inr assms(4) show ?thesis by (auto simp: afterUpdate_def publishPhase_def)
qed

lemma after_wait:
  assumes "lc_WaitForNFSFilesystemAccessPolicyStatus c waitTimeout (vh_spaceID h) (vh_filesystemID h)
      NFSAccessPolicyStatusActive w = (r, w')"
    and "admitted (pol w) h n" and "key = pv_VolumeId req"
  shows "grows h (pol w) (pol w') \<and>
    publishPhase s h (pol w') req n (bindP (afterWait s r) (releaseThen key))"
proof -
  have "grows h (pol w) (pol w') \<and> admitted (pol w') h n"
  proof (cases r)
    case (Inl e)
    from wait_err [OF assms(1) [unfolded Inl]] show ?thesis
      using grows_status [where m = "pol w" and m' = "pol w'" and h = h and n = n] assms(2) by (metis grows_refl handleKey_def)
  next
    case (Inr q)
    from wait_ok [OF assms(1) [unfolded Inr]] show ?thesis
      using grows_status [where m = "pol w" and m' = "pol w'" and h = h and n = n] assms(2) by (metis handleKey_def)
  qed
  with assms(3) show ?thesis
    by (cases r) (auto simp: afterWait_def publishPhase_def)
qed

text \<open>One call of a publishing handler.\<close>

lemma phase_step:
  assumes ph: "publishPhase s h (pol (proc_world st)) req n (Do e)" and st: "step v e st = (t, st')"
    and c: "env_client v = c" and n: "n \<noteq> 0"
    and hn: "parseVolumeHandleAndNodeID (pv_VolumeId req) (pv_NodeId req) = Inr (h, n)"
  shows "publishPhase s h (pol (proc_world st')) req n t \<and>
    grows h (pol (proc_world st)) (pol (proc_world st')) \<and>
    (holding (pv_VolumeId req) (Do e) \<or> proc_world st' = proc_world st)"
proof -
  let ?key = "pv_VolumeId req"
  from ph consider
      (W) "Do e = withVolumeLock ?key (publishLocked s req)"
    | (G) "Do e = bindP (publishLocked s req) (releaseThen ?key)"
    | (U) p where "pol (proc_world st) (handleKey h) = Some p"
        "Do e = bindP (publishWrite s h p n) (releaseThen ?key)"
    | (A) "admitted (pol (proc_world st)) h n"
        "Do e = bindP (waitForFilesystemAccessPolicyActive s (vh_spaceID h) (vh_filesystemID h)) (releaseThen ?key)"
    | (R) r where "r = Inr () \<longrightarrow> admitted (pol (proc_world st)) h n" "Do e = releaseThen ?key r"
    unfolding publishPhase_def by blast
  then show ?thesis
  proof cases
    case W
    then have "e = LocksTryAcquire ?key (\<lambda>acquired.
       if \<not> acquired then failE (StatusError Aborted VolumeOperationAlreadyExistsFmt [AStr ?key])
       else bindP (publishLocked s req) (releaseThen ?key))" by (simp add: withVolumeLock_Do)
    with st show ?thesis by (auto simp: publishPhase_def split: prod.splits if_splits)
  next
    case G
    then have e: "e = GetNFSFilesystemAccessPolicy (vh_spaceID h) (vh_filesystemID h)
        (\<lambda>r. bindP (publishAfterGet s h n r) (releaseThen ?key))"
      by (simp add: publishLocked_Do [OF hn] comp_def)
    have "holding ?key (Do e)" unfolding G by (simp add: holdingI)
    with e st after_get c show ?thesis by (fastforce simp: onWorld_def split: prod.splits)
  next
    case (U p)
    then have e: "e = UpdateNFSFilesystemAccessPolicy (vh_spaceID h) (vh_filesystemID h)
        (filesystemPolicyUpdate p True (publishIDs p n)) (\<lambda>r. bindP (afterUpdate s h r) (releaseThen ?key))"
      by (simp add: publishWrite_def updatePolicyAndWait_Do comp_def)
    have "holding ?key (Do e)" unfolding U(2) by (simp add: holdingI publishWrite_def)
    with e st after_update U(1) n c show ?thesis by (fastforce simp: onWorld_def split: prod.splits)
  next
    case A
    then have e: "e = WaitForNFSFilesystemAccessPolicyStatus waitTimeout (vh_spaceID h) (vh_filesystemID h)
        NFSAccessPolicyStatusActive (\<lambda>r. bindP (afterWait s r) (releaseThen ?key))"
      by (simp add: waitPolicy_Do comp_def)
    have "holding ?key (Do e)" unfolding A(2) by (simp add: holdingI)
    with e st after_wait A(1) c show ?thesis by (fastforce simp: onWorld_def split: prod.splits)
  next
    case (R r)
    then have "e = LocksRelease ?key (\<lambda>_. Ret r)" by (simp add: releaseThen_Do)
    with st R(1) show ?thesis by (auto simp: publishPhase_def)
  qed
qed

end

subsection \<open>All handlers together\<close>

text \<open>The requests name one volume in the same way, each a Linode.\<close>

definition sameVolume ::
    "volumeHandle \<Rightarrow> string \<Rightarrow> ControllerPublishVolumeRequest list \<Rightarrow> int list \<Rightarrow> bool" where
  "sameVolume h volumeID reqs ns \<longleftrightarrow>
     length ns = length reqs \<and>
     (\<forall>i < length reqs. pv_VolumeId (reqs ! i) = volumeID \<and> ns ! i \<noteq> 0 \<and>
        parseVolumeHandleAndNodeID volumeID (pv_NodeId (reqs ! i)) = Inr (h, ns ! i))"

definition raceInv ::
    "ControllerServer \<Rightarrow> ('w \<Rightarrow> policies) \<Rightarrow> volumeHandle \<Rightarrow> string \<Rightarrow> ControllerPublishVolumeRequest list
       \<Rightarrow> int list \<Rightarrow> 'w proc \<Rightarrow> (goError + unit, 'w) config \<Rightarrow> bool" where
  "raceInv s pol h volumeID reqs ns st0 c \<longleftrightarrow>
     lockInv (vl_locks (proc_locks st0)) (replicate (length reqs) volumeID) c \<and>
     (case c of (ts, st) \<Rightarrow>
        grows h (pol (proc_world st0)) (pol (proc_world st)) \<and>
        (\<forall>i < length reqs. publishPhase s h (pol (proc_world st)) (reqs ! i) (ns ! i) (ts ! i)))"

lemma raceInv_start:
  assumes "sameVolume h volumeID reqs ns"
  shows "raceInv s pol h volumeID reqs ns st (map (ControllerPublishVolume s) reqs, st)"
proof -
  have t: "ControllerPublishVolume s req = withVolumeLock (pv_VolumeId req) (publishLocked s req) \<or>
      (\<exists>e. ControllerPublishVolume s req = Ret (Inl e))" for req
    by (cases "capabilityError (pv_VolumeCapability req)") (auto simp: ControllerPublishVolume_def)
  have "lockInv (vl_locks (proc_locks st)) (replicate (length reqs) volumeID)
      (map (ControllerPublishVolume s) reqs, st)"
  proof (rule lockInv_start, simp, intro allI impI)
    fix i assume "i < length (map (ControllerPublishVolume s) reqs)"
    then have i: "i < length reqs" and key: "pv_VolumeId (reqs ! i) = volumeID"
      using assms by (simp_all add: sameVolume_def)
    have w: "waiting volumeID (withVolumeLock volumeID (publishLocked s (reqs ! i)))"
      by (rule waitingI) (rule lockFree_publishLocked)
    from t [of "reqs ! i"] w i key
    show "waiting (replicate (length reqs) volumeID ! i) (map (ControllerPublishVolume s) reqs ! i) \<or>
        finished (map (ControllerPublishVolume s) reqs ! i)"
      by (elim disjE exE) (simp_all add: finished_def)
  qed
  moreover have "publishPhase s h m req n (ControllerPublishVolume s req)" for m req n
    using t [of req] by (auto simp: publishPhase_def)
  ultimately show ?thesis by (simp add: raceInv_def)
qed

lemma raceInv_step:
  assumes store: "policy_store_errors (env_client v) pol" and same: "sameVolume h volumeID reqs ns"
    and step: "cstep v c c'" and inv: "raceInv s pol h volumeID reqs ns st0 c"
  shows "raceInv s pol h volumeID reqs ns st0 c'"
  using step
proof cases
  case call: (perform i ts e st t st')
  let ?ks = "replicate (length reqs) volumeID"
  from inv call have lock: "lockInv (vl_locks (proc_locks st0)) ?ks (ts, st)"
    and gr: "grows h (pol (proc_world st0)) (pol (proc_world st))"
    and ph: "\<And>j. j < length reqs \<Longrightarrow> publishPhase s h (pol (proc_world st)) (reqs ! j) (ns ! j) (ts ! j)"
    by (simp_all add: raceInv_def)
  from lock have len: "length ts = length reqs" by (simp add: lockInv_def)
  with call have i: "i < length reqs" by simp
  note req = same [unfolded sameVolume_def]
  from policy_store_errors.phase_step [OF store _ call(6) refl, of s h "reqs ! i" "ns ! i"]
    ph [OF i] req i call(4)
  have this': "publishPhase s h (pol (proc_world st')) (reqs ! i) (ns ! i) t"
    "grows h (pol (proc_world st)) (pol (proc_world st'))"
    "holding volumeID (Do e) \<or> proc_world st' = proc_world st"
    by simp_all
  have "publishPhase s h (pol (proc_world st')) (reqs ! j) (ns ! j) (ts ! j)"
    if j: "j < length reqs" "j \<noteq> i" for j
    using this'(3)
  proof
    assume "proc_world st' = proc_world st"
    then show ?thesis using ph [OF j(1)] by simp
  next
    assume hold: "holding volumeID (Do e)"
    from lock have "inj_on (\<lambda>i. ?ks ! i) (inside ?ks ts)" by (simp add: lockInv_def)
    with hold j i len call(4) have "\<not> holding volumeID (ts ! j)"
      by (auto simp: inj_on_def inside_def)
    with phase_stable [OF ph [OF j(1)] _ this'(2)] req j show ?thesis by simp
  qed
  with this'(1) i len have "\<forall>j < length reqs. publishPhase s h (pol (proc_world st')) (reqs ! j) (ns ! j)
      (ts[i := t] ! j)" by (auto simp: nth_list_update)
  with lockInv_step [OF step] lock call(1,2) grows_trans [OF gr this'(2)] show ?thesis
    by (simp add: raceInv_def)
qed

lemma raceInv_reach:
  assumes "policy_store_errors (env_client v) pol" and "sameVolume h volumeID reqs ns"
  shows "reach v c c' \<Longrightarrow> raceInv s pol h volumeID reqs ns st0 c \<Longrightarrow> raceInv s pol h volumeID reqs ns st0 c'"
  by (induction rule: reach.induct) (auto intro: raceInv_step [OF assms])

text \<open>C14: when any number of \<open>ControllerPublishVolume\<close> calls for one volume run concurrently, then at every
  moment of every interleaving each node whose call has succeeded is admitted by the enabled policy,
  every node admitted before still is, and the policies of all other filesystems are untouched: no
  handler overwrites another one's node.\<close>

theorem no_lost_publish:
  assumes "policy_store_errors (env_client v) pol" and "sameVolume h volumeID reqs ns"
    and "reach v (map (ControllerPublishVolume s) reqs, st) (ts, st')"
  shows "(\<forall>i < length reqs. ts ! i = Ret (Inr ()) \<longrightarrow> admitted (pol (proc_world st')) h (ns ! i)) \<and>
    grows h (pol (proc_world st)) (pol (proc_world st'))"
proof -
  from raceInv_reach [OF assms(1,2,3) raceInv_start [OF assms(2)]]
  have inv: "grows h (pol (proc_world st)) (pol (proc_world st'))"
    "\<And>i. i < length reqs \<Longrightarrow> publishPhase s h (pol (proc_world st')) (reqs ! i) (ns ! i) (ts ! i)"
    by (simp_all add: raceInv_def)
  have "admitted (pol (proc_world st')) h (ns ! i)" if "i < length reqs" "ts ! i = Ret (Inr ())" for i
  proof -
    have "\<not> holding (pv_VolumeId (reqs ! i)) (ts ! i)"
      using that(2) holding_not_finished by (fastforce simp: finished_def)
    from phase_outside [OF inv(2) [OF that(1)] this] that(2) show ?thesis
      by (auto simp: withVolumeLock_Do)
  qed
  with inv(1) show ?thesis by blast
qed

subsection \<open>Two handlers on the in-memory backend\<close>

interpretation sanity_policy_errors: policy_store_errors sanityClient sanityPolicies
proof (unfold_locales, goal_cases)
  case (1 i j o' w e w')
  then show ?case
    by (auto simp: sanityClient_def san_UpdateNFSFilesystemAccessPolicy_def Let_def
        split: sum.splits option.splits)
next
  case (2 t i j status w e w')
  then show ?case
    by (auto simp: sanityClient_def san_WaitForNFSFilesystemAccessPolicyStatus_def Let_def
        split: sum.splits if_splits)
qed

definition raceConfig :: "(goError + unit, SanityWorld) config" where
  "raceConfig = (map (ControllerPublishVolume sanityServer) [publishReq, publishReq], createdProc)"

text \<open>The first handler takes the lock and reads the policy; the second one finds the lock held and
  gives up; the first one writes, waits and releases.\<close>

definition raceEnd :: "(goError + unit, SanityWorld) config" where
  "raceEnd = runSchedule sanityEnv [0, 0, 1, 0, 0, 0] raceConfig"

lemma raceEnd_reach: "reach sanityEnv raceConfig raceEnd"
  unfolding raceEnd_def by (rule runSchedule_reach) (rule HOL.refl)

theorem no_lost_publish_witness:
  "fst raceEnd ! 0 = Ret (Inr ()) \<and>
   admitted (sanityPolicies (proc_world (snd raceEnd))) \<lparr>vh_spaceID = 1, vh_filesystemID = 10000\<rparr> 123"
proof -
  let ?h = "\<lparr>vh_spaceID = 1, vh_filesystemID = 10000\<rparr>"
  have store: "policy_store_errors (env_client sanityEnv) sanityPolicies"
    using sanity_policy_errors.policy_store_errors_axioms by (simp add: sanityEnv_def)
  have "parseVolumeHandleAndNodeID ''1/10000'' ''123'' = Inr (?h, 123)" by code_simp
  then have same: "sameVolume ?h ''1/10000'' [publishReq, publishReq] [123, 123]"
    by (auto simp: sameVolume_def publishReq_def less_Suc_eq)
  have "progResult (fst raceEnd ! 0) = Some (Inr ())" by code_simp
  then have r: "fst raceEnd ! 0 = Ret (Inr ())" by (simp only: progResult_Some)
  have "reach sanityEnv (map (ControllerPublishVolume sanityServer) [publishReq, publishReq], createdProc)
      (fst raceEnd, snd raceEnd)"
    using raceEnd_reach by (simp only: raceConfig_def prod.collapse)
  from no_lost_publish [OF store same this] r show ?thesis by fastforce
qed

end
