(* ===== verification/AccessSpec.thy ===== *)
theory AccessSpec
  imports Serial PublishRace
begin

text \<open>
  What the controller promises about access to volumes, as an abstract machine: a volume is open or
  not and admits a set of nodes; a grant opens it for a node, a revocation takes a node out. The
  publish and unpublish RPCs refine it, one by one and, with the serializability of theory \<open>Serial\<close>,
  under every interleaving.
\<close>

subsection \<open>The abstract machine\<close>

type_synonym access = "int \<times> int \<Rightarrow> (bool \<times> int set) option"

datatype accessOp = Grant "int \<times> int" int | Revoke "int \<times> int" int

text \<open>Revoking access to a volume that does not exist does nothing.\<close>

fun applyAccess :: "accessOp \<Rightarrow> access \<Rightarrow> access option" where
  "applyAccess (Grant k n) A =
     (case A k of None \<Rightarrow> None | Some (b, S) \<Rightarrow> Some (A(k \<mapsto> (True, insert n S))))"
| "applyAccess (Revoke k n) A =
     (case A k of None \<Rightarrow> Some A | Some (b, S) \<Rightarrow> Some (A(k \<mapsto> (b, S - {n}))))"

text \<open>A request that succeeds has had its effect; one that fails has had it or not, as when a call
  times out.\<close>

definition accessStep :: "accessOp \<Rightarrow> goError + unit \<Rightarrow> access \<Rightarrow> access \<Rightarrow> bool" where
  "accessStep op r A A' \<longleftrightarrow>
     (case r of Inr _ \<Rightarrow> applyAccess op A = Some A'
      | Inl _ \<Rightarrow> A' = A \<or> applyAccess op A = Some A')"

inductive accessTrace :: "accessOp list \<Rightarrow> (goError + unit) list \<Rightarrow> access \<Rightarrow> access \<Rightarrow> bool" where
  stop: "accessTrace [] [] A A"
| request: "accessStep op r A A1 \<Longrightarrow> accessTrace ops rs A1 A' \<Longrightarrow> accessTrace (op # ops) (r # rs) A A'"

inductive_simps accessTrace_simps [simp]:
  "accessTrace [] rs A A'" "accessTrace (op # ops) rs A A'"

subsection \<open>The abstraction\<close>

definition accessOf :: "policies \<Rightarrow> access" where
  "accessOf m k = map_option (\<lambda>p. (pol_Enabled p, aclNodes p)) (m k)"

lemma accessOf_at: "m k = Some p \<Longrightarrow> accessOf m k = Some (pol_Enabled p, aclNodes p)"
  by (simp add: accessOf_def)

lemma accessOf_upd:
  "accessOf (m(k \<mapsto> p)) = (accessOf m)(k \<mapsto> (pol_Enabled p, aclNodes p))"
  by (simp add: accessOf_def fun_eq_iff)

lemma accessOf_same:
  "m k = Some p \<Longrightarrow> aclNodes q = aclNodes p \<Longrightarrow> pol_Enabled q = pol_Enabled p \<Longrightarrow>
     accessOf (m(k \<mapsto> q)) = accessOf m"
  by (simp add: accessOf_def fun_eq_iff)

text \<open>The abstract operation of a request.\<close>

primrec opOf :: "volumeHandle \<Rightarrow> int \<Rightarrow> accessRequest \<Rightarrow> accessOp" where
  "opOf h n (PublishRequest r) = Grant (handleKey h) n"
| "opOf h n (UnpublishRequest r) = Revoke (handleKey h) n"

text \<open>The request names the filesystem and a Linode.\<close>

primrec accessNode :: "accessRequest \<Rightarrow> string" where
  "accessNode (PublishRequest r) = pv_NodeId r"
| "accessNode (UnpublishRequest r) = uv_NodeId r"

definition names :: "volumeHandle \<Rightarrow> int \<Rightarrow> accessRequest \<Rightarrow> bool" where
  "names h n a \<longleftrightarrow> n \<noteq> 0 \<and> parseVolumeHandleAndNodeID (accessVolume a) (accessNode a) = Inr (h, n)"

subsection \<open>The contract of the API\<close>

text \<open>The API answers 404 only about a filesystem that does not exist.\<close>

locale policy_service = policy_store_errors c pol
  for c :: "'w LinodeClient" and pol :: "'w \<Rightarrow> policies" +
  fixes lg :: linodego
  assumes absent:
    "lc_GetNFSFilesystemAccessPolicy c i j w = (Inl e, w') \<Longrightarrow> IsNotFound lg e \<Longrightarrow> pol w (i, j) = None"
begin

lemma get_policy_any:
  assumes "run (getFilesystemPolicyForVolumeAndNode x y) v st = (r, st')" and "env_client v = c"
    and "parseVolumeHandleAndNodeID x y = Inr (h, n)"
  shows "pol (proc_world st') = pol (proc_world st) \<and>
    (case r of Inr (h', n', p) \<Rightarrow> h' = h \<and> n' = n \<and> pol (proc_world st) (handleKey h) = Some p
     | Inl e \<Rightarrow> IsNotFound lg e \<longrightarrow> pol (proc_world st) (handleKey h) = None)"
proof -
  obtain g w1 where g: "lc_GetNFSFilesystemAccessPolicy c (vh_spaceID h) (vh_filesystemID h)
      (proc_world st) = (g, w1)" by fastforce
  with assms have "st' = st\<lparr>proc_world := w1\<rparr>"
    and "r = (case g of Inl e \<Rightarrow> Inl e | Inr p \<Rightarrow> Inr (h, n, p))"
    by (auto simp: getFilesystemPolicyForVolumeAndNode_def run_simps split: sum.splits)
  with g get_ok get_err absent show ?thesis
    by (cases g) (auto simp: handleKey_def)
qed

lemma wait_any:
  assumes "run (waitForFilesystemAccessPolicyActive s i j) v st = (r, st')" and "env_client v = c"
  shows "accessOf (pol (proc_world st')) = accessOf (pol (proc_world st))"
proof -
  obtain g w1 where g: "lc_WaitForNFSFilesystemAccessPolicyStatus c waitTimeout i j
      NFSAccessPolicyStatusActive (proc_world st) = (g, w1)" by fastforce
  with assms have st': "proc_world st' = w1"
    by (auto simp: waitForFilesystemAccessPolicyActive_def run_simps split: sum.splits)
  have "pol w1 = pol (proc_world st) \<or> (\<exists>p status. pol (proc_world st) (i, j) = Some p \<and>
      pol w1 = (pol (proc_world st))((i, j) \<mapsto> p\<lparr>pol_Status := status\<rparr>))"
    using g wait_ok wait_err by (cases g) blast+
  then show ?thesis unfolding st' by (auto intro!: accessOf_same simp: aclNodes_def)
qed

lemma update_any:
  assumes "run (updatePolicyAndWait s h o') v st = (r, st')" and "env_client v = c"
    and "pol (proc_world st) (handleKey h) = Some p"
  shows "(accessOf (pol (proc_world st')) = accessOf (pol (proc_world st)) \<and> (\<exists>e. r = Inl e)) \<or>
    accessOf (pol (proc_world st')) = (accessOf (pol (proc_world st)))(handleKey h \<mapsto>
      (pol_Enabled (applyPolicyUpdate o' p), aclNodes (applyPolicyUpdate o' p)))"
proof -
  obtain u w1 where u: "lc_UpdateNFSFilesystemAccessPolicy c (vh_spaceID h) (vh_filesystemID h) o'
        (proc_world st) = (u, w1)" by fastforce
  have nodes: "aclNodes (q\<lparr>pol_Status := status\<rparr>) = aclNodes q" for q status by (simp add: aclNodes_def)
  show ?thesis
  proof (cases u)
    case (Inl e)
    with u assms have "proc_world st' = w1" "\<exists>e. r = Inl e"
      by (auto simp: updatePolicyAndWait_def run_simps)
    with update_err [OF u [unfolded Inl]] assms(3) show ?thesis
      by (auto simp: handleKey_def accessOf_upd nodes)
  next
    case (Inr q)
    with u assms(1,2) have "run (waitForFilesystemAccessPolicyActive s (vh_spaceID h) (vh_filesystemID h)) v
        (st\<lparr>proc_world := w1\<rparr>) = (r, st')"
      by (auto simp: updatePolicyAndWait_def run_simps)
    from wait_any [OF this assms(2)] update_ok [OF u [unfolded Inr]] assms(3) show ?thesis
      by (auto simp: handleKey_def accessOf_upd nodes)
  qed
qed

lemma step_of_update:
  assumes "run (updatePolicyAndWait s h o') v st = (r, st')" and "env_client v = c"
    and "pol (proc_world st) (handleKey h) = Some p"
    and "applyAccess op (accessOf (pol (proc_world st))) = Some ((accessOf (pol (proc_world st)))
      (handleKey h \<mapsto> (pol_Enabled (applyPolicyUpdate o' p), aclNodes (applyPolicyUpdate o' p))))"
  shows "accessStep op r (accessOf (pol (proc_world st))) (accessOf (pol (proc_world st')))"
  using update_any [OF assms(1-3)]
proof (elim disjE conjE exE)
  fix e
  assume "accessOf (pol (proc_world st')) = accessOf (pol (proc_world st))" "r = Inl e"
  then show ?thesis by (simp add: accessStep_def)
next
  assume "accessOf (pol (proc_world st')) = (accessOf (pol (proc_world st)))
      (handleKey h \<mapsto> (pol_Enabled (applyPolicyUpdate o' p), aclNodes (applyPolicyUpdate o' p)))"
  with assms(4) show ?thesis by (cases r) (simp_all only: accessStep_def sum.case simp_thms)
qed

lemma publish_refines:
  assumes r: "run (publishLocked s req) v st = (r, st')" and c: "env_client v = c"
    and names: "parseVolumeHandleAndNodeID (pv_VolumeId req) (pv_NodeId req) = Inr (h, n)" "n \<noteq> 0"
  shows "accessStep (Grant (handleKey h) n) r (accessOf (pol (proc_world st))) (accessOf (pol (proc_world st')))"
proof -
  obtain g st1 where g: "run (getFilesystemPolicyForVolumeAndNode (pv_VolumeId req) (pv_NodeId req)) v st
      = (g, st1)" by fastforce
  note got = get_policy_any [OF g c names(1)]
  show ?thesis
  proof (cases g)
    case (Inl e)
    with r g got show ?thesis
      by (auto simp: publishLocked_def run_simps accessStep_def split: if_splits)
  next
    case (Inr hnp)
    with got obtain p where p: "hnp = (h, n, p)" "pol (proc_world st1) = pol (proc_world st)"
      "pol (proc_world st) (handleKey h) = Some p" by (auto split: prod.splits)
    show ?thesis
    proof (cases "n \<in> set (elems (filesystemPolicyLinodeIDs p)) \<and> pol_Enabled p")
      case True
      with r g Inr p have "r = Inr ()" "st' = st1" by (auto simp: publishLocked_def run_simps)
      moreover have "insert n (aclNodes p) = aclNodes p" using True by (auto simp: aclNodes_def)
      ultimately show ?thesis
        using p True by (auto simp: accessStep_def accessOf_def fun_eq_iff)
    next
      case False
      let ?o = "filesystemPolicyUpdate p True (publishIDs p n)"
      from False r g Inr p have "run (updatePolicyAndWait s h ?o) v st1 = (r, st')"
        by (auto simp: publishLocked_def run_simps Let_def publishIDs_def)
      moreover have "aclNodes (applyPolicyUpdate ?o p) = insert n (aclNodes p)"
        using elems_publishIDs [OF names(2), of p] names(2) by (auto simp: aclNodes_def)
      ultimately show ?thesis
        using step_of_update [of s h ?o v st1 r st' p "Grant (handleKey h) n"] c p
        by (simp add: accessOf_at)
    qed
  qed
qed

lemma unpublish_refines:
  assumes r: "run (unpublishLocked s req) v st = (r, st')" and c: "env_client v = c" and lg: "cs_linodego s = lg"
    and names: "parseVolumeHandleAndNodeID (uv_VolumeId req) (uv_NodeId req) = Inr (h, n)" "n \<noteq> 0"
  shows "accessStep (Revoke (handleKey h) n) r (accessOf (pol (proc_world st))) (accessOf (pol (proc_world st')))"
proof -
  obtain g st1 where g: "run (getFilesystemPolicyForVolumeAndNode (uv_VolumeId req) (uv_NodeId req)) v st
      = (g, st1)" by fastforce
  note got = get_policy_any [OF g c names(1)]
  show ?thesis
  proof (cases g)
    case (Inl e)
    with r g got lg show ?thesis
      by (auto simp: unpublishLocked_def run_simps accessStep_def accessOf_def [of _ "handleKey h"]
          split: if_splits)
  next
    case (Inr hnp)
    with got obtain p where p: "hnp = (h, n, p)" "pol (proc_world st1) = pol (proc_world st)"
      "pol (proc_world st) (handleKey h) = Some p" by (auto split: prod.splits)
    show ?thesis
    proof (cases "n \<in> set (elems (filesystemPolicyLinodeIDs p))")
      case False
      with r g Inr p have "r = Inr ()" "st' = st1" by (auto simp: unpublishLocked_def run_simps)
      moreover have "aclNodes p - {n} = aclNodes p" using False by (auto simp: aclNodes_def)
      ultimately show ?thesis
        using p by (auto simp: accessStep_def accessOf_def fun_eq_iff)
    next
      case True
      let ?o = "filesystemPolicyUpdate p (pol_Enabled p)
          (slice_delete (\<lambda>x. x = n) (filesystemPolicyLinodeIDs p))"
      from True r g Inr p have "run (updatePolicyAndWait s h ?o) v st1 = (r, st')"
        by (auto simp: unpublishLocked_def run_simps Let_def)
      moreover have "aclNodes (applyPolicyUpdate ?o p) = aclNodes p - {n}" by (auto simp: aclNodes_def)
      ultimately show ?thesis
        using step_of_update [of s h ?o v st1 r st' p "Revoke (handleKey h) n"] c p
        by (simp add: accessOf_at)
    qed
  qed
qed

text \<open>A whole request: it steps the abstract machine, or was refused with an error.\<close>

lemma handler_refines:
  assumes r: "run (accessHandler s a) v st = (r, st')" and c: "env_client v = c" and lg: "cs_linodego s = lg"
    and names: "names h n a"
  shows "accessStep (opOf h n a) r (accessOf (pol (proc_world st))) (accessOf (pol (proc_world st')))"
proof -
  have locked: "accessStep op r (accessOf (pol (proc_world st))) (accessOf (pol (proc_world st')))"
    if w: "run (withVolumeLock key body) v st = (r, st')"
      and body: "\<And>st1 r' st2. run body v st1 = (r', st2) \<Longrightarrow>
        accessStep op r' (accessOf (pol (proc_world st1))) (accessOf (pol (proc_world st2)))" for key body op
  proof (cases "key \<in> vl_locks (proc_locks st)")
    case True
    with w show ?thesis by (auto simp: run_withVolumeLock_busy accessStep_def)
  next
    case False
    let ?st = "st\<lparr>proc_locks := (proc_locks st)\<lparr>vl_locks := insert key (vl_locks (proc_locks st))\<rparr>\<rparr>"
    from False w obtain s2 where "run body v ?st = (r, s2)" "proc_world st' = proc_world s2"
      by (auto simp: run_withVolumeLock_free split: prod.splits)
    with body [of ?st r s2] show ?thesis by simp
  qed
  show ?thesis
  proof (cases a)
    case (PublishRequest req)
    with names have nm: "parseVolumeHandleAndNodeID (pv_VolumeId req) (pv_NodeId req) = Inr (h, n)" "n \<noteq> 0"
      by (simp_all add: names_def)
    show ?thesis
    proof (cases "run (withVolumeLock (pv_VolumeId req) (publishLocked s req)) v st = (r, st')")
      case True
      from locked [OF True publish_refines [OF _ c nm]] PublishRequest show ?thesis by simp
    next
      case False
      with r PublishRequest have "\<exists>e. r = Inl e" "st' = st"
        by (cases "capabilityError (pv_VolumeCapability req)";
            auto simp: ControllerPublishVolume_def run_simps split: if_splits)+
      then show ?thesis by (auto simp: accessStep_def)
    qed
  next
    case (UnpublishRequest req)
    with names have nm: "parseVolumeHandleAndNodeID (uv_VolumeId req) (uv_NodeId req) = Inr (h, n)" "n \<noteq> 0"
      by (simp_all add: names_def)
    then have "uv_NodeId req \<noteq> []" by (auto simp: parseVolumeHandleAndNodeID_Inr)
    show ?thesis
    proof (cases "run (withVolumeLock (uv_VolumeId req) (unpublishLocked s req)) v st = (r, st')")
      case True
      from locked [OF True unpublish_refines [OF _ c lg nm]] UnpublishRequest show ?thesis by simp
    next
      case False
      with r UnpublishRequest \<open>uv_NodeId req \<noteq> []\<close> have "\<exists>e. r = Inl e" "st' = st"
        by (auto simp: ControllerUnpublishVolume_def run_simps split: if_splits)
      then show ?thesis by (auto simp: accessStep_def)
    qed
  qed
qed

lemma trace_refines:
  assumes "env_client v = c" and "cs_linodego s = lg"
  shows "serial v (map (accessHandler s) as) st = (rs, st') \<Longrightarrow>
    list_all2 (\<lambda>(h, n). names h n) targets as \<Longrightarrow>
    accessTrace (map2 (\<lambda>(h, n). opOf h n) targets as) rs
      (accessOf (pol (proc_world st))) (accessOf (pol (proc_world st')))"
proof (induction as arbitrary: targets st rs)
  case (Cons a as)
  then obtain h n ts where ts: "targets = (h, n) # ts" "names h n a"
    "list_all2 (\<lambda>(h, n). names h n) ts as"
    by (auto simp: list_all2_Cons2)
  from Cons.prems obtain r st1 rs' where r: "run (accessHandler s a) v st = (r, st1)"
    "serial v (map (accessHandler s) as) st1 = (rs', st')" "rs = r # rs'"
    by (auto split: prod.splits)
  from handler_refines [OF r(1) assms ts(2)] Cons.IH [OF r(2) ts(3)] show ?case
    unfolding ts r(3) by auto
qed (auto intro: accessTrace.stop)

end

text \<open>A request that names a volume and a node is refused with an error only.\<close>

lemma accessHandler_refused:
  assumes "names h n a" and "finished (accessHandler s a)"
  shows "\<exists>e. accessHandler s a = Ret (Inl e)"
proof (cases a)
  case (PublishRequest req)
  with assms show ?thesis
    by (cases "capabilityError (pv_VolumeCapability req)")
      (auto simp: ControllerPublishVolume_def finished_def withVolumeLock_Do split: if_splits)
next
  case (UnpublishRequest req)
  with assms(1) have "uv_NodeId req \<noteq> []" by (auto simp: names_def parseVolumeHandleAndNodeID_Inr)
  with assms UnpublishRequest show ?thesis
    by (auto simp: ControllerUnpublishVolume_def finished_def withVolumeLock_Do split: if_splits)
qed

subsection \<open>The controller refines the machine\<close>

text \<open>C8: the publish and unpublish RPCs implement the abstract access machine: a sequence of requests to
  any volumes takes the machine from the state the policies stand for to the state they stand for
  afterwards; each request that succeeded was the operation it names, each that failed was that
  operation or nothing.\<close>

theorem access_refines:
  assumes "policy_service (env_client v) pol (cs_linodego s)"
    and "list_all2 (\<lambda>(h, n). names h n) targets reqs"
    and "serial v (map (accessHandler s) reqs) st = (rs, st')"
  shows "accessTrace (map2 (\<lambda>(h, n). opOf h n) targets reqs) rs
    (accessOf (pol (proc_world st))) (accessOf (pol (proc_world st')))"
  using policy_service.trace_refines [OF assms(1) refl refl assms(3,2)] .

text \<open>C7: concurrent publish and unpublish requests for one volume are linearizable: once all have
  returned, the policies stand for the state that the abstract machine reaches by the operations of
  the requests that got the lock, in some order, with the results they returned; the others returned
  an error.\<close>

theorem access_linearizable:
  assumes "policy_service (env_client v) pol (cs_linodego s)"
    and "length ns = length reqs"
    and "\<forall>i < length reqs. names h (ns ! i) (reqs ! i) \<and> accessVolume (reqs ! i) = volumeID"
    and "volumeID \<notin> vl_locks (proc_locks st)"
    and "reach v (map (accessHandler s) reqs, st) (ts, st')" and "\<forall>t \<in> set ts. finished t"
  shows "\<exists>xs rs. distinct xs \<and> set xs \<subseteq> {..< length reqs} \<and> map ((!) ts) xs = map Ret rs \<and>
    accessTrace (map (\<lambda>i. opOf h (ns ! i) (reqs ! i)) xs) rs
      (accessOf (pol (proc_world st))) (accessOf (pol (proc_world st'))) \<and>
    (\<forall>i \<in> {..< length reqs} - set xs. \<exists>e. ts ! i = Ret (Inl e))"
proof -
  have "\<forall>a \<in> set reqs. accessVolume a = volumeID" using assms(3) by (auto simp: in_set_conv_nth)
  from serialized_access [OF this assms(4-6)] obtain xs rs where
    xs: "distinct xs" "set xs \<subseteq> {..< length reqs}" "map ((!) ts) xs = map Ret rs"
    and ser: "serial v (map (accessHandler s) (map ((!) reqs) xs)) st = (rs, st')"
    and rest: "\<And>i. i \<in> {..< length reqs} - set xs \<Longrightarrow>
      ts ! i = Ret (Inl (volumeBusy volumeID)) \<or> ts ! i = accessHandler s (reqs ! i)"
    by (auto simp: comp_def)
  have "list_all2 (\<lambda>(h, n). names h n) (map (\<lambda>i. (h, ns ! i)) xs) (map ((!) reqs) xs)"
    unfolding list_all2_map1 list_all2_map2 using xs(2) assms(3)
    by (intro list.rel_refl_strong) (auto simp: subset_iff)
  from policy_service.trace_refines [OF assms(1) refl refl ser this]
  have "accessTrace (map (\<lambda>i. opOf h (ns ! i) (reqs ! i)) xs) rs
      (accessOf (pol (proc_world st))) (accessOf (pol (proc_world st')))"
    by (simp add: map2_map_map)
  moreover have "\<exists>e. ts ! i = Ret (Inl e)" if i: "i \<in> {..< length reqs} - set xs" for i
  proof -
    from i assms(6) reach_length [OF assms(5)] have "finished (ts ! i)" by simp
    with rest [OF i] accessHandler_refused [of h "ns ! i" "reqs ! i" s] assms(3) i show ?thesis by auto
  qed
  ultimately show ?thesis using xs by blast
qed

subsection \<open>The in-memory backend\<close>

interpretation sanity_service: policy_service sanityClient sanityPolicies sanityLinodego
proof
  fix i j w e w'
  assume "lc_GetNFSFilesystemAccessPolicy sanityClient i j w = (Inl e, w')"
  then show "sanityPolicies w (i, j) = None"
    by (auto simp: sanityClient_def san_GetNFSFilesystemAccessPolicy_def sanityPolicies_def bindR_def
        split: sum.splits)
qed

lemma sanityEnv_service: "policy_service (env_client sanityEnv) sanityPolicies (cs_linodego sanityServer)"
  using sanity_service.policy_service_axioms by (simp add: sanityEnv_def sanityServer_def)

definition sanityHandle :: volumeHandle where
  "sanityHandle = \<lparr>vh_spaceID = 1, vh_filesystemID = 10000\<rparr>"

lemma accessRequests_names: "\<forall>i < 2. names sanityHandle ([123, 123] ! i) (accessRequests ! i) \<and>
    accessVolume (accessRequests ! i) = ''1/10000''"
proof -
  have "parseVolumeHandleAndNodeID ''1/10000'' ''123'' = Inr (sanityHandle, 123)" by code_simp
  then show ?thesis
    by (simp add: names_def accessRequests_def publishReq_def unpublishReq_def less_2_cases_iff)
qed

text \<open>One after the other, the publish admits the node and the unpublish takes it out again.\<close>

theorem access_refines_witness:
  "accessTrace [Grant (1, 10000) 123, Revoke (1, 10000) 123]
     (fst (serial sanityEnv (map (accessHandler sanityServer) accessRequests) createdProc))
     (accessOf (sanityPolicies (proc_world createdProc)))
     (accessOf (sanityPolicies (proc_world
       (snd (serial sanityEnv (map (accessHandler sanityServer) accessRequests) createdProc)))))"
proof -
  have "list_all2 (\<lambda>(h, n). names h n) [(sanityHandle, 123), (sanityHandle, 123)] accessRequests"
    using accessRequests_names by (auto simp: accessRequests_def less_2_cases_iff dest: spec [of _ 0] spec [of _ 1])
  from access_refines [OF sanityEnv_service this prod.collapse [symmetric]] show ?thesis
    by (simp add: accessRequests_def handleKey_def sanityHandle_def)
qed

theorem access_linearizable_witness:
  "\<exists>xs rs. distinct xs \<and> map ((!) (fst accessEnd)) xs = map Ret rs \<and>
    accessTrace (map (\<lambda>i. opOf sanityHandle 123 (accessRequests ! i)) xs) rs
      (accessOf (sanityPolicies (proc_world createdProc)))
      (accessOf (sanityPolicies (proc_world (snd accessEnd))))"
proof -
  have len: "length accessRequests = 2" by (simp add: accessRequests_def)
  have "''1/10000'' \<notin> vl_locks (proc_locks createdProc)" by code_simp
  moreover have "\<forall>t \<in> set (fst accessEnd). finished t" by (simp add: accessEnd_finished finished_def)
  ultimately obtain xs rs where xs: "distinct xs" "set xs \<subseteq> {..< 2}" "map ((!) (fst accessEnd)) xs = map Ret rs"
    "accessTrace (map (\<lambda>i. opOf sanityHandle ([123, 123] ! i) (accessRequests ! i)) xs) rs
      (accessOf (sanityPolicies (proc_world createdProc))) (accessOf (sanityPolicies (proc_world (snd accessEnd))))"
    using access_linearizable [OF sanityEnv_service _ _ _ accessEnd_reach, of "[123, 123]" sanityHandle "''1/10000''"]
      accessRequests_names len by auto
  from xs(2) have "map (\<lambda>i. opOf sanityHandle ([123, 123] ! i) (accessRequests ! i)) xs =
      map (\<lambda>i. opOf sanityHandle 123 (accessRequests ! i)) xs"
    by (intro map_cong) (auto simp: subset_iff less_2_cases_iff)
  with xs show ?thesis by auto
qed

end
