(* ===== verification/AccessService.thy ===== *)
theory AccessService
  imports AccessSpec
begin

text \<open>
  The access machine of theory \<open>AccessSpec\<close> as its users see it: \<open>ControllerGetVolume\<close> reports exactly
  its state, and when the API answers its calls a request is not refused without reason: it succeeds
  and performs its operation.
\<close>

subsection \<open>Observing the state\<close>

locale policy_reader = policy_service c pol lg
  for c :: "'w LinodeClient" and pol :: "'w \<Rightarrow> policies" and lg +
  assumes get_filesystem_keeps: "lc_GetNFSFilesystemInSpace c i j w = (x, w') \<Longrightarrow> pol w' = pol w"
begin

lemma getVolume_access:
  assumes "run (ControllerGetVolume s volumeID) v st = (Inr resp, st')" and c: "env_client v = c"
  shows "\<exists>h b S. parseVolumeHandle volumeID = Inr h \<and>
    accessOf (pol (proc_world st)) (handleKey h) = Some (b, S) \<and>
    set (gv_PublishedNodeIds resp) = (if b then Itoa ` S else {}) \<and>
    pol (proc_world st') = pol (proc_world st)"
proof -
  from assms obtain h f w1 p w2 where h: "parseVolumeHandle volumeID = Inr h"
    and f: "lc_GetNFSFilesystemInSpace c (vh_spaceID h) (vh_filesystemID h) (proc_world st) = (Inr f, w1)"
    and p: "lc_GetNFSFilesystemAccessPolicy c (vh_spaceID h) (vh_filesystemID h) w1 = (Inr p, w2)"
    and r: "gv_PublishedNodeIds resp = csiControllerVolumeStatus p" "proc_world st' = w2"
    by (auto simp: ControllerGetVolume_def run_simps split: sum.splits prod.splits if_splits)
  from get_ok [OF p] get_filesystem_keeps [OF f] have "pol (proc_world st) (handleKey h) = Some p"
    "pol w2 = pol (proc_world st)" by (simp_all add: handleKey_def)
  moreover have "set (csiControllerVolumeStatus p) = (if pol_Enabled p then Itoa ` aclNodes p else {})"
    by (auto simp: csiControllerVolumeStatus_def publishedNodeIDs_def aclNodes_def)
  ultimately show ?thesis using h r by (auto simp: accessOf_at)
qed

end

lemma applyAccess_admits:
  "applyAccess (Grant k n) A = Some A' \<Longrightarrow> A' k = Some (b, S) \<Longrightarrow> b \<and> n \<in> S"
  "applyAccess (Revoke k n) A = Some A' \<Longrightarrow> A' k = Some (b, S) \<Longrightarrow> n \<notin> S"
  by (auto split: option.splits)

text \<open>C26: \<open>ControllerGetVolume\<close> observes the access machine: when it succeeds, the published node IDs it
  reports are exactly the nodes the volume admits (none while its policy is disabled), and it changes
  no policy.\<close>

theorem getVolume_observes:
  assumes "policy_reader (env_client v) pol lg"
    and "run (ControllerGetVolume s volumeID) v st = (Inr resp, st')"
  shows "\<exists>h b S. parseVolumeHandle volumeID = Inr h \<and>
    accessOf (pol (proc_world st)) (handleKey h) = Some (b, S) \<and>
    set (gv_PublishedNodeIds resp) = (if b then Itoa ` S else {}) \<and>
    pol (proc_world st') = pol (proc_world st)"
  using policy_reader.getVolume_access [OF assms refl] .

text \<open>After a publish has succeeded \<open>ControllerGetVolume\<close> lists the node, and after an unpublish has
  succeeded it does not.\<close>

lemma access_reported:
  assumes "policy_reader (env_client v) pol (cs_linodego s)" and "names h n a"
    and "run (accessHandler s a) v st = (Inr (), st1)"
    and "run (ControllerGetVolume s (accessVolume a)) v st1 = (Inr resp, st2)"
  shows "Itoa n \<in> set (gv_PublishedNodeIds resp) \<longleftrightarrow> (\<exists>r. a = PublishRequest r)"
proof -
  have svc: "policy_service (env_client v) pol (cs_linodego s)"
    using assms(1) by (simp add: policy_reader_def)
  have "accessStep (opOf h n a) (Inr ()) (accessOf (pol (proc_world st))) (accessOf (pol (proc_world st1)))"
    using policy_service.handler_refines [OF svc assms(3) refl refl assms(2)] .
  then have step: "applyAccess (opOf h n a) (accessOf (pol (proc_world st))) = Some (accessOf (pol (proc_world st1)))"
    by (simp add: accessStep_def)
  from policy_reader.getVolume_access [OF assms(1,4) refl] assms(2) obtain b S where
    bS: "accessOf (pol (proc_world st1)) (handleKey h) = Some (b, S)"
    and ids: "set (gv_PublishedNodeIds resp) = (if b then Itoa ` S else {})"
    by (auto simp: names_def parseVolumeHandleAndNodeID_Inr)
  show ?thesis
  proof (cases a)
    case (PublishRequest r)
    with step have "applyAccess (Grant (handleKey h) n) (accessOf (pol (proc_world st))) =
        Some (accessOf (pol (proc_world st1)))" by simp
    from applyAccess_admits(1) [OF this bS] have "b \<and> n \<in> S" .
    with PublishRequest ids show ?thesis by simp
  next
    case (UnpublishRequest r)
    with step have "applyAccess (Revoke (handleKey h) n) (accessOf (pol (proc_world st))) =
        Some (accessOf (pol (proc_world st1)))" by simp
    from applyAccess_admits(2) [OF this bS] have "n \<notin> S" .
    with UnpublishRequest ids show ?thesis by (auto simp: Itoa_inject)
  qed
qed

subsection \<open>Requests succeed\<close>

text \<open>The update a request sends when it has to.\<close>

primrec accessUpdate :: "NFSFilesystemAccessPolicy \<Rightarrow> int \<Rightarrow> accessRequest \<Rightarrow> NFSFilesystemAccessPolicyUpdateOptions" where
  "accessUpdate p n (PublishRequest r) = filesystemPolicyUpdate p True (publishIDs p n)"
| "accessUpdate p n (UnpublishRequest r) =
     filesystemPolicyUpdate p (pol_Enabled p) (slice_delete (\<lambda>x. x = n) (filesystemPolicyLinodeIDs p))"

primrec accessSupported :: "accessRequest \<Rightarrow> bool" where
  "accessSupported (PublishRequest r) = (capabilityError (pv_VolumeCapability r) = Inr ())"
| "accessSupported (UnpublishRequest r) = True"

text \<open>An API that answers: it reads every policy it has, and applies the updates it accepts.\<close>

locale policy_available = policy_service c pol lg
  for c :: "'w LinodeClient" and pol :: "'w \<Rightarrow> policies" and lg +
  fixes accepts :: "NFSFilesystemAccessPolicyUpdateOptions \<Rightarrow> bool"
  assumes get_available:
      "pol w (i, j) \<noteq> None \<Longrightarrow> \<exists>p w'. lc_GetNFSFilesystemAccessPolicy c i j w = (Inr p, w')"
    and update_available:
      "pol w (i, j) \<noteq> None \<Longrightarrow> accepts o' \<Longrightarrow>
         \<exists>q w'. lc_UpdateNFSFilesystemAccessPolicy c i j o' w = (Inr q, w')"
    and wait_available:
      "pol w (i, j) \<noteq> None \<Longrightarrow>
         \<exists>q w'. lc_WaitForNFSFilesystemAccessPolicyStatus c t i j NFSAccessPolicyStatusActive w = (Inr q, w')"
begin

lemma get_runs:
  assumes "pol (proc_world st) (handleKey h) = Some p" and "env_client v = c"
    and "parseVolumeHandleAndNodeID x y = Inr (h, n)"
  obtains st1 where "run (getFilesystemPolicyForVolumeAndNode x y) v st = (Inr (h, n, p), st1)"
    "pol (proc_world st1) = pol (proc_world st)"
proof -
  from assms(1) get_available obtain q w' where
    g: "lc_GetNFSFilesystemAccessPolicy c (vh_spaceID h) (vh_filesystemID h) (proc_world st) = (Inr q, w')"
    unfolding handleKey_def by blast
  from get_ok [OF g] assms(1) have "q = p" "pol w' = pol (proc_world st)" by (auto simp: handleKey_def)
  with g assms(2,3) that show thesis
    by (auto simp: getFilesystemPolicyForVolumeAndNode_def run_simps)
qed

lemma update_runs:
  assumes "pol (proc_world st) (handleKey h) = Some p" and "env_client v = c" and "accepts o'"
  shows "\<exists>st'. run (updatePolicyAndWait s h o') v st = (Inr (), st')"
proof -
  from assms(1,3) update_available obtain q w1 where
    u: "lc_UpdateNFSFilesystemAccessPolicy c (vh_spaceID h) (vh_filesystemID h) o' (proc_world st) = (Inr q, w1)"
    unfolding handleKey_def by blast
  from update_ok [OF u] have "pol w1 (vh_spaceID h, vh_filesystemID h) \<noteq> None" by auto
  from wait_available [OF this] obtain q2 w2 where
    "lc_WaitForNFSFilesystemAccessPolicyStatus c waitTimeout (vh_spaceID h) (vh_filesystemID h)
       NFSAccessPolicyStatusActive w1 = (Inr q2, w2)" by blast
  with u assms(2) show ?thesis
    by (simp add: updatePolicyAndWait_def waitForFilesystemAccessPolicyActive_def run_simps)
qed

lemma publish_runs:
  assumes p: "pol (proc_world st) (handleKey h) = Some p" and c: "env_client v = c"
    and hn: "parseVolumeHandleAndNodeID (pv_VolumeId r) (pv_NodeId r) = Inr (h, n)"
    and ok: "accepts (filesystemPolicyUpdate p True (publishIDs p n))"
  shows "\<exists>st'. run (publishLocked s r) v st = (Inr (), st')"
proof -
  from get_runs [OF p c hn] obtain st1 where
    g: "run (getFilesystemPolicyForVolumeAndNode (pv_VolumeId r) (pv_NodeId r)) v st = (Inr (h, n, p), st1)"
    "pol (proc_world st1) = pol (proc_world st)" .
  show ?thesis
  proof (cases "n \<in> set (elems (filesystemPolicyLinodeIDs p)) \<and> pol_Enabled p")
    case True
    with g show ?thesis by (simp add: publishLocked_def run_simps)
  next
    case False
    with g have "run (publishLocked s r) v st =
        run (updatePolicyAndWait s h (filesystemPolicyUpdate p True (publishIDs p n))) v st1"
      by (auto simp: publishLocked_def run_bindP Let_def publishIDs_def)
    with update_runs [of st1 h p v] p g c ok show ?thesis by simp
  qed
qed

lemma unpublish_runs:
  assumes p: "pol (proc_world st) (handleKey h) = Some p" and c: "env_client v = c"
    and hn: "parseVolumeHandleAndNodeID (uv_VolumeId r) (uv_NodeId r) = Inr (h, n)"
    and ok: "accepts (filesystemPolicyUpdate p (pol_Enabled p)
      (slice_delete (\<lambda>x. x = n) (filesystemPolicyLinodeIDs p)))"
  shows "\<exists>st'. run (unpublishLocked s r) v st = (Inr (), st')"
proof -
  from get_runs [OF p c hn] obtain st1 where
    g: "run (getFilesystemPolicyForVolumeAndNode (uv_VolumeId r) (uv_NodeId r)) v st = (Inr (h, n, p), st1)"
    "pol (proc_world st1) = pol (proc_world st)" .
  show ?thesis
  proof (cases "n \<in> set (elems (filesystemPolicyLinodeIDs p))")
    case False
    with g show ?thesis by (simp add: unpublishLocked_def run_simps)
  next
    case True
    with g have "run (unpublishLocked s r) v st =
        run (updatePolicyAndWait s h (filesystemPolicyUpdate p (pol_Enabled p)
          (slice_delete (\<lambda>x. x = n) (filesystemPolicyLinodeIDs p)))) v st1"
      by (auto simp: unpublishLocked_def run_bindP Let_def)
    with update_runs [of st1 h p v] p g c ok show ?thesis by simp
  qed
qed

lemma locked_runs:
  assumes "key \<notin> vl_locks (proc_locks st)"
    and "\<And>st1. proc_world st1 = proc_world st \<Longrightarrow> \<exists>st'. run body v st1 = (Inr (), st')"
  shows "\<exists>st'. run (withVolumeLock key body) v st = (Inr (), st')"
proof -
  let ?st = "st\<lparr>proc_locks := (proc_locks st)\<lparr>vl_locks := insert key (vl_locks (proc_locks st))\<rparr>\<rparr>"
  from assms(2) [of ?st] obtain s2 where "run body v ?st = (Inr (), s2)" by auto
  with assms(1) show ?thesis by (simp add: run_withVolumeLock_free)
qed

lemma handler_runs:
  assumes nm: "names h n a" and c: "env_client v = c" and sup: "accessSupported a"
    and free: "accessVolume a \<notin> vl_locks (proc_locks st)"
    and p: "pol (proc_world st) (handleKey h) = Some p" and ok: "accepts (accessUpdate p n a)"
  shows "\<exists>st'. run (accessHandler s a) v st = (Inr (), st')"
proof (cases a)
  case (PublishRequest r)
  with nm have hn: "parseVolumeHandleAndNodeID (pv_VolumeId r) (pv_NodeId r) = Inr (h, n)"
    by (simp add: names_def)
  then have "pv_VolumeId r \<noteq> [] \<and> pv_NodeId r \<noteq> []"
    using parseVolumeHandle_Nil by (auto simp: parseVolumeHandleAndNodeID_Inr)
  moreover have "\<exists>st'. run (withVolumeLock (pv_VolumeId r) (publishLocked s r)) v st = (Inr (), st')"
    by (rule locked_runs) (use free p ok PublishRequest in \<open>auto intro!: publish_runs [OF _ c hn]\<close>)
  ultimately show ?thesis
    using PublishRequest sup by (simp add: ControllerPublishVolume_def run_simps)
next
  case (UnpublishRequest r)
  with nm have hn: "parseVolumeHandleAndNodeID (uv_VolumeId r) (uv_NodeId r) = Inr (h, n)"
    by (simp add: names_def)
  then have "uv_VolumeId r \<noteq> [] \<and> uv_NodeId r \<noteq> []"
    using parseVolumeHandle_Nil by (auto simp: parseVolumeHandleAndNodeID_Inr)
  moreover have "\<exists>st'. run (withVolumeLock (uv_VolumeId r) (unpublishLocked s r)) v st = (Inr (), st')"
    by (rule locked_runs) (use free p ok UnpublishRequest in \<open>auto intro!: unpublish_runs [OF _ c hn]\<close>)
  ultimately show ?thesis
    using UnpublishRequest by (simp add: ControllerUnpublishVolume_def)
qed

end
text \<open>C12: while the API answers its calls, a publish or unpublish request with a volume and a node that
  exist, a supported capability and an unlocked volume succeeds and performs its operation on the
  access machine.\<close>

theorem access_available:
  assumes "policy_available (env_client v) pol (cs_linodego s) accepts"
    and "names h n a" and "accessSupported a" and "accessVolume a \<notin> vl_locks (proc_locks st)"
    and "pol (proc_world st) (handleKey h) = Some p" and "accepts (accessUpdate p n a)"
  shows "\<exists>st'. run (accessHandler s a) v st = (Inr (), st') \<and>
    applyAccess (opOf h n a) (accessOf (pol (proc_world st))) = Some (accessOf (pol (proc_world st')))"
proof -
  from policy_available.handler_runs [OF assms(1,2) refl assms(3-6)] obtain st' where
    r: "run (accessHandler s a) v st = (Inr (), st')" by blast
  have "policy_service (env_client v) pol (cs_linodego s)" using assms(1) by (simp add: policy_available_def)
  from policy_service.handler_refines [OF this r refl refl assms(2)] r show ?thesis
    by (auto simp: accessStep_def)
qed

subsection \<open>The in-memory backend\<close>

text \<open>It has one Linode, which an ACL may name once.\<close>

definition sanityAccepts :: "NFSFilesystemAccessPolicyUpdateOptions \<Rightarrow> bool" where
  "sanityAccepts o' \<longleftrightarrow> validateSanityFilesystemPolicy o' = Inr () \<and>
     find (\<lambda>n. n \<noteq> sanityNodeID) (case up_LinodeIDs o' of None \<Rightarrow> [] | Some ids \<Rightarrow> elems ids) = None"

lemma sanityPolicies_exists: "sanityPolicies w (i, j) \<noteq> None \<longleftrightarrow> (\<exists>f. filesystemLocked w i j = Inr f)"
  by (simp add: sanityPolicies_def split: sum.split)

interpretation sanity_reader: policy_reader sanityClient sanityPolicies sanityLinodego
proof
  fix i j w x w'
  assume "lc_GetNFSFilesystemInSpace sanityClient i j w = (x, w')"
  then show "sanityPolicies w' = sanityPolicies w"
    by (simp add: sanityClient_def san_GetNFSFilesystemInSpace_def)
qed

interpretation sanity_available: policy_available sanityClient sanityPolicies sanityLinodego sanityAccepts
proof
  fix w i j o' t
  assume "sanityPolicies w (i, j) \<noteq> None"
  with sanityPolicies_exists obtain f where f: "filesystemLocked w i j = Inr f" by metis
  show "\<exists>p w'. lc_GetNFSFilesystemAccessPolicy sanityClient i j w = (Inr p, w')"
    by (simp add: sanityClient_def san_GetNFSFilesystemAccessPolicy_def f)
  show "\<exists>q w'. lc_UpdateNFSFilesystemAccessPolicy sanityClient i j o' w = (Inr q, w')" if "sanityAccepts o'"
    using that
    by (simp add: sanityClient_def san_UpdateNFSFilesystemAccessPolicy_def f sanityAccepts_def Let_def)
  show "\<exists>q w'. lc_WaitForNFSFilesystemAccessPolicyStatus sanityClient t i j NFSAccessPolicyStatusActive w
      = (Inr q, w')"
    by (simp add: sanityClient_def san_WaitForNFSFilesystemAccessPolicyStatus_def f Let_def)
qed

lemma sanity_contracts:
  "policy_reader (env_client sanityEnv) sanityPolicies (cs_linodego sanityServer)"
  "policy_available (env_client sanityEnv) sanityPolicies (cs_linodego sanityServer) sanityAccepts"
  using sanity_reader.policy_reader_axioms sanity_available.policy_available_axioms
  by (simp_all add: sanityEnv_def sanityServer_def)

lemma publishReq_names: "names sanityHandle 123 (PublishRequest publishReq)"
  using accessRequests_names [THEN spec, of 0] by (simp add: accessRequests_def)

definition gotVolume :: "(goError + ControllerGetVolumeResponse) \<times> SanityWorld proc" where
  "gotVolume = run (ControllerGetVolume sanityServer ''1/10000'') sanityEnv publishedProc"

definition gotNodes :: "string list" where
  "gotNodes = (case fst gotVolume of Inl e \<Rightarrow> [] | Inr resp \<Rightarrow> gv_PublishedNodeIds resp)"

lemma gotVolume_ok: "\<exists>resp. gotVolume = (Inr resp, snd gotVolume) \<and> gotNodes = gv_PublishedNodeIds resp"
proof -
  have "(case fst gotVolume of Inl _ \<Rightarrow> False | Inr _ \<Rightarrow> True)" by code_simp
  then obtain resp where "fst gotVolume = Inr resp" by (auto split: sum.splits)
  then have "gotVolume = (Inr resp, snd gotVolume)" "gotNodes = gv_PublishedNodeIds resp"
    by (simp_all add: gotNodes_def prod_eq_iff)
  then show ?thesis by blast
qed

theorem getVolume_observes_witness:
  "\<exists>S. accessOf (sanityPolicies (proc_world publishedProc)) (1, 10000) = Some (True, S) \<and>
     set gotNodes = Itoa ` S \<and> gotNodes = [''123'']"
proof -
  have ids: "gotNodes = [''123'']" by code_simp
  have "parseVolumeHandle ''1/10000'' = Inr sanityHandle" by code_simp
  moreover from gotVolume_ok obtain resp where
    r: "run (ControllerGetVolume sanityServer ''1/10000'') sanityEnv publishedProc = (Inr resp, snd gotVolume)"
    "gotNodes = gv_PublishedNodeIds resp" by (auto simp: gotVolume_def)
  ultimately obtain b S where "accessOf (sanityPolicies (proc_world publishedProc)) (1, 10000) = Some (b, S)"
    "set gotNodes = (if b then Itoa ` S else {})"
    using getVolume_observes [OF sanity_contracts(1) r(1)] by (auto simp: handleKey_def sanityHandle_def)
  with ids show ?thesis by (cases b) auto
qed

theorem access_reported_witness: "''123'' \<in> set gotNodes"
proof -
  have "fst (run (ControllerPublishVolume sanityServer publishReq) sanityEnv createdProc) = Inr ()"
    by code_simp
  from unit_result [OF this] have r:
    "run (accessHandler sanityServer (PublishRequest publishReq)) sanityEnv createdProc = (Inr (), publishedProc)"
    by (simp add: publishedProc_def)
  from gotVolume_ok obtain resp where
    "run (ControllerGetVolume sanityServer (accessVolume (PublishRequest publishReq))) sanityEnv publishedProc
       = (Inr resp, snd gotVolume)" "gotNodes = gv_PublishedNodeIds resp"
    by (auto simp: gotVolume_def publishReq_def)
  with access_reported [OF sanity_contracts(1) publishReq_names r this(1)] have "Itoa 123 \<in> set gotNodes"
    by auto
  moreover have "Itoa 123 = ''123''" by code_simp
  ultimately show ?thesis by simp
qed

theorem access_available_witness:
  "\<exists>st'. run (ControllerPublishVolume sanityServer publishReq) sanityEnv createdProc = (Inr (), st') \<and>
     applyAccess (Grant (1, 10000) 123) (accessOf (sanityPolicies (proc_world createdProc)))
       = Some (accessOf (sanityPolicies (proc_world st')))"
proof -
  have p: "(case sanityPolicies (proc_world createdProc) (1, 10000) of None \<Rightarrow> False
      | Some p \<Rightarrow> sanityAccepts (accessUpdate p 123 (PublishRequest publishReq)))" by code_simp
  then obtain p where p: "sanityPolicies (proc_world createdProc) (handleKey sanityHandle) = Some p"
    "sanityAccepts (accessUpdate p 123 (PublishRequest publishReq))"
    by (auto simp: handleKey_def sanityHandle_def split: option.splits)
  have "accessSupported (PublishRequest publishReq)" by code_simp
  moreover have "accessVolume (PublishRequest publishReq) \<notin> vl_locks (proc_locks createdProc)" by code_simp
  ultimately show ?thesis
    using access_available [OF sanity_contracts(2) publishReq_names _ _ p]
    by (simp add: handleKey_def sanityHandle_def)
qed

end
