(* ===== verification/LockedRpcs.thy ===== *)
theory LockedRpcs
  imports Serial NodeSafety
begin

text \<open>
  Every RPC that takes a lock, of the controller and of the node plugin, is serializable with the
  others that take the same key: publish, unpublish and expand and the staging of a volume by the
  volume ID, the publishing into a pod by its target path.
\<close>

datatype lockedRequest =
    LockedPublish ControllerPublishVolumeRequest
  | LockedUnpublish ControllerUnpublishVolumeRequest
  | LockedExpand ControllerExpandVolumeRequest
  | LockedStage NodeStageVolumeRequest
  | LockedUnstage NodeUnstageVolumeRequest
  | LockedNodePublish NodePublishVolumeRequest
  | LockedNodeUnpublish NodeUnpublishVolumeRequest

datatype lockedResponse = EmptyResponse | ExpandResponse ControllerExpandVolumeResponse

primrec lockKey :: "lockedRequest \<Rightarrow> string" where
  "lockKey (LockedPublish r) = pv_VolumeId r"
| "lockKey (LockedUnpublish r) = uv_VolumeId r"
| "lockKey (LockedExpand r) = ev_VolumeId r"
| "lockKey (LockedStage r) = ns_VolumeId r"
| "lockKey (LockedUnstage r) = nus_VolumeId r"
| "lockKey (LockedNodePublish r) = np_TargetPath r"
| "lockKey (LockedNodeUnpublish r) = nup_TargetPath r"

definition respond :: "('a \<Rightarrow> 'b) \<Rightarrow> (goError + 'a) prog \<Rightarrow> (goError + 'b) prog" where
  "respond f p = bindE p (\<lambda>x. okE (f x))"

primrec lockedHandler :: "ControllerServer \<Rightarrow> NodeServer \<Rightarrow> lockedRequest \<Rightarrow> (goError + lockedResponse) prog" where
  "lockedHandler cs ns (LockedPublish r) = respond (\<lambda>_. EmptyResponse) (ControllerPublishVolume cs r)"
| "lockedHandler cs ns (LockedUnpublish r) = respond (\<lambda>_. EmptyResponse) (ControllerUnpublishVolume cs r)"
| "lockedHandler cs ns (LockedExpand r) = respond ExpandResponse (ControllerExpandVolume cs r)"
| "lockedHandler cs ns (LockedStage r) = respond (\<lambda>_. EmptyResponse) (NodeStageVolume ns r)"
| "lockedHandler cs ns (LockedUnstage r) = respond (\<lambda>_. EmptyResponse) (NodeUnstageVolume ns r)"
| "lockedHandler cs ns (LockedNodePublish r) = respond (\<lambda>_. EmptyResponse) (NodePublishVolume ns r)"
| "lockedHandler cs ns (LockedNodeUnpublish r) = respond (\<lambda>_. EmptyResponse) (NodeUnpublishVolume ns r)"

text \<open>A handler that waits for its lock or was refused still does when its result is mapped.\<close>

lemma respond_locked: "respond f (withVolumeLock key body) = withVolumeLock key (respond f body)"
proof -
  have "bindP (bindP (call (LocksRelease key)) (\<lambda>_. Ret r))
        (\<lambda>r. case r of Inl e \<Rightarrow> failE e | Inr x \<Rightarrow> okE (f x)) =
      bindP (case r of Inl e \<Rightarrow> failE e | Inr x \<Rightarrow> okE (f x)) (\<lambda>r. bindP (call (LocksRelease key)) (\<lambda>_. Ret r))"
    for r :: "goError + 'b" by (cases r) (simp_all add: comp_def)
  then show ?thesis
    by (simp add: respond_def bindE_def withVolumeLock_def bindP_assoc comp_def if_distrib fun_eq_iff)
qed

definition lockedForm :: "string \<Rightarrow> (goError + 'a) prog \<Rightarrow> bool" where
  "lockedForm key p \<longleftrightarrow> waiting key p \<or> finished p"

lemma lockedForm_respond: "lockedForm key p \<Longrightarrow> lockedForm key (respond f p)"
proof (unfold lockedForm_def, elim disjE)
  assume "waiting key p"
  then obtain body where "lockFree body" "p = withVolumeLock key body" by (auto simp: waiting_def)
  then have "waiting key (respond f p)"
    by (simp only: respond_locked) (auto simp: respond_def intro!: waitingI lockFree_intros)
  then show "waiting key (respond f p) \<or> finished (respond f p)" ..
next
  assume "finished p"
  then show "waiting key (respond f p) \<or> finished (respond f p)"
    by (auto simp: finished_def respond_def bindE_def split: sum.split)
qed

lemma lockedForm_intros:
  "lockFree body \<Longrightarrow> lockedForm key (withVolumeLock key body)" "lockedForm key (Ret r)"
  by (auto simp: lockedForm_def finished_def intro: waitingI)

lemma lockedForm_liftE: "(\<And>x. r = Inr x \<Longrightarrow> lockedForm key (g x)) \<Longrightarrow> lockedForm key (bindE (liftE r) g)"
  by (cases r) (auto intro: lockedForm_intros)

lemma lockedHandler_form: "lockedForm (lockKey r) (lockedHandler cs ns r)"
proof (cases r)
  case (LockedExpand q)
  have "lockedForm (ev_VolumeId q) (ControllerExpandVolume cs q)"
    unfolding ControllerExpandVolume_def Let_def
    by (auto intro!: lockedForm_liftE lockedForm_intros split: option.split)
  with LockedExpand show ?thesis by (simp add: lockedForm_respond)
next
  case (LockedStage q)
  have "lockedForm (ns_VolumeId q) (NodeStageVolume ns q)"
    unfolding NodeStageVolume_def by (rule lockedForm_liftE) (auto intro!: lockedForm_intros)
  with LockedStage show ?thesis by (simp add: lockedForm_respond)
next
  case (LockedPublish q)
  have "lockedForm (pv_VolumeId q) (ControllerPublishVolume cs q)"
    unfolding ControllerPublishVolume_def by (auto intro!: lockedForm_liftE lockedForm_intros)
  with LockedPublish show ?thesis by (simp add: lockedForm_respond)
qed (auto simp: ControllerUnpublishVolume_def NodeUnstageVolume_def NodePublishVolume_def
    NodeUnpublishVolume_def intro!: lockedForm_respond lockedForm_intros)


text \<open>An expansion and an unpublish at once.\<close>

definition lockedRequests :: "lockedRequest list" where
  "lockedRequests = [LockedExpand expandReq, LockedUnpublish unpublishReq]"

definition lockedRun :: "(goError + lockedResponse, SanityWorld) config" where
  "lockedRun = runSchedule nodeEnv [0, 1, 0, 0, 0]
     (map (lockedHandler sanityServer sanityNodeServer) lockedRequests, createdProc)"

lemma lockedRun_reach:
  "reach nodeEnv (map (lockedHandler sanityServer sanityNodeServer) lockedRequests, createdProc)
     (fst lockedRun, snd lockedRun)"
  unfolding prod.collapse lockedRun_def by (rule runSchedule_reach) (rule HOL.refl)

lemma lockedRun_results: "map progResult (fst lockedRun) =
    [Some (Inr (ExpandResponse expandResp)), Some (Inl (volumeBusy ''1/10000''))]"
  by code_simp

lemma lockedRun_finished:
  "fst lockedRun = [Ret (Inr (ExpandResponse expandResp)), Ret (Inl (volumeBusy ''1/10000''))]"
  using lockedRun_results by (auto simp: map_eq_Cons_conv progResult_Some)


end
