(* ===== verification/DriverFacts.thy ===== *)
theory DriverFacts
  imports Driver ControllerFacts
begin

text \<open>
  Properties of the configuration: exactly which settings start a driver, which servers and
  capabilities each role gets, that every request of the API client names the driver version, and
  that a running process reports itself ready.
\<close>

text \<open>The settings \<open>SetupLinodeDriver\<close> accepts.\<close>

definition validSetup ::
    "metadataConstructors \<Rightarrow> bool \<Rightarrow> bool \<Rightarrow> string \<Rightarrow> string \<Rightarrow> string \<Rightarrow> string \<Rightarrow> bool" where
  "validSetup mk client mounter name role kubeconfigPath accessPolicyMode \<longleftrightarrow>
     name \<noteq> [] \<and> accessPolicyMode \<in> {AccessPolicyModeSpace, AccessPolicyModeNode} \<and>
     ((role = RoleController \<and> client \<and> new_KubeNodeClient mk kubeconfigPath = None) \<or>
      (role = RoleNode \<and> mounter \<and> new_KubeNodeClient mk [] = None))"

lemma roles_distinct [simp]: "RoleController \<noteq> RoleNode" "RoleNode \<noteq> RoleController"
  by (simp_all add: RoleController_def RoleNode_def)

lemma newNodeServerCheck_iff: "newNodeServerCheck True m = (if m then Inr () else Inl errNilMounter)"
  by (simp add: newNodeServerCheck_def NewNodeServer_def)

lemma setup_Inr_iff:
  "(\<exists>d'. SetupLinodeDriver mk client mounter name version role nodeName path mode d = (Inr (), d'))
     \<longleftrightarrow> validSetup mk client mounter name role path mode"
  by (auto simp: SetupLinodeDriver_def validSetup_def newMetadataService_def setupServers_def
      NewIdentityServer_def NewControllerServer_def newNodeServerCheck_iff Let_def
      split: option.splits)

text \<open>Setting up a fresh driver succeeds exactly for a name, a known role with its dependency (the
  API client or the mounter), a known access-policy mode and a working Kubernetes client; the driver
  then has the identity server and exactly the server of its role, and the capabilities of role and
  mode. A failed setup of a fresh driver builds neither the controller nor the node server.\<close>

lemma setup_spec:
  "case SetupLinodeDriver mk client mounter name version role nodeName path mode GetLinodeDriver of
     (Inr u, d) \<Rightarrow> validSetup mk client mounter name role path mode \<and>
       ds_ids d \<and> ds_cs d = (role = RoleController) \<and> ds_ns d = (role = RoleNode) \<and>
       drv_name (ds_driver d) = name \<and> drv_metadata (ds_driver d) \<noteq> None \<and>
       drv_pluginCaps (ds_driver d) = pluginCapabilities role \<and>
       drv_controllerCaps (ds_driver d) = controllerServiceCapabilities mode \<and>
       drv_nodeCaps (ds_driver d) = nodeServiceCapabilities
   | (Inl e, d) \<Rightarrow> \<not> validSetup mk client mounter name role path mode \<and> \<not> ds_cs d \<and> \<not> ds_ns d"
  by (auto simp: SetupLinodeDriver_def validSetup_def newMetadataService_def setupServers_def
      NewIdentityServer_def NewControllerServer_def newNodeServerCheck_iff Let_def GetLinodeDriver_def
      split: option.splits)

text \<open>The user agent of the API client always contains the driver version, and a configuration
  without a user agent gets the default product with the version.\<close>

lemma userAgent_version:
  "case userAgent config of
     Inr ua \<Rightarrow> containsStr ua (cfg_DriverVersion config) \<and> cfg_DriverVersion config \<noteq> []
   | Inl e \<Rightarrow> cfg_DriverVersion config = [] \<or>
       (cfg_UserAgent config \<noteq> [] \<and> \<not> containsStr (cfg_UserAgent config) (cfg_DriverVersion config))"
proof -
  have "containsStr (defaultUserAgentProduct @ ''/'' @ x) x" for x
    unfolding containsStr_iff by (intro exI [of _ "defaultUserAgentProduct @ ''/''"] exI [of _ "[]"]) simp
  then show ?thesis by (auto simp: userAgent_def)
qed

text \<open>The driver advertises publishing and unpublishing exactly in the node access-policy mode, and
  only the controller role advertises plugin capabilities.\<close>

lemma capabilities_spec:
  "(PUBLISH_UNPUBLISH_VOLUME \<in> set (controllerServiceCapabilities mode)) = (mode = AccessPolicyModeNode) \<and>
   {CREATE_DELETE_VOLUME, GET_VOLUME, EXPAND_VOLUME} \<subseteq> set (controllerServiceCapabilities mode) \<and>
   (pluginCapabilities role = []) = (role \<noteq> RoleController)"
  by (simp add: controllerServiceCapabilities_def pluginCapabilities_def)

text \<open>\<open>Probe\<close> reports readiness once \<open>Run\<close> has set the flag, and never changes the process.\<close>

lemma probe_after_run:
  "run (bindP runDriver (\<lambda>_. Probe)) v st = (Inr True, st\<lparr>proc_ready := True\<rparr>) \<and>
   run Probe v st = (Inr (proc_ready st), st)"
  by (simp add: runDriver_def Probe_def run_simps)

end
