(* ===== verification/ProcessSetup.thy ===== *)
theory ProcessSetup
  imports DriverFacts GrpcServer
begin

text \<open>
  The construction of the Kubernetes client in \<open>internal/driver/metadata.go\<close> and the functions \<open>handle\<close> and
  \<open>main\<close> of \<open>main.go\<close>, over the client-go packages as parameters: which credentials a process uses, with
  which calls it reads nodes, which services it serves, and when it ends with which status.
\<close>

subsection \<open>The Kubernetes client\<close>

text \<open>\<open>kubernetes.Interface\<close>, as far as the driver uses it: getting one node and listing nodes with a
  limit.\<close>

record 'w kubernetesInterface =
  ki_NodesGet :: "string \<Rightarrow> 'w \<Rightarrow> (goError + KubeNode) \<times> 'w"
  ki_NodesList :: "nat \<Rightarrow> 'w \<Rightarrow> (goError + KubeNode list) \<times> 'w"

record 'w metadataKubeClient =
  mk_client :: "'w kubernetesInterface"

definition kube_GetNode :: "'w metadataKubeClient \<Rightarrow> string \<Rightarrow> 'w \<Rightarrow> (goError + KubeNode) \<times> 'w" where
  "kube_GetNode k name = ki_NodesGet (mk_client k) name"

definition kube_ListNodes :: "'w metadataKubeClient \<Rightarrow> 'w \<Rightarrow> (goError + KubeNode list) \<times> 'w" where
  "kube_ListNodes k = ki_NodesList (mk_client k) 1"

text \<open>What \<open>newKubeNodeClient\<close> uses of client-go: loading the kubeconfig file of a path, its client
  configuration, the in-cluster configuration, and the client set of a configuration.\<close>

record ('kubeconfig, 'config, 'w) clientGo =
  cg_Load :: "string \<Rightarrow> goError + 'kubeconfig"
  cg_ClientConfig :: "'kubeconfig \<Rightarrow> goError + 'config"
  cg_InClusterConfig :: "goError + 'config"
  cg_NewForConfig :: "'config \<Rightarrow> goError + 'w kubernetesInterface"

definition newKubeNodeClient ::
    "('kubeconfig, 'config, 'w) clientGo \<Rightarrow> string \<Rightarrow> goError + 'w metadataKubeClient" where
  "newKubeNodeClient cg kubeconfigPath =
     bindR
       (if kubeconfigPath \<noteq> [] then
          (case cg_Load cg kubeconfigPath of
             Inl err \<Rightarrow> Inl (Wrapf ''load kubeconfig: %w'' [] err)
           | Inr kubeconfig \<Rightarrow>
               (case cg_ClientConfig cg kubeconfig of
                  Inl err \<Rightarrow> Inl (Wrapf ''load kubeconfig: %w'' [] err)
                | Inr config \<Rightarrow> Inr config))
        else
          (case cg_InClusterConfig cg of
             Inl err \<Rightarrow> Inl (Wrapf ''in-cluster config: %w'' [] err)
           | Inr config \<Rightarrow> Inr config))
       (\<lambda>config.
          case cg_NewForConfig cg config of
            Inl err \<Rightarrow> Inl (Wrapf ''create kubernetes client: %w'' [] err)
          | Inr client \<Rightarrow> Inr \<lparr>mk_client = client\<rparr>)"

text \<open>The constructors that \<open>newMetadataService\<close> calls, over client-go and the outcome of
  \<open>newInstanceMetadataClient\<close>.\<close>

definition kubeConstructors ::
    "('kubeconfig, 'config, 'w) clientGo \<Rightarrow> goError option \<Rightarrow> metadataConstructors" where
  "kubeConstructors cg instanceClient =
     \<lparr>new_KubeNodeClient = (\<lambda>path. case newKubeNodeClient cg path of Inl err \<Rightarrow> Some err | Inr _ \<Rightarrow> None),
      new_InstanceMetadataClient = instanceClient\<rparr>"

text \<open>The metadata calls of a process with that client.\<close>

definition withKubeClient :: "'w metadataKubeClient \<Rightarrow> 'w MetadataClients \<Rightarrow> 'w MetadataClients" where
  "withKubeClient k m = m\<lparr>mc_GetNode := kube_GetNode k, mc_ListNodes := kube_ListNodes k\<rparr>"

lemma kubeConstructors_None [simp]:
  "new_KubeNodeClient (kubeConstructors cg i) path = None \<longleftrightarrow> \<not> isl (newKubeNodeClient cg path)"
  by (cases "newKubeNodeClient cg path") (simp_all add: kubeConstructors_def)

text \<open>An explicit kubeconfig never falls back to the in-cluster credentials, and a node process never
  reads a kubeconfig: the client made for a path does not depend on the in-cluster configuration,
  and the setup of a node driver depends neither on the path nor on what is in the file.\<close>

lemma kube_credentials:
  "newKubeNodeClient (cg\<lparr>cg_InClusterConfig := x\<rparr>) (c # path) = newKubeNodeClient cg (c # path) \<and>
   SetupLinodeDriver (kubeConstructors (cg\<lparr>cg_Load := load, cg_ClientConfig := conf\<rparr>) i)
     client mounter name version RoleNode nodeName path1 mode d =
   SetupLinodeDriver (kubeConstructors cg i) client mounter name version RoleNode nodeName path2 mode d"
proof
  show "newKubeNodeClient (cg\<lparr>cg_InClusterConfig := x\<rparr>) (c # path) = newKubeNodeClient cg (c # path)"
    by (simp add: newKubeNodeClient_def split: sum.split)
  have "newKubeNodeClient (cg\<lparr>cg_Load := load, cg_ClientConfig := conf\<rparr>) [] = newKubeNodeClient cg []"
    by (simp add: newKubeNodeClient_def)
  then show "SetupLinodeDriver (kubeConstructors (cg\<lparr>cg_Load := load, cg_ClientConfig := conf\<rparr>) i)
      client mounter name version RoleNode nodeName path1 mode d =
    SetupLinodeDriver (kubeConstructors cg i) client mounter name version RoleNode nodeName path2 mode d"
    by (simp add: SetupLinodeDriver_def newMetadataService_def kubeConstructors_def Let_def
        split: option.split)
qed

text \<open>Listing nodes with limit 1 loses nothing: on a cluster whose API server returns the first nodes
  up to the limit, the region discovery gives the region of the first node, or fails exactly when
  there is none or it has no region.\<close>

lemma region_of_first_node:
  assumes "\<And>limit w. ki_NodesList (mk_client k) limit w = (Inr (take limit nodes), w)"
    and "env_metadata v = withKubeClient k m" and "proc_region st = []"
  shows "fst (run Region v st) =
    (case nodes of
       [] \<Rightarrow> Inl errMetadataClusterNodes
     | n # rest \<Rightarrow> wrapNode n (regionFromNode (Some n)))"
  using assms(3)
  by (cases nodes; cases "regionFromNode (Some (hd nodes))")
    (simp_all add: run_Region assms(1,2) withKubeClient_def kube_ListNodes_def Let_def)

definition oneNodeCluster :: "SanityWorld metadataKubeClient" where
  "oneNodeCluster = \<lparr>mk_client = \<lparr>ki_NodesGet = mc_GetNode sanityMetadata,
     ki_NodesList = (\<lambda>limit w. (Inr (take limit [sanityNode, sanityNode]), w))\<rparr>\<rparr>"

theorem region_of_first_node_witness:
  "fst (run Region (sanityEnv\<lparr>env_metadata := withKubeClient oneNodeCluster sanityMetadata\<rparr>) sanityProc)
     = Inr sanityRegion"
proof -
  have "regionFromNode (Some sanityNode) = Inr sanityRegion" by code_simp
  then show ?thesis
    using region_of_first_node [of oneNodeCluster "[sanityNode, sanityNode]"
        "sanityEnv\<lparr>env_metadata := withKubeClient oneNodeCluster sanityMetadata\<rparr>" sanityMetadata sanityProc]
    by (simp add: oneNodeCluster_def sanityProc_def)
qed

subsection \<open>The process\<close>

text \<open>\<open>handle\<close>: configure, set up, run on the configured endpoint; how \<open>Run\<close> ends.\<close>

definition handle ::
    "metadataConstructors \<Rightarrow> clientConstructors \<Rightarrow> grpcEnv \<Rightarrow> (string \<Rightarrow> int option) \<Rightarrow> (string \<Rightarrow> string)
       \<Rightarrow> string \<Rightarrow> goError + driverState \<times> runOutcome" where
  "handle mk cc ge parseDuration env vendorVersion =
     (case loadConfig parseDuration env vendorVersion of (cfg, version) \<Rightarrow>
      bindR (dependenciesForRole cc cfg) (\<lambda>(role, client, mounter).
      case SetupLinodeDriver mk (client \<noteq> None) mounter Name version role (cfg_NodeName cfg)
             (cfg_KubeconfigPath cfg) (cfg_AccessPolicyMode cfg) GetLinodeDriver of
        (Inl err, d) \<Rightarrow> Inl (Wrapf ''setup driver: %w'' [] err)
      | (Inr _, d) \<Rightarrow> Inr (runServices ge (cfg_CSIEndpoint cfg) d)))"

text \<open>What becomes of the process: it exits with a status, or serves until it is killed. \<open>flag.Parse\<close> returns,
  or ends the process: with 0 when help is asked for, with 2 on an error. \<open>klog.Fatalf\<close> ends it with 255.\<close>

datatype flagOutcome = FlagsParsed | FlagsHelp | FlagsError

datatype processEnd = Exit nat | Serving "service list"

definition mainExit ::
    "goError option \<Rightarrow> flagOutcome \<Rightarrow> metadataConstructors \<Rightarrow> clientConstructors \<Rightarrow> grpcEnv
       \<Rightarrow> (string \<Rightarrow> int option) \<Rightarrow> (string \<Rightarrow> string) \<Rightarrow> string \<Rightarrow> processEnd" where
  "mainExit flagSet flags mk cc ge parseDuration env vendorVersion =
     (case flagSet of
        Some err \<Rightarrow> Exit 1
      | None \<Rightarrow>
          (case flags of
             FlagsHelp \<Rightarrow> Exit 0
           | FlagsError \<Rightarrow> Exit 2
           | FlagsParsed \<Rightarrow>
               (case handle mk cc ge parseDuration env vendorVersion of
                  Inl err \<Rightarrow> Exit 1
                | Inr (d, RunFatal) \<Rightarrow> Exit 255
                | Inr (d, RunReturned) \<Rightarrow> Exit 0
                | Inr (d, RunServing services) \<Rightarrow> Serving services)))"

subsection \<open>Properties\<close>

text \<open>The endpoints that \<open>serve\<close> listens on: a Unix socket whose path can be freed, or a TCP address.\<close>

definition listens :: "grpcEnv \<Rightarrow> string \<Rightarrow> bool" where
  "listens ge endpoint \<longleftrightarrow> (\<exists>u. ge_Parse ge endpoint = Inr u \<and>
     ((url_Scheme u = ''unix'' \<and> (\<forall>err. ge_Remove ge (url_Path u) = Some err \<longrightarrow> osIsNotExist err) \<and>
         ge_Listen ge ''unix'' (url_Path u) = None) \<or>
      (url_Scheme u = ''tcp'' \<and> ge_Listen ge ''tcp'' (url_Host u) = None)))"

lemma openListener_listens: "isl (openListener ge endpoint) \<longleftrightarrow> \<not> listens ge endpoint"
  by (cases "ge_Parse ge endpoint")
    (auto simp: openListener_def listenAddress_def listens_def split: option.splits)

lemma runServices_spec:
  "snd (runServices ge endpoint d) =
     (if listens ge endpoint \<and> \<not> ge_serveFails ge
      then RunServing [IdentityService, ControllerService, NodeService] else RunFatal)"
  by (simp add: runServices_def serverRun_spec openListener_listens registeredServices_def asInterface_def)

text \<open>The nil checks of \<open>serve\<close> never exclude a server, because \<open>Run\<close> passes pointers for
  interface values: every process that listens registers all three services. A node process set up as
  documented, which has no controller server, registers the controller service too.\<close>

lemma run_registers_all:
  "snd (runServices v endpoint d) \<in> {RunFatal, RunServing [IdentityService, ControllerService, NodeService]} \<and>
   \<not> ds_cs (snd (SetupLinodeDriver \<lparr>new_KubeNodeClient = (\<lambda>p. None), new_InstanceMetadataClient = None\<rparr>
       False True Name ''dev'' RoleNode ''node-1'' [] AccessPolicyModeSpace GetLinodeDriver))"
proof
  show "snd (runServices v endpoint d) \<in> {RunFatal, RunServing [IdentityService, ControllerService, NodeService]}"
    by (simp add: runServices_spec)
  show "\<not> ds_cs (snd (SetupLinodeDriver \<lparr>new_KubeNodeClient = (\<lambda>p. None), new_InstanceMetadataClient = None\<rparr>
       False True Name ''dev'' RoleNode ''node-1'' [] AccessPolicyModeSpace GetLinodeDriver))"
    by code_simp
qed

text \<open>The settings of an environment that bring a process up: a known access-policy mode and either the
  controller with an API token, a client and a Kubernetes client, or the node with a Kubernetes client; an
  unset role means controller and an unset mode means space.\<close>

definition startable ::
    "metadataConstructors \<Rightarrow> clientConstructors \<Rightarrow> (string \<Rightarrow> int option) \<Rightarrow> (string \<Rightarrow> string) \<Rightarrow> string \<Rightarrow> bool" where
  "startable mk cc parseDuration env version \<longleftrightarrow>
     envOrDefault env ''NFS_ACCESS_POLICY_MODE'' AccessPolicyModeSpace
       \<in> {AccessPolicyModeSpace, AccessPolicyModeNode} \<and>
     ((envOrDefault env ''DRIVER_ROLE'' RoleController = RoleController \<and> env ''LINODE_TOKEN'' \<noteq> [] \<and>
         \<not> isl (NewLinodeClient cc (Some (fst (loadConfig parseDuration env version)))) \<and>
         new_KubeNodeClient mk (env ''KUBECONFIG'') = None) \<or>
      (envOrDefault env ''DRIVER_ROLE'' RoleController = RoleNode \<and> new_KubeNodeClient mk [] = None))"

lemma handle_spec:
  "case handle mk cc ge parseDuration env version of
     Inl err \<Rightarrow> \<not> startable mk cc parseDuration env version
   | Inr (d, outcome) \<Rightarrow> startable mk cc parseDuration env version \<and>
       outcome = snd (runServices ge (envOrDefault env ''CSI_ENDPOINT'' ''unix:///csi/csi.sock'') d)"
proof -
  obtain config ver where load: "loadConfig parseDuration env version = (config, ver)" by fastforce
  have cfg: "cfg_DriverRole config = envOrDefault env ''DRIVER_ROLE'' RoleController"
    "cfg_AccessPolicyMode config = envOrDefault env ''NFS_ACCESS_POLICY_MODE'' AccessPolicyModeSpace"
    "cfg_CSIEndpoint config = envOrDefault env ''CSI_ENDPOINT'' ''unix:///csi/csi.sock''"
    "cfg_LinodeToken config = env ''LINODE_TOKEN''" "cfg_KubeconfigPath config = env ''KUBECONFIG''"
    using load by (auto simp: loadConfig_def Let_def)
  have started: "startable mk cc parseDuration env version \<longleftrightarrow>
    (\<exists>role client mounter. dependenciesForRole cc config = Inr (role, client, mounter) \<and>
       validSetup mk (client \<noteq> None) mounter Name role (cfg_KubeconfigPath config) (cfg_AccessPolicyMode config))"
    by (auto simp: startable_def dependenciesForRole_def cfg load validSetup_def Name_def split: if_splits sum.splits)
  show ?thesis
  proof (cases "dependenciesForRole cc config")
    case (Inl err)
    with started show ?thesis by (simp add: handle_def load)
  next
    case (Inr deps)
    obtain role client mounter where deps: "deps = (role, client, mounter)" by (cases deps)
    obtain x d where made: "SetupLinodeDriver mk (client \<noteq> None) mounter Name ver role (cfg_NodeName config)
        (cfg_KubeconfigPath config) (cfg_AccessPolicyMode config) GetLinodeDriver = (x, d)" by fastforce
    have "startable mk cc parseDuration env version \<longleftrightarrow> (\<exists>d'. (x, d) = (Inr (), d'))"
      unfolding started made [symmetric] setup_Inr_iff by (simp add: Inr deps)
    with Inr deps made show ?thesis
      by (cases x) (auto simp: handle_def runServices_def load cfg(3))
  qed
qed


end
