(* ===== verification/Lifecycle.thy ===== *)
theory Lifecycle
  imports CreateFacts NodeSafety
begin

text \<open>
  Where the controller and the node plugin meet: the volume ID and the volume context that
  \<open>CreateVolume\<close> returns are what the orchestrator hands to \<open>ControllerPublishVolume\<close> and
  \<open>NodeStageVolume\<close>. The context is a string map built by \<open>volumeContext\<close> on one side and read by
  \<open>nodeMountTargets\<close> on the other. The last part holds the witnesses of the region cache, which
  need a world.
\<close>

subsection \<open>What a successful CreateVolume returns\<close>

lemma finalize_volume:
  assumes "run (finalizeFilesystemVolume s f params sp) v st = (Inr vol, st')"
  shows "vol = csiVolume f (sp_MTLSMode sp) \<and> validateFilesystemMountTarget f = Inr ()"
  using assms
  by (auto simp: finalizeFilesystemVolume_def run_simps split: sum.splits prod.splits if_splits)

lemma createOrReuse_volume:
  assumes "run (createOrReuse s req params i sp found) v st = (Inr vol, st')"
  shows "\<exists>f. vol = csiVolume f (sp_MTLSMode sp) \<and> validateFilesystemMountTarget f = Inr ()"
  using assms
  by (auto simp: createOrReuse_def handleExistingFilesystem_def createFilesystem_def run_bindE
      split: sum.splits prod.splits option.splits dest!: finalize_volume)

lemma CreateVolume_volume:
  assumes "run (CreateVolume s req) v st = (Inr vol, st')"
  shows "\<exists>f mtls. vol = csiVolume f mtls \<and> validateFilesystemMountTarget f = Inr ()"
  using assms by (rule CreateVolume_stages) (use createOrReuse_volume in blast)

subsection \<open>The volume context\<close>

lemma volumeContext_get:
  "mapGet (volumeContext f mtls) volumeContextMountTarget = filesystemMountTarget f"
  "mapGet (volumeContext f mtls) volumeContextMountTargetIPs = joinStr '','' (fs_MountTargetIPs f)"
  "mapGet (volumeContext f mtls) volumeContextSpaceMTLSMode = mtls"
  by (simp_all add: volumeContext_def mapGet_def volumeContext_keys)

text \<open>What a node mounts for a filesystem: the FQDN target, or the first usable IP target.\<close>

definition mountSource :: "NFSFilesystem \<Rightarrow> string" where
  "mountSource f =
     (if filesystemMountTarget f \<noteq> [] then filesystemMountTarget f
      else firstOr [] (usableTargets (fs_MountTargetIPs f)))"

definition mountAddresses :: "NFSFilesystem \<Rightarrow> string list" where
  "mountAddresses f =
     (if filesystemMountTarget f \<noteq> [] then []
      else map mountTargetIP (usableTargets (fs_MountTargetIPs f)))"

lemma usable_join:
  assumes "\<forall>t \<in> set ts. CHR '','' \<notin> set t"
  shows "usableTargets (splitByte CHR '','' (joinStr '','' ts)) = usableTargets ts"
  using assms by (cases "ts = []") (simp_all add: split_join usableTargets_def)

lemma context_mountTargets:
  assumes "\<forall>t \<in> set (fs_MountTargetIPs f). CHR '','' \<notin> set t"
  shows "nodeMountTargets (volumeContext f mtls) = (mountSource f, mountAddresses f)"
  by (simp add: nodeMountTargets_cases volumeContext_get mountSource_def mountAddresses_def
      usable_join [OF assms] Let_def)

lemma mountSource_not_Nil:
  assumes "validateFilesystemMountTarget f = Inr ()"
  shows "mountSource f \<noteq> []"
proof (cases "filesystemMountTarget f = []")
  case True
  with assms have "\<exists>t \<in> set (fs_MountTargetIPs f). mountTargetIP t \<noteq> []"
    by (auto simp: validateFilesystemMountTarget_def split: if_splits)
  then have "usableTargets (fs_MountTargetIPs f) \<noteq> []"
    by (auto simp: usableTargets_def filter_empty_conv)
  then obtain t ts where "usableTargets (fs_MountTargetIPs f) = t # ts"
    by (cases "usableTargets (fs_MountTargetIPs f)") auto
  moreover from this have "mountTargetIP t \<noteq> []"
    using list.set_intros(1) [of t ts] by (auto simp: usableTargets_def dest!: filter_eq_ConsD)
  ultimately show ?thesis using True by (auto simp: mountSource_def firstOr_def)
qed (simp add: mountSource_def)

text \<open>The stage request of the orchestrator for a volume.\<close>

definition stageRequest ::
    "Volume \<Rightarrow> string \<Rightarrow> VolumeCapability option \<Rightarrow> NodeStageVolumeRequest" where
  "stageRequest vol path capability =
     \<lparr>ns_VolumeId = vol_VolumeId vol, ns_StagingTargetPath = path, ns_VolumeCapability = capability,
      ns_VolumeContext = vol_VolumeContext vol\<rparr>"

text \<open>C18: a volume that \<open>CreateVolume\<close> returns can be staged: with the returned ID and context the
  node plugin accepts every mount request with a staging path, provided the Space's mTLS mode is a
  known one and no mount target contains a comma, and it mounts the filesystem's FQDN target or its
  first usable IP target, never an empty source.\<close>

theorem created_volume_stages:
  assumes "run (CreateVolume s req) v st = (Inr vol, st')"
  shows "\<exists>f mtls. vol = csiVolume f mtls \<and> mountSource f \<noteq> [] \<and>
    (\<forall>path capability. path \<noteq> [] \<longrightarrow> capMount capability \<noteq> None \<longrightarrow>
       mtls = [] \<or> allowedMTLSMode mtls \<longrightarrow>
       (\<forall>t \<in> set (fs_MountTargetIPs f). CHR '','' \<notin> set t) \<longrightarrow>
       checkStageRequest (stageRequest vol path capability) = Inr (mountSource f, mountAddresses f))"
proof -
  from CreateVolume_volume [OF assms] obtain f mtls where
    vol: "vol = csiVolume f mtls" and ok: "validateFilesystemMountTarget f = Inr ()" by blast
  have "formatVolumeHandle i j \<noteq> []" for i j by (simp add: formatVolumeHandle_def)
  then have "checkStageRequest (stageRequest vol path capability) = Inr (mountSource f, mountAddresses f)"
    if "path \<noteq> []" "capMount capability \<noteq> None" "mtls = [] \<or> allowedMTLSMode mtls"
      "\<forall>t \<in> set (fs_MountTargetIPs f). CHR '','' \<notin> set t" for path capability
    using that context_mountTargets [OF that(4)] mountSource_not_Nil [OF ok]
    by (cases capability)
      (auto simp: checkStageRequest_def stageRequest_def vol csiVolume_def volumeContext_get capMount_def)
  with vol mountSource_not_Nil [OF ok] show ?thesis by blast
qed

theorem created_volume_stages_witness:
  "\<exists>f mtls. createdVolume = csiVolume f mtls \<and> mountSource f \<noteq> []"
  using created_volume_stages [OF run_created] by blast

subsection \<open>Witnesses of the region cache\<close>

theorem region_cached_witness:
  "proc_region (snd (run Region sanityEnv sanityProc)) = ''us-east'' \<and>
   run Region sanityEnv (snd (run Region sanityEnv sanityProc)) =
     (Inr ''us-east'', (snd (run Region sanityEnv sanityProc))\<lparr>proc_regionMu := False\<rparr>)"
proof -
  have "fst (run Region sanityEnv sanityProc) = Inr ''us-east''" by code_simp
  then have "run Region sanityEnv sanityProc = (Inr ''us-east'', snd (run Region sanityEnv sanityProc))"
    by (metis prod.collapse)
  from region_cached [OF this] show ?thesis by simp
qed

text \<open>A Kubernetes API that cannot list the nodes.\<close>

definition noNodesEnv :: "SanityWorld env" where
  "noNodesEnv = sanityEnv\<lparr>env_metadata := sanityMetadata\<lparr>mc_ListNodes := (\<lambda>w. (Inr [], w))\<rparr>\<rparr>"

theorem region_failure_not_cached_witness:
  "proc_region (snd (run Region noNodesEnv sanityProc)) = []"
proof -
  have "fst (run Region noNodesEnv sanityProc) = Inl errMetadataClusterNodes" by code_simp
  then have "run Region noNodesEnv sanityProc = (Inl errMetadataClusterNodes, snd (run Region noNodesEnv sanityProc))"
    by (metis prod.collapse)
  from region_failure_not_cached [OF this] show ?thesis by blast
qed

end
