(* ===== verification/VolumeQueries.thy ===== *)
theory VolumeQueries
  imports Lifecycle
begin

text \<open>
  The RPCs that only ask about a volume, \<open>ValidateVolumeCapabilities\<close> and \<open>ControllerGetVolume\<close>: what they
  confirm and report, and that they agree with what \<open>CreateVolume\<close> returned.
\<close>

lemma firstUnsupported_None: "firstUnsupported cs = None \<longleftrightarrow> list_all supportedCapability cs"
  by (induction cs) (auto simp: volumeCapabilitySupported_iff [symmetric] split: prod.split)

text \<open>The filesystem a volume ID names, as a read of the API gives it, if it can be mounted.\<close>

definition mountableAt :: "'w env \<Rightarrow> string \<Rightarrow> 'w \<Rightarrow> NFSFilesystem \<Rightarrow> 'w \<Rightarrow> bool" where
  "mountableAt v volumeID w f w' \<longleftrightarrow> (\<exists>h. parseVolumeHandle volumeID = Inr h \<and>
     lc_GetNFSFilesystemInSpace (env_client v) (vh_spaceID h) (vh_filesystemID h) w = (Inr f, w') \<and>
     validateFilesystemMountTarget f = Inr ())"

text \<open>C27: \<open>ValidateVolumeCapabilities\<close> confirms exactly the requests with at least one capability, all of
  them supported, for a volume that exists and can be mounted, and with the capabilities of the
  request; it answers with a message exactly when a capability is not supported, and then asks
  nothing of the API.\<close>

theorem validate_confirms:
  "(run (ValidateVolumeCapabilities s req) v st = (Inr (ValidateConfirmed ctx cs), st') \<longleftrightarrow>
     cs = vv_VolumeCapabilities req \<and> cs \<noteq> [] \<and> list_all supportedCapability cs \<and>
     (\<exists>f w. mountableAt v (vv_VolumeId req) (proc_world st) f w \<and> ctx = volumeContext f [] \<and>
        st' = st\<lparr>proc_world := w\<rparr>)) \<and>
   ((\<exists>m args. run (ValidateVolumeCapabilities s req) v st = (Inr (ValidateMessage m args), st')) \<longleftrightarrow>
     st' = st \<and> \<not> isl (parseVolumeHandle (vv_VolumeId req)) \<and>
     \<not> list_all supportedCapability (vv_VolumeCapabilities req))"
proof (cases "parseVolumeHandle (vv_VolumeId req)")
  case (Inl e)
  then show ?thesis by (auto simp: ValidateVolumeCapabilities_def mountableAt_def)
next
  case (Inr h)
  then have id: "vv_VolumeId req \<noteq> []" using parseVolumeHandle_Nil by auto
  show ?thesis
  proof (cases "firstUnsupported (vv_VolumeCapabilities req)")
    case None
    then have sup: "list_all supportedCapability (vv_VolumeCapabilities req)"
      by (simp add: firstUnsupported_None)
    show ?thesis using Inr id None sup
      by (auto simp: ValidateVolumeCapabilities_def mountableAt_def run_simps
          split: prod.splits sum.splits)
  next
    case (Some m)
    then have "\<not> list_all supportedCapability (vv_VolumeCapabilities req)"
      by (simp add: firstUnsupported_None [symmetric])
    moreover from Some have "vv_VolumeCapabilities req \<noteq> []" by auto
    ultimately show ?thesis using Inr id Some
      by (auto simp: ValidateVolumeCapabilities_def split: prod.splits)
  qed
qed

text \<open>A volume that \<open>CreateVolume\<close> returned is confirmed: with supported capabilities
  \<open>ValidateVolumeCapabilities\<close> succeeds on its ID and returns the context of the same filesystem.\<close>

lemma created_volume_confirmed:
  assumes "filesystem_store v (cs_linodego s) fss good labelled" and "good (proc_world st)"
    and "run (CreateVolume s req) v st = (Inr vol, st')"
    and "\<And>i j f. fss (proc_world st') (i, j) = Some f \<Longrightarrow> int_range i \<and> int_range j \<and>
      fst (lc_GetNFSFilesystemInSpace (env_client v) i j (proc_world st')) = Inr f"
    and "vv_VolumeId q = vol_VolumeId vol" and "vv_VolumeCapabilities q \<noteq> []"
    and "list_all supportedCapability (vv_VolumeCapabilities q)"
  shows "\<exists>f mtls. vol = csiVolume f mtls \<and>
    fst (run (ValidateVolumeCapabilities s q) v st') =
      Inr (ValidateConfirmed (volumeContext f []) (vv_VolumeCapabilities q))"
proof -
  from filesystem_store.CreateVolume_ok [OF assms(1,3) refl assms(2)] obtain i f mtls where
    vol: "vol = csiVolume f mtls" and f: "fs_SpaceID f = i" "validateFilesystemMountTarget f = Inr ()"
      "fss (proc_world st') (i, fs_ID f) = Some f"
    by (auto simp: volumePost_def)
  from assms(4) [OF f(3)] obtain w where r: "int_range i" "int_range (fs_ID f)"
    "lc_GetNFSFilesystemInSpace (env_client v) i (fs_ID f) (proc_world st') = (Inr f, w)"
    by (metis prod.collapse)
  then have h: "parseVolumeHandle (vv_VolumeId q) = Inr \<lparr>vh_spaceID = i, vh_filesystemID = fs_ID f\<rparr>"
    using assms(5) f(1) by (simp add: vol csiVolume_def parse_format_volume)
  then have "vv_VolumeId q \<noteq> []" using parseVolumeHandle_Nil by auto
  moreover have "firstUnsupported (vv_VolumeCapabilities q) = None"
    using assms(7) by (simp add: firstUnsupported_None)
  ultimately have "fst (run (ValidateVolumeCapabilities s q) v st') =
      Inr (ValidateConfirmed (volumeContext f []) (vv_VolumeCapabilities q))"
    using h r(3) f(2) assms(6) by (simp add: ValidateVolumeCapabilities_def run_simps)
  with vol show ?thesis by blast
qed

definition validateReq :: ValidateVolumeCapabilitiesRequest where
  "validateReq = \<lparr>vv_VolumeId = ''1/10000'', vv_VolumeCapabilities = [mountCap]\<rparr>"

theorem created_volume_confirmed_witness:
  "\<exists>ctx. fst (run (ValidateVolumeCapabilities sanityServer validateReq) sanityEnv createdProc) =
     Inr (ValidateConfirmed ctx [mountCap])"
proof -
  have keys: "map fst (sw_filesystems (proc_world createdProc)) = [10000]" by code_simp
  have "int_range i \<and> int_range j \<and>
      fst (lc_GetNFSFilesystemInSpace (env_client sanityEnv) i j (proc_world createdProc)) = Inr f"
    if "sanityFilesystems (proc_world createdProc) (i, j) = Some f" for i j f
  proof -
    have good: "sanityGood (proc_world createdProc)"
      using filesystem_store.CreateVolume_ok [OF sanityServer_store run_created refl sanityGood_initial] by blast
    from that have i: "i = fakeSanitySpaceID" and "map_of (sw_filesystems (proc_world createdProc)) j = Some f"
      by (auto simp: sanityFilesystems_def split: if_splits)
    then have "j \<in> set (map fst (sw_filesystems (proc_world createdProc)))"
      by (auto dest: map_of_SomeD simp: image_iff intro!: bexI)
    then have "j = 10000" unfolding keys by simp
    moreover have "fst (lc_GetNFSFilesystemInSpace (env_client sanityEnv) i j (proc_world createdProc)) = Inr f"
      using filesystemLocked_good [OF good] that
      by (simp add: sanityEnv_def sanityClient_def san_GetNFSFilesystemInSpace_def)
    ultimately show ?thesis using i by (simp add: int_range_def fakeSanitySpaceID_def)
  qed
  moreover have "vv_VolumeId validateReq = vol_VolumeId createdVolume"
    by (simp add: validateReq_def createdVolume_def)
  moreover have "list_all supportedCapability (vv_VolumeCapabilities validateReq)" by code_simp
  ultimately show ?thesis
    using created_volume_confirmed [OF sanityServer_store sanityGood_initial run_created, of validateReq]
    by (fastforce simp: validateReq_def)
qed

end
