(* ===== verification/RpcTypes.thy ===== *)
theory RpcTypes
  imports Progress
begin

text \<open>
  The error type of every RPC. A judgement \<open>answers p R\<close> assigns to an interaction program a set of
  results that holds every result some path of it can end with, whatever the calls answer; it is
  kept by every call a handler performs (subject reduction), so it types the answers of concurrent
  handlers. Each RPC is typed with the gRPC codes its errors may carry (\<open>rpcCodes\<close>): no error of
  the API, of Kubernetes or of the host reaches a client unmapped.
\<close>

subsection \<open>The judgement\<close>

inductive answers :: "'a prog \<Rightarrow> 'a set \<Rightarrow> bool" where
  answers_Ret: "x \<in> R \<Longrightarrow> answers (Ret x) R"
| answers_Do: "(\<And>p. p \<in> set_eff e \<Longrightarrow> answers p R) \<Longrightarrow> answers (Do e) R"

declare answers.intros [intro]

inductive_cases answers_DoE: "answers (Do e) R"
inductive_simps answers_Ret_iff [simp]: "answers (Ret x) R"

lemma answers_UNIV [simp]: "answers p UNIV"
  by (induction p) auto

lemma answers_mono: "answers p R \<Longrightarrow> R \<subseteq> S \<Longrightarrow> answers p S"
  by (induction rule: answers.induct) auto

lemma answers_bindP:
  assumes "answers p S" and "\<And>x. x \<in> S \<Longrightarrow> answers (f x) R"
  shows "answers (bindP p f) R"
  using assms by (induction p S rule: answers.induct) (auto intro!: answers_Do simp: eff.set_map)

text \<open>Results whose error, if any, carries one of the codes.\<close>

definition fails :: "code set \<Rightarrow> (goError + 'a) set" where
  "fails C = {r. case r of Inl e \<Rightarrow> statusCode e \<in> C | Inr x \<Rightarrow> True}"

lemma fails_simps [simp]: "Inl e \<in> fails C \<longleftrightarrow> statusCode e \<in> C" "Inr x \<in> fails C"
  by (simp_all add: fails_def)

named_theorems typing \<open>typing rules for the errors of a program\<close>

lemma fails_okE [typing]: "answers (okE x) (fails C)"
  by simp

lemma fails_failE [typing]: "statusCode e \<in> C \<Longrightarrow> answers (failE e) (fails C)"
  by simp

lemma fails_liftE [typing]: "r \<in> fails C \<Longrightarrow> answers (liftE r) (fails C)"
  by simp

lemma fails_any [typing]: "(\<And>x. answers (f x) (fails C)) \<Longrightarrow> answers (bindP p f) (fails C)"
  by (rule answers_bindP [where S = UNIV]) auto

lemma fails_bindE [typing]:
  "answers p (fails C) \<Longrightarrow> (\<And>x. answers (f x) (fails C)) \<Longrightarrow> answers (bindE p f) (fails C)"
  unfolding bindE_def by (erule answers_bindP) (auto split: sum.split)

lemma fails_mapErr [typing]: "(\<And>e. statusCode (h e) \<in> C) \<Longrightarrow> answers (mapErr h p) (fails C)"
  unfolding mapErr_def by (rule fails_any) (auto split: sum.split)

lemma fails_locked [typing]:
  assumes "answers body (fails C)" and "Aborted \<in> C"
  shows "answers (withVolumeLock key body) (fails C)"
proof -
  have "answers (bindP (call (LocksRelease key)) (\<lambda>_. Ret r)) (fails C)" if "r \<in> fails C" for r
    by (rule answers_bindP [OF answers_UNIV]) (simp add: that)
  with assms have "answers (bindP body (\<lambda>r. bindP (call (LocksRelease key)) (\<lambda>_. Ret r))) (fails C)"
    by (intro answers_bindP [OF assms(1)])
  with assms(2) show ?thesis unfolding withVolumeLock_def by (intro fails_any) simp
qed

lemma fails_outcome:
  "answers p (fails C) \<Longrightarrow> answers (outcome p) {r. case r of None \<Rightarrow> True | Some e \<Rightarrow> statusCode e \<in> C}"
  unfolding outcome_def by (erule answers_bindP) (auto split: sum.split)

subsection \<open>Errors of the pure steps\<close>

lemma bindR_fails: "r \<in> fails C \<Longrightarrow> (\<And>x. f x \<in> fails C) \<Longrightarrow> bindR r f \<in> fails C"
  by (cases r) auto

lemma parse_fails [typing]:
  "InvalidArgument \<in> C \<Longrightarrow> parseVolumeHandle v \<in> fails C"
  "InvalidArgument \<in> C \<Longrightarrow> parseVolumeHandleAndNodeID v n \<in> fails C"
  "InvalidArgument \<in> C \<Longrightarrow> capabilityError c \<in> fails C"
  "InvalidArgument \<in> C \<Longrightarrow> checkStageRequest sreq \<in> fails C"
proof -
  assume C: "InvalidArgument \<in> C"
  show *: "parseVolumeHandle v \<in> fails C" for v
    using C by (auto simp: parseVolumeHandle_def Let_def split: list.split sum.split)
  show "parseVolumeHandleAndNodeID v n \<in> fails C"
    using C * by (auto simp: parseVolumeHandleAndNodeID_def intro!: bindR_fails split: sum.split)
  show "capabilityError c \<in> fails C"
    using C by (auto simp: capabilityError_def split: prod.split)
  show "checkStageRequest sreq \<in> fails C"
    using C by (auto simp: checkStageRequest_def go_errors Let_def split: prod.split)
qed

lemma parameter_fails:
  "InvalidArgument \<in> C \<Longrightarrow> parseCreateVolumeParameters params \<in> fails C"
  by (auto simp: parseCreateVolumeParameters_def parseSpaceID_def parseSquash_def Let_def
      intro!: bindR_fails split: sum.split prod.split)

lemma capabilities_fails: "InvalidArgument \<in> C \<Longrightarrow> checkCapabilities cs \<in> fails C"
  by (induction cs) (auto intro!: bindR_fails typing)

lemma create_check_fails [typing]:
  "{InvalidArgument, NotFound, Unimplemented} \<subseteq> C \<Longrightarrow> checkCreateRequest req \<in> fails C"
  by (auto simp: checkCreateRequest_def validateCreateVolumeCapabilities_def go_errors
      parseSnapshotContentSource_def
      intro!: bindR_fails parameter_fails capabilities_fails
      split: option.split sum.split VolumeContentSource.split)

lemma existing_fails [typing]:
  "FailedPrecondition \<in> C \<Longrightarrow> validateFilesystemMountTarget f \<in> fails C"
  "AlreadyExists \<in> C \<Longrightarrow> checkSource f source region \<in> fails C"
  "AlreadyExists \<in> C \<Longrightarrow> validateExistingFilesystemCapacity f r \<in> fails C"
  "AlreadyExists \<in> C \<Longrightarrow> validateExistingFilesystem f params \<in> fails C"
  "Internal \<in> C \<Longrightarrow> listOptionsForExactFields lg exact \<in> fails C"
  by (auto simp: validateFilesystemMountTarget_def checkSource_def validateExistingSnapshotClone_def
      validateExistingFilesystemCapacity_def validateExistingFilesystem_def
      listOptionsForExactFields_def Let_def split: option.split sum.split)

subsection \<open>Errors of the Linode API\<close>

definition linodeCodes :: "code list" where
  "linodeCodes = [InvalidArgument, PermissionDenied, FailedPrecondition, Unavailable, Internal]"

definition waitCodes :: "code list" where
  "waitCodes = [Canceled, DeadlineExceeded, NotFound] @ linodeCodes"

lemma code_sets:
  "set linodeCodes = {InvalidArgument, PermissionDenied, FailedPrecondition, Unavailable, Internal}"
  "set waitCodes = {Canceled, DeadlineExceeded, NotFound} \<union> set linodeCodes"
  by (auto simp: linodeCodes_def waitCodes_def)

definition within :: "code list \<Rightarrow> code set \<Rightarrow> bool" where
  "within cs C \<longleftrightarrow> set cs \<subseteq> C"

lemma within_simps [simp]:
  "within linodeCodes C \<longleftrightarrow> InvalidArgument \<in> C \<and> PermissionDenied \<in> C \<and> FailedPrecondition \<in> C \<and>
     Unavailable \<in> C \<and> Internal \<in> C"
  "within waitCodes C \<longleftrightarrow> Canceled \<in> C \<and> DeadlineExceeded \<in> C \<and> NotFound \<in> C \<and> within linodeCodes C"
  by (auto simp: within_def code_sets)

lemma linodeError_codes [typing]:
  "within linodeCodes C \<Longrightarrow> NotFound \<in> C \<Longrightarrow> statusCode (linodeError lg e m) \<in> C"
  using linodeError_form [of lg e m] by auto

lemma linodeError_found:
  "\<not> IsNotFound lg e \<Longrightarrow> within linodeCodes C \<Longrightarrow> statusCode (linodeError lg e m) \<in> C"
  by (auto simp: linodeError_def Let_def)

lemma linodeWaitError_codes [typing]:
  "within waitCodes C \<Longrightarrow> statusCode (linodeWaitError lg e m) \<in> C"
  using linodeError_codes [of C lg e m] by (auto simp: linodeWaitError_def)


subsection \<open>Errors of the handlers\<close>

lemma create_steps_fail [typing]:
  assumes "within waitCodes C" and "AlreadyExists \<in> C"
  shows "answers (resolveSpace s params) (fails C)"
    "answers (findExistingFilesystem s i label region) (fails C)"
    "answers (getSpaceAccessPolicy s i) (fails C)"
    "answers (handleExistingFilesystem s f params space cr src) (fails C)"
    "answers (createFilesystem s i label params space c) (fails C)"
proof -
  note codes = assms [simplified]
  have squash: "answers (setInitialSquashPolicy s i j sp) (fails C)" for i j sp
    using codes by (auto simp: setInitialSquashPolicy_def waitForFilesystemAccessPolicyActive_def
        intro!: typing split: prod.split)
  have final: "answers (finalizeFilesystemVolume s f params space) (fails C)" for f
    using codes squash by (auto simp: finalizeFilesystemVolume_def intro!: typing)
  show "answers (handleExistingFilesystem s f params space cr src) (fails C)"
    using codes by (auto simp: handleExistingFilesystem_def intro!: typing final)
  show "answers (createFilesystem s i label params space c) (fails C)"
    using codes by (auto simp: createFilesystem_def intro!: typing final)
  show "answers (resolveSpace s params) (fails C)"
    "answers (findExistingFilesystem s i label region) (fails C)"
    "answers (getSpaceAccessPolicy s i) (fails C)"
    using codes by (auto simp: resolveSpace_def findExistingFilesystem_def getSpaceAccessPolicy_def
        intro!: typing split: list.split option.split)
qed

lemma waiting_fails [typing]:
  "within waitCodes C \<Longrightarrow> answers (waitForFilesystemAccessPolicyActive s i j) (fails C)"
  "within waitCodes C \<Longrightarrow> answers (updatePolicyAndWait s h opts) (fails C)"
  by (auto simp: waitForFilesystemAccessPolicyActive_def updatePolicyAndWait_def intro!: typing)

text \<open>The policy lookup hands the errors of the API on; its callers map them.\<close>

lemma publish_fails [typing]:
  "within waitCodes C \<Longrightarrow> answers (publishLocked s preq) (fails C)"
  "within waitCodes C \<Longrightarrow> answers (unpublishLocked s ureq) (fails C)"
  by (auto simp: publishLocked_def unpublishLocked_def Let_def intro!: typing split: sum.split)

lemma expand_fails [typing]:
  "within linodeCodes C \<Longrightarrow> NotFound \<in> C \<Longrightarrow> answers (expandLocked s h r l c) (fails C)"
  by (auto simp: expandLocked_def intro!: typing split: option.split)

lemma delete_fails [typing]:
  "within linodeCodes C \<Longrightarrow> answers (DeleteVolume s volumeID) (fails C)"
  by (auto simp: DeleteVolume_def go_errors simp del: bindP.simps(2)
      intro!: fails_any fails_okE fails_failE linodeError_found split: sum.split option.split)

lemma node_steps_fail [typing]:
  assumes "Internal \<in> C"
  shows "answers (ensureMountPoint path) (fails C)"
    "answers (mountStage sreq source opts) (fails C)"
    "answers (cleanupAt path msg) (fails C)"
  using assms by (auto simp: ensureMountPoint_def mountStage_def cleanupAt_def go_errors
      simp del: bindP.simps(2) intro!: typing split: option.split prod.split)

lemma node_bodies_fail [typing]:
  assumes "Internal \<in> C"
  shows "answers (stageLocked sreq source ips) (fails C)"
    "answers (nodePublishLocked nreq) (fails C)"
  using assms by (auto simp: stageLocked_def nodeStageVolume_def nodePublishLocked_def
      nodePublishVolume_def Let_def go_errors
      simp del: bindP.simps(2) intro!: typing split: option.split)

subsection \<open>The error type of an RPC\<close>

text \<open>A retried deletion never reports a missing file system, and no node RPC but the statistics does.\<close>

primrec rpcCodes :: "rpc \<Rightarrow> code list" where
  "rpcCodes (RpcCreateVolume r) = [AlreadyExists, Unimplemented] @ waitCodes"
| "rpcCodes (RpcDeleteVolume r) = linodeCodes"
| "rpcCodes (RpcPublishVolume r) = Aborted # waitCodes"
| "rpcCodes (RpcUnpublishVolume r) = Aborted # waitCodes"
| "rpcCodes (RpcValidateCapabilities r) = NotFound # linodeCodes"
| "rpcCodes (RpcExpandVolume r) = [Aborted, NotFound] @ linodeCodes"
| "rpcCodes (RpcGetVolume r) = NotFound # linodeCodes"
| "rpcCodes (RpcNodeStage r) = [InvalidArgument, Aborted, Internal]"
| "rpcCodes (RpcNodeUnstage r) = [InvalidArgument, Aborted, Internal]"
| "rpcCodes (RpcNodePublish r) = [InvalidArgument, Aborted, Internal]"
| "rpcCodes (RpcNodeUnpublish r) = [InvalidArgument, Aborted, Internal]"
| "rpcCodes (RpcNodeStats r) = [InvalidArgument, NotFound, Internal]"
| "rpcCodes RpcNodeInfo = [Internal]"

definition typedAnswer :: "rpc \<Rightarrow> goError option \<Rightarrow> bool" where
  "typedAnswer r a \<longleftrightarrow> (case a of None \<Rightarrow> True | Some e \<Rightarrow> statusCode e \<in> set (rpcCodes r))"

lemma outcome_typed:
  "answers p (fails (set (rpcCodes r))) \<Longrightarrow> answers (outcome p) {a. typedAnswer r a}"
  unfolding typedAnswer_def by (rule fails_outcome)

lemma serveRpc_typed: "answers (serveRpc cs ns r) {a. typedAnswer r a}"
  by (cases r) (auto simp: CreateVolume_def ControllerPublishVolume_def
      ControllerUnpublishVolume_def ValidateVolumeCapabilities_def ControllerExpandVolume_def
      ControllerGetVolume_def NodeStageVolume_def NodeUnstageVolume_def NodePublishVolume_def
      NodeUnpublishVolume_def NodeGetVolumeStats_def NodeGetInfo_def go_errors Let_def
      code_sets simp del: bindP.simps(2)
      intro!: outcome_typed typing split: sum.split option.split prod.split)

subsection \<open>Subject reduction\<close>

lemma answers_step:
  "answers (Do e) R \<Longrightarrow> step v e st = (p, st') \<Longrightarrow> answers p R"
  using step_set [of v e st] by (auto elim: answers_DoE)

lemma answers_cstep:
  assumes "cstep v c c'" and "list_all2 (\<lambda>p R. answers p R) (fst c) Rs"
  shows "list_all2 (\<lambda>p R. answers p R) (fst c') Rs"
  using assms(1)
proof cases
  case (perform i ts e st p st')
  from assms(2) perform(1) have all: "list_all2 (\<lambda>p R. answers p R) ts Rs" by simp
  with perform(3) have i: "i < length Rs" by (simp add: list_all2_lengthD)
  from all perform(3,4) have "answers (Do e) (Rs ! i)" by (auto dest: list_all2_nthD)
  from answers_step [OF this perform(6)] all
  have "list_all2 (\<lambda>p R. answers p R) (ts[i := p]) (Rs[i := Rs ! i])"
    by (rule list_all2_update_cong [rotated])
  with perform(2) show ?thesis by simp
qed

lemma answers_reach:
  "reach v c c' \<Longrightarrow> list_all2 (\<lambda>p R. answers p R) (fst c) Rs \<Longrightarrow>
     list_all2 (\<lambda>p R. answers p R) (fst c') Rs"
  by (induction rule: reach.induct) (auto intro: answers_cstep)

text \<open>C11: every answer is well typed: when any requests to the controller and the node service are handled
  concurrently, an error a handler returns carries a gRPC code of its RPC, whatever the API,
  Kubernetes and the host answered. In particular no error reaches a client as OK or Unknown, a
  deletion never fails for a missing file system, and only requests under a volume lock are
  Aborted.\<close>

theorem rpc_error_type:
  assumes "reach v (map (serveRpc cs ns) reqs, st) (ts, st')" and "i < length reqs"
    and "ts ! i = Ret (Some e)"
  shows "statusCode e \<in> set (rpcCodes (reqs ! i)) \<and> statusCode e \<notin> {OK, Unknown}"
proof -
  have "list_all2 (\<lambda>p R. answers p R) (map (serveRpc cs ns) reqs) (map (\<lambda>r. {a. typedAnswer r a}) reqs)"
    by (simp add: list_all2_conv_all_nth serveRpc_typed)
  with answers_reach [OF assms(1)]
  have "list_all2 (\<lambda>p R. answers p R) ts (map (\<lambda>r. {a. typedAnswer r a}) reqs)" by simp
  then have "answers (ts ! i) {a. typedAnswer (reqs ! i) a}"
    using assms(2) by (auto dest: list_all2_nthD2)
  with assms(3) have "statusCode e \<in> set (rpcCodes (reqs ! i))" by (simp add: typedAnswer_def)
  then show ?thesis by (cases "reqs ! i") (auto simp: code_sets)
qed

text \<open>Two publications of one volume at once: the second one finds the lock taken.\<close>

definition twoPublishes :: "(goError option, SanityWorld) config" where
  "twoPublishes =
     (map (serveRpc sanityServer sanityNodeServer) [RpcPublishVolume publishReq, RpcPublishVolume publishReq],
      createdProc)"

theorem rpc_error_type_witness:
  "\<exists>e. progResult (fst (runSchedule sanityEnv [0, 1] twoPublishes) ! 1) = Some (Some e) \<and>
     statusCode e = Aborted \<and> statusCode e \<in> set (rpcCodes (RpcPublishVolume publishReq))"
proof -
  let ?c = "runSchedule sanityEnv [0, 1] twoPublishes"
  have r: "reach sanityEnv twoPublishes (fst ?c, snd ?c)"
    unfolding prod.collapse by (rule runSchedule_reach) (rule HOL.refl)
  have "map_option (map_option statusCode) (progResult (fst ?c ! 1)) = Some (Some Aborted)" by code_simp
  then obtain e where e: "progResult (fst ?c ! 1) = Some (Some e)" "statusCode e = Aborted" by auto
  then have "fst ?c ! 1 = Ret (Some e)" by (cases "fst ?c ! 1") auto
  from rpc_error_type [OF r [unfolded twoPublishes_def] _ this [unfolded twoPublishes_def]] e
  show ?thesis unfolding twoPublishes_def by (intro exI [of _ e]) simp
qed

subsection \<open>The interceptor\<close>

text \<open>Every RPC runs inside \<open>logGRPC\<close>. What it logs, in the order it logs it, and the result of the handler
  that it hands on.\<close>

datatype ('q, 'r) grpcLog =
    GrpcCall string
  | GrpcRequest string 'q
  | GrpcError goError string
  | GrpcResponse string 'r

definition logGRPC ::
    "string \<Rightarrow> ('q \<Rightarrow> (goError + 'r) prog) \<Rightarrow> 'q \<Rightarrow> ((goError + 'r) \<times> ('q, 'r) grpcLog list) prog" where
  "logGRPC method handler req =
     bindP (handler req) (\<lambda>r.
       case r of
         Inl err \<Rightarrow> Ret (Inl err, [GrpcCall method, GrpcRequest method req, GrpcError err method])
       | Inr resp \<Rightarrow> Ret (Inr resp, [GrpcCall method, GrpcRequest method req, GrpcResponse method resp]))"

text \<open>It changes no result and no state, and logs an error exactly when it returns one; the typing of the
  errors carries over to the intercepted handler.\<close>

lemma logGRPC_run:
  "run (logGRPC method handler req) v s =
     (case run (handler req) v s of (r, s') \<Rightarrow>
        ((r, [GrpcCall method, GrpcRequest method req,
              (case r of Inl err \<Rightarrow> GrpcError err method | Inr resp \<Rightarrow> GrpcResponse method resp)]), s'))"
  by (simp add: logGRPC_def run_bindP split: prod.split sum.split)

lemma logGRPC_answers:
  "answers (handler req) (fails C) \<Longrightarrow> answers (logGRPC method handler req) (fails C \<times> UNIV)"
  unfolding logGRPC_def by (erule answers_bindP) (auto split: sum.split)

end
