(* ===== verification/VolumeLife.thy ===== *)
theory VolumeLife
  imports Lifecycle
begin

text \<open>
  The life of a volume: creating and deleting it leaves no filesystem behind, staging and publishing it
  and going back leaves no mount behind, over the contracts of the API and of the host. The last part is
  what the mounter of the sanity suite reports about a published volume: the paths that share a source.
\<close>

subsection \<open>Creating and deleting\<close>

text \<open>C17: creating a volume and deleting it again leaves no filesystem behind: when no filesystem has the
  label of the request and both requests succeed, exactly one filesystem is there in between, under
  the ID of the volume, and at the end the filesystems are those of the beginning. (The IDs the API assigns
  fit Go's \<open>int\<close>.)\<close>

theorem create_delete_roundtrip:
  assumes "filesystem_store v (cs_linodego s) fss good labelled" and "good (proc_world s0)"
    and create: "run (CreateVolume s req) v s0 = (Inr vol, s1)"
    and delete: "run (DeleteVolume s (vol_VolumeId vol)) v s1 = (Inr (), s2)"
    and fresh: "\<And>k g. fss (proc_world s0) k = Some g \<Longrightarrow> fs_Label g \<noteq> volumeLabel s (cv_Name req)"
    and ids: "\<And>i j g. fss (proc_world s1) (i, j) = Some g \<Longrightarrow> int_range i \<and> int_range j"
  shows "(\<exists>i j f. vol_VolumeId vol = formatVolumeHandle i j \<and> fss (proc_world s0) (i, j) = None \<and>
      fss (proc_world s1) = (fss (proc_world s0))((i, j) \<mapsto> f)) \<and>
    fss (proc_world s2) = fss (proc_world s0)"
proof -
  from filesystem_store.CreateVolume_ok [OF assms(1) create refl assms(2)] obtain i f mtls params where
    "checkCreateRequest req = Inr params" and vol: "vol = csiVolume f mtls" and good: "good (proc_world s1)" and
    post: "volumePost (fss (proc_world s0)) (fss (proc_world s1)) i (volumeLabel s (cv_Name req))
      (proc_region s1) (elems (par_tags params)) f" and
    old: "case fss (proc_world s0) (i, fs_ID f) of
        None \<Rightarrow> fs_MaxCapacityBytes f = requestedCapacityBytes (cv_CapacityRange req)
      | Some g \<Rightarrow> sameFilesystem g f \<and> validateExistingFilesystemCapacity f (cv_CapacityRange req) = Inr ()"
    by blast
  from post have f: "fs_SpaceID f = i" "fs_Label f = volumeLabel s (cv_Name req)"
    "fss (proc_world s1) = (fss (proc_world s0))((i, fs_ID f) \<mapsto> f)" by (auto simp: volumePost_def)
  have new: "fss (proc_world s0) (i, fs_ID f) = None"
    using old f(2) fresh [of "(i, fs_ID f)"] by (auto simp: sameFilesystem_def split: option.splits)
  have "parseVolumeHandle (vol_VolumeId vol) = Inr \<lparr>vh_spaceID = i, vh_filesystemID = fs_ID f\<rparr>"
    using parse_format_volume [of i "fs_ID f"] ids [of i "fs_ID f"] f by (simp add: vol csiVolume_def)
  with delete_effect [OF assms(1) good delete] have "fss (proc_world s2) = fss (proc_world s0)"
    using new f(3) by (auto simp: handleKey_def)
  with new f show ?thesis by (auto simp: vol csiVolume_def)
qed

theorem create_delete_roundtrip_witness:
  "sanityFilesystems (proc_world (snd (run (DeleteVolume sanityServer ''1/10000'') sanityEnv createdProc))) =
     sanityFilesystems (proc_world sanityProc)"
proof -
  let ?s2 = "snd (run (DeleteVolume sanityServer ''1/10000'') sanityEnv createdProc)"
  have "fst (run (DeleteVolume sanityServer ''1/10000'') sanityEnv createdProc) = Inr ()" by code_simp
  then have d: "run (DeleteVolume sanityServer (vol_VolumeId createdVolume)) sanityEnv createdProc = (Inr (), ?s2)"
    by (simp add: createdVolume_def) (metis prod.collapse)
  have none: "sanityFilesystems (proc_world sanityProc) k = None" for k
    by (cases k) (simp add: sanityFilesystems_def sanityProc_def newFakeSanityLinodeClient_def)
  then have fresh: "fs_Label g \<noteq> volumeLabel sanityServer (cv_Name createReq)"
    if "sanityFilesystems (proc_world sanityProc) k = Some g" for k g using that by simp
  have "map fst (sw_filesystems (proc_world createdProc)) = [10000]" by code_simp
  then have "int_range i \<and> int_range j" if "sanityFilesystems (proc_world createdProc) (i, j) = Some g" for i j g
    using that by (auto simp: sanityFilesystems_def int_range_def fakeSanitySpaceID_def
        dest!: map_of_SomeD split: if_splits) 
  note ids = this
  show ?thesis
    by (rule conjunct2 [OF create_delete_roundtrip [OF sanityServer_store sanityGood_initial run_created d]])
      (erule fresh, erule ids)
qed

subsection \<open>Staging, publishing and back\<close>

lemma node_unstage_effect:
  assumes "mount_host (env_host v) canon mounts" and "run (NodeUnstageVolume s ureq) v st = (Inr (), st')"
  shows "mounts (proc_world st') = (mounts (proc_world st))(canon (nus_StagingTargetPath ureq) := None)"
proof -
  obtain preq q st'' where p: "run (NodeUnpublishVolume s preq) v st = (q, st'')" by (metis prod.collapse)
  from node_unmount_effect [OF assms p] show ?thesis by (auto simp: fun_eq_iff)
qed

lemma node_unpublish_effect:
  assumes "mount_host (env_host v) canon mounts" and "run (NodeUnpublishVolume s preq) v st = (Inr (), st')"
  shows "mounts (proc_world st') = (mounts (proc_world st))(canon (nup_TargetPath preq) := None)"
proof -
  obtain ureq q st'' where u: "run (NodeUnstageVolume s ureq) v st = (q, st'')" by (metis prod.collapse)
  from node_unmount_effect [OF assms(1) u assms(2)] show ?thesis by (auto simp: fun_eq_iff)
qed

text \<open>C20: the life of a volume on a node leaves no mount behind: when a volume is staged and published at
  two unmounted paths, and unpublished and unstaged again, all successfully, then in between the staging path
  carries an NFS mount the request calls for, the target path binds it, no other mount differs, and at
  the end the mounts are those of the beginning.\<close>

theorem node_roundtrip:
  assumes "mount_host (env_host v) canon mounts"
    and stage: "run (NodeStageVolume s sreq) v s0 = (Inr (), s1)"
    and publish: "run (NodePublishVolume s preq) v s1 = (Inr (), s2)"
    and unpublish: "run (NodeUnpublishVolume s upreq) v s2 = (Inr (), s3)"
    and unstage: "run (NodeUnstageVolume s usreq) v s3 = (Inr (), s4)"
    and paths: "np_StagingTargetPath preq = ns_StagingTargetPath sreq"
      "nup_TargetPath upreq = np_TargetPath preq" "nus_StagingTargetPath usreq = ns_StagingTargetPath sreq"
      "canon (np_TargetPath preq) \<noteq> canon (ns_StagingTargetPath sreq)"
    and free: "mounts (proc_world s0) (canon (ns_StagingTargetPath sreq)) = None"
      "mounts (proc_world s0) (canon (np_TargetPath preq)) = None"
  shows "(\<exists>source ips m. checkStageRequest sreq = Inr (source, ips) \<and> m \<in> stageMounts sreq source ips \<and>
      mounts (proc_world s2) = (mounts (proc_world s0))
        (canon (ns_StagingTargetPath sreq) \<mapsto> m,
         canon (np_TargetPath preq) \<mapsto> (ns_StagingTargetPath sreq, nfsFilesystemType, publishOptions preq))) \<and>
    mounts (proc_world s4) = mounts (proc_world s0)"
proof -
  from stage_effect [OF assms(1) stage] free(1) obtain source ips m where
    m: "checkStageRequest sreq = Inr (source, ips)" "m \<in> stageMounts sreq source ips"
    "mounts (proc_world s1) = (mounts (proc_world s0))(canon (ns_StagingTargetPath sreq) \<mapsto> m)" by auto
  with node_publish_effect [OF assms(1) publish] free(2) paths have
    p: "mounts (proc_world s2) = (mounts (proc_world s1))
      (canon (np_TargetPath preq) \<mapsto> (ns_StagingTargetPath sreq, nfsFilesystemType, publishOptions preq))"
    by auto
  have "mounts (proc_world s4) = mounts (proc_world s0)"
    unfolding node_unstage_effect [OF assms(1) unstage] node_unpublish_effect [OF assms(1) unpublish] p m(3)
    using free paths by auto
  moreover have "mounts (proc_world s2) = (mounts (proc_world s0))
        (canon (ns_StagingTargetPath sreq) \<mapsto> m,
         canon (np_TargetPath preq) \<mapsto> (ns_StagingTargetPath sreq, nfsFilesystemType, publishOptions preq))"
    using p m(3) by simp
  ultimately show ?thesis using m(1,2) by blast
qed

text \<open>On the host of the sanity suite.\<close>

definition unpublishedProc :: "SanityWorld proc" where
  "unpublishedProc = snd (run (NodeUnpublishVolume sanityNodeServer nodeUnpublishReq) nodeEnv nodePublishedProc)"

theorem node_roundtrip_witness:
  "fakeTable (proc_world (snd (run (NodeUnstageVolume sanityNodeServer unstageReq) nodeEnv unpublishedProc))) =
     fakeTable (proc_world sanityProc)"
proof -
  have "fst (run (NodeStageVolume sanityNodeServer mtlsStageReq) nodeEnv sanityProc) = Inr ()" by code_simp
  from unit_result [OF this] have
    1: "run (NodeStageVolume sanityNodeServer mtlsStageReq) nodeEnv sanityProc = (Inr (), stagedProc)"
    by (simp add: stagedProc_def)
  have "fst (run (NodePublishVolume sanityNodeServer nodePublishReq) nodeEnv stagedProc) = Inr ()" by code_simp
  from unit_result [OF this] have
    2: "run (NodePublishVolume sanityNodeServer nodePublishReq) nodeEnv stagedProc = (Inr (), nodePublishedProc)"
    by (simp add: nodePublishedProc_def)
  have "fst (run (NodeUnpublishVolume sanityNodeServer nodeUnpublishReq) nodeEnv nodePublishedProc) = Inr ()"
    by code_simp
  from unit_result [OF this] have
    3: "run (NodeUnpublishVolume sanityNodeServer nodeUnpublishReq) nodeEnv nodePublishedProc = (Inr (), unpublishedProc)"
    by (simp add: unpublishedProc_def)
  have "fst (run (NodeUnstageVolume sanityNodeServer unstageReq) nodeEnv unpublishedProc) = Inr ()" by code_simp
  note 4 = unit_result [OF this]
  from node_roundtrip [OF nodeEnv_host 1 2 3 4] show ?thesis
    by (simp add: nodePublishReq_def mtlsStageReq_def nodeUnpublishReq_def unstageReq_def sanityProc_def
        newFakeSanityLinodeClient_def fakeTable_def)
qed

subsection \<open>The references of a mount\<close>

text \<open>C38: \<open>GetMountRefs\<close> of the suite's mounter: when the chain of sources of a path ends in an unmounted source,
  the references are, sorted and without repetition, exactly the other mounted paths whose chain ends
  in the same source. The chain is followed also where mounts form a cycle elsewhere in the table.\<close>

theorem mount_refs_spec:
  assumes "(mountEdge w)\<^sup>*\<^sup>* (Clean path) source" and "fakeTable w source = None"
  shows "\<exists>refs. fake_GetMountRefs path w = (Inr refs, w) \<and> sorted refs \<and> distinct refs \<and>
    (\<forall>target. target \<in> set refs \<longleftrightarrow>
       fakeTable w target \<noteq> None \<and> target \<noteq> Clean path \<and> (mountEdge w)\<^sup>*\<^sup>* target source)"
proof -
  have root: "mountRoot w (Clean path) = source" using assms mountRoot_final by blast
  have "mountRoot w target = source \<longleftrightarrow> (mountEdge w)\<^sup>*\<^sup>* target source" for target
    using assms(2) mountRoot_final by blast
  moreover have "target \<in> fst ` set (fm_mounts w) \<longleftrightarrow> fakeTable w target \<noteq> None" for target
    by (auto simp: fakeTable_def map_of_eq_None_iff)
  ultimately show ?thesis
    by (auto simp: fake_GetMountRefs_def Let_def root mountPaths_def intro!: sorted_wrt_filter)
qed

text \<open>A published volume: the bind mount refers to the staging path, that to the NFS source.\<close>

lemma mountEdge_table: "mountEdge w p q \<longleftrightarrow> (\<exists>m. fakeTable w p = Some (q, m))"
  by (auto simp: mountEdge_def fakeTable_def)

theorem mount_refs_spec_witness:
  "\<exists>refs. fake_GetMountRefs ''/staging/'' (proc_world nodePublishedProc) = (Inr refs, proc_world nodePublishedProc) \<and>
     ''/target'' \<in> set refs"
proof -
  let ?w = "proc_world nodePublishedProc"
  have "map_option fst (fakeTable ?w ''/staging'') = Some ''nfs.example:/vol''" by code_simp
  then have e1: "mountEdge ?w ''/staging'' ''nfs.example:/vol''" by (auto simp: mountEdge_table)
  have "map_option fst (fakeTable ?w ''/target'') = Some ''/staging''" by code_simp
  then have e2: "mountEdge ?w ''/target'' ''/staging''" by (auto simp: mountEdge_table)
  have clean: "Clean ''/staging/'' = ''/staging''" by code_simp
  have unmounted: "fakeTable ?w ''nfs.example:/vol'' = None" by code_simp
  have "(mountEdge ?w)\<^sup>*\<^sup>* (Clean ''/staging/'') ''nfs.example:/vol''"
    unfolding clean using e1 by (rule r_into_rtranclp)
  from mount_refs_spec [OF this unmounted] obtain refs where
    refs: "fake_GetMountRefs ''/staging/'' ?w = (Inr refs, ?w)"
    "''/target'' \<in> set refs \<longleftrightarrow> fakeTable ?w ''/target'' \<noteq> None \<and> ''/target'' \<noteq> Clean ''/staging/'' \<and>
       (mountEdge ?w)\<^sup>*\<^sup>* ''/target'' ''nfs.example:/vol''"
    by blast
  moreover have "(mountEdge ?w)\<^sup>*\<^sup>* ''/target'' ''nfs.example:/vol''"
    using e1 e2 by (meson converse_rtranclp_into_rtranclp rtranclp.rtrancl_refl)
  moreover have "fakeTable ?w ''/target'' \<noteq> None" using e2 by (auto simp: mountEdge_table)
  ultimately show ?thesis by (auto simp: clean)
qed

end
