(* ===== verification/RelyGuarantee.thy ===== *)
theory RelyGuarantee
  imports Interleaving
begin

text \<open>
  A rely-guarantee rule for interaction programs. A program is judged against a preorder on process states
  that every other handler keeps between two of its calls, and that it keeps itself with every call; its
  results then satisfy a postcondition that no later step of another handler can break. Programs so judged
  one by one may be run concurrently in any number: the preorder relates the first state of a run to each
  later one, and every result satisfies its postcondition at the end.
\<close>

subsection \<open>The judgement\<close>

definition preorder :: "('w proc \<Rightarrow> 'w proc \<Rightarrow> bool) \<Rightarrow> bool" where
  "preorder R \<longleftrightarrow> reflp R \<and> transp R"

lemma preorderD: "preorder R \<Longrightarrow> R st st" "preorder R \<Longrightarrow> R a b \<Longrightarrow> R b c \<Longrightarrow> R a c"
  by (auto simp: preorder_def dest: reflpD transpD)

inductive sat ::
    "'w env \<Rightarrow> ('w proc \<Rightarrow> 'w proc \<Rightarrow> bool) \<Rightarrow> ('a \<Rightarrow> 'w proc \<Rightarrow> bool) \<Rightarrow> 'a prog \<Rightarrow> 'w proc \<Rightarrow> bool"
  for v R Q where
  result: "(\<And>st'. R st st' \<Longrightarrow> Q a st') \<Longrightarrow> sat v R Q (Ret a) st"
| perform: "(\<And>st1 p st2. R st st1 \<Longrightarrow> canStep e st1 \<Longrightarrow> step v e st1 = (p, st2) \<Longrightarrow> R st1 st2) \<Longrightarrow>
    (\<And>st1 p st2. R st st1 \<Longrightarrow> canStep e st1 \<Longrightarrow> step v e st1 = (p, st2) \<Longrightarrow> sat v R Q p st2) \<Longrightarrow>
    sat v R Q (Do e) st"

inductive_simps sat_Ret: "sat v R Q (Ret a) st"
inductive_cases sat_DoE: "sat v R Q (Do e) st"

lemma sat_result: "preorder R \<Longrightarrow> sat v R Q (Ret a) st \<Longrightarrow> Q a st"
  by (simp add: preorderD sat_Ret)

lemma sat_later: "sat v R Q p st \<Longrightarrow> preorder R \<Longrightarrow> R st st' \<Longrightarrow> sat v R Q p st'"
  by (erule sat.cases) (blast intro: sat.intros dest: preorderD(2))+

text \<open>A postcondition may be weakened, knowing that the state is a later one.\<close>

lemma sat_mono:
  "sat v R P p st \<Longrightarrow> preorder R \<Longrightarrow> (\<And>a st'. P a st' \<Longrightarrow> R st st' \<Longrightarrow> Q a st') \<Longrightarrow> sat v R Q p st"
proof (induction rule: sat.induct)
  case (perform st e)
  show ?case
  proof (rule sat.perform)
    fix st1 p st2
    assume s: "R st st1" "canStep e st1" "step v e st1 = (p, st2)"
    show "R st1 st2" by (rule perform.hyps(1) [OF s])
    with s(1) have "R st st2" using preorderD(2) [OF perform.prems(1)] by blast
    then show "sat v R Q p st2"
      using perform.prems preorderD(2) [OF perform.prems(1)] by (intro perform.IH [OF s]) blast+
  qed
qed (auto intro: sat.result)

lemma step_bindP:
  "step v (map_eff (\<lambda>p. bindP p f) e) st = (q, st') \<Longrightarrow> \<exists>p. step v e st = (p, st') \<and> q = bindP p f"
  by (cases "step v e st") (auto simp: step_map)

lemma canStep_map [simp]: "canStep (map_eff f e) st = canStep e st"
  by (cases e) simp_all

lemma sat_bindP:
  "sat v R P p st \<Longrightarrow> preorder R \<Longrightarrow> (\<And>a st'. P a st' \<Longrightarrow> R st st' \<Longrightarrow> sat v R Q (f a) st') \<Longrightarrow>
     sat v R Q (bindP p f) st"
proof (induction rule: sat.induct)
  case (perform st e)
  show ?case
    unfolding bindP.simps
  proof (rule sat.perform)
    fix st1 q st2
    assume r: "R st st1" "canStep (map_eff (\<lambda>p. bindP p f) e) st1"
      "step v (map_eff (\<lambda>p. bindP p f) e) st1 = (q, st2)"
    from step_bindP [OF r(3)] obtain p where p: "step v e st1 = (p, st2)" "q = bindP p f" by blast
    have s: "R st st1" "canStep e st1" "step v e st1 = (p, st2)" using r p by simp_all
    show "R st1 st2" by (rule perform.hyps(1) [OF s])
    with s(1) have "R st st2" using preorderD(2) [OF perform.prems(1)] by blast
    then show "sat v R Q q st2"
      unfolding p(2) using perform.prems preorderD(2) [OF perform.prems(1)] by (intro perform.IH [OF s]) blast+
  qed
qed (auto simp: preorderD)

lemma sat_bindE:
  assumes p: "sat v R P p st" and pre: "preorder R"
    and "\<And>a st'. P (Inr a) st' \<Longrightarrow> R st st' \<Longrightarrow> sat v R Q (f a) st'"
    and "\<And>e st'. P (Inl e) st' \<Longrightarrow> R st st' \<Longrightarrow> sat v R Q (Ret (Inl e)) st'"
  shows "sat v R Q (bindE p f) st"
  unfolding bindE_def by (rule sat_bindP [OF p pre]) (auto intro: assms(3,4) split: sum.split)

lemma sat_mapErr:
  assumes p: "sat v R P p st" and pre: "preorder R"
    and "\<And>a st'. P (Inr a) st' \<Longrightarrow> R st st' \<Longrightarrow> sat v R Q (Ret (Inr a)) st'"
    and "\<And>e st'. P (Inl e) st' \<Longrightarrow> R st st' \<Longrightarrow> sat v R Q (Ret (Inl (h e))) st'"
  shows "sat v R Q (mapErr h p) st"
  unfolding mapErr_def by (rule sat_bindP [OF p pre]) (auto intro: assms(3,4) split: sum.split)

subsection \<open>Concurrent programs\<close>

lemma sat_step:
  assumes "cstep v (ts, st) (ts', st')" and "preorder R" and "\<And>i. i < length ts \<Longrightarrow> sat v R (Q i) (ts ! i) st"
  shows "R st st' \<and> length ts' = length ts \<and> (\<forall>i < length ts'. sat v R (Q i) (ts' ! i) st')"
proof -
  from assms(1) obtain i e p where i: "i < length ts" "ts ! i = Do e" "canStep e st" "step v e st = (p, st')"
    and ts': "ts' = ts[i := p]" by (auto elim: cstepE)
  from assms(3) [OF i(1)] i have "R st st'" "sat v R (Q i) p st'"
    using preorderD(1) [OF assms(2), of st] by (auto elim: sat_DoE)
  moreover have "sat v R (Q j) (ts' ! j) st'" if "j < length ts'" for j
  proof (cases "j = i")
    case True
    with that i(1) \<open>sat v R (Q i) p st'\<close> show ?thesis by (simp add: ts')
  next
    case False
    with that sat_later [OF assms(3) assms(2) \<open>R st st'\<close>, of j] show ?thesis by (simp add: ts')
  qed
  ultimately show ?thesis by (simp add: ts')
qed

lemma sat_concurrent:
  assumes "reach v c c'" and "preorder R" and "\<And>i. i < length (fst c) \<Longrightarrow> sat v R (Q i) (fst c ! i) (snd c)"
  shows "R (snd c) (snd c') \<and> length (fst c') = length (fst c) \<and>
    (\<forall>i < length (fst c'). sat v R (Q i) (fst c' ! i) (snd c'))"
  using assms
proof (induction rule: reach.induct)
  case here
  then show ?case by (simp add: preorderD)
next
  case (onward c' c'')
  obtain ts st ts' st' where c: "c' = (ts, st)" "c'' = (ts', st')" by fastforce
  from onward have ih: "R (snd c) st" "length ts = length (fst c)" "\<And>i. i < length ts \<Longrightarrow> sat v R (Q i) (ts ! i) st"
    by (auto simp: c)
  from sat_step [OF onward.hyps(2) [unfolded c] assms(2) ih(3)] ih(1,2) show ?case
    using preorderD(2) [OF assms(2)] by (auto simp: c)
qed

subsection \<open>Programs of one call\<close>

text \<open>What is known of a run alone of a program that makes one call at most is known of it anywhere.\<close>

definition oneCall :: "'a prog \<Rightarrow> bool" where
  "oneCall p \<longleftrightarrow> (case p of Ret a \<Rightarrow> True | Do e \<Rightarrow> \<forall>q \<in> set_eff e. finished q)"

lemma oneCall_Ret [simp, intro]: "oneCall (Ret a)"
  by (simp add: oneCall_def)

lemma finished_Ret [simp]: "finished (Ret a)"
  by (simp add: finished_def)

lemma oneCall_Do [simp]: "oneCall (Do e) \<longleftrightarrow> (\<forall>q \<in> set_eff e. finished q)"
  by (simp add: oneCall_def)

lemma oneCall_bindP: "oneCall p \<Longrightarrow> (\<And>a. finished (f a)) \<Longrightarrow> oneCall (bindP p f)"
proof (cases p)
  case (Ret a)
  assume "\<And>a. finished (f a)"
  then obtain b where "f a = Ret b" by (auto simp: finished_def)
  with Ret show ?thesis by simp
next
  case (Do e)
  assume "oneCall p" and "\<And>a. finished (f a)"
  with Do show ?thesis by (fastforce simp: oneCall_def eff.set_map finished_def)
qed

lemma oneCall_bindE: "oneCall p \<Longrightarrow> (\<And>a. finished (f a)) \<Longrightarrow> oneCall (bindE p f)"
  unfolding bindE_def by (rule oneCall_bindP) (auto simp: finished_def split: sum.split)

lemma oneCall_mapErr: "oneCall p \<Longrightarrow> oneCall (mapErr h p)"
  unfolding mapErr_def by (rule oneCall_bindP) (auto simp: finished_def split: sum.split)

lemma oneCall_liftE: "(\<And>a. oneCall (f a)) \<Longrightarrow> oneCall (bindE (liftE r) f)"
  by (cases r) simp_all

lemma sat_oneCall:
  assumes "oneCall p" and pre: "preorder R"
    and run: "\<And>st1 r st2. R st st1 \<Longrightarrow> run p v st1 = (r, st2) \<Longrightarrow> R st1 st2"
    and post: "\<And>st1 r st2 st3. R st st1 \<Longrightarrow> run p v st1 = (r, st2) \<Longrightarrow> R st2 st3 \<Longrightarrow> Q r st3"
  shows "sat v R Q p st"
proof (cases p)
  case (Ret a)
  with post preorderD(1) [OF pre] show ?thesis by (auto intro: sat.result)
next
  case (Do e)
  show ?thesis
    unfolding Do
  proof (rule sat.perform)
    fix st1 q st2
    assume s: "R st st1" "canStep e st1" "step v e st1 = (q, st2)"
    have "q \<in> set_eff e" using step_set [of v e st1] s(3) by simp
    with assms(1) Do obtain a where q: "q = Ret a" by (auto simp: oneCall_def finished_def)
    with s(3) Do have "run p v st1 = (a, st2)" by (simp add: run_Do)
    with run post s(1) q show "R st1 st2" "sat v R Q q st2" by (auto intro: sat.result)
  qed
qed

end
