(* ===== verification/VolumeSpec.thy ===== *)
theory VolumeSpec
  imports Serial CreateFacts
begin

text \<open>
  What the controller promises about the existence of volumes, as an abstract machine: a catalogue of volumes,
  each with its label, region, tags and capacity, where a volume is provisioned under a label nothing else
  in its space and region has, or found there. Sequences of \<open>CreateVolume\<close> and \<open>DeleteVolume\<close> requests refine
  the machine over the contract of the API, so that what holds of the machine holds of the controller: labels stay
  unique, and equal requests get equal volumes.
\<close>

subsection \<open>The abstract machine\<close>

type_synonym volumeInfo = "string \<times> string \<times> string list \<times> int"
type_synonym catalogue = "int \<times> int \<Rightarrow> volumeInfo option"

text \<open>To provision a volume of a label, region, tags and capacity in a space; to remove a volume; to
  refuse a request; and to ignore one.\<close>

datatype volumeOp =
    Provision int string string "string list" "CapacityRange option"
  | Deprovision "int \<times> int"
  | Refuse
  | Ignore

definition unused :: "catalogue \<Rightarrow> int \<Rightarrow> string \<Rightarrow> string \<Rightarrow> bool" where
  "unused A i l rg \<longleftrightarrow> (\<forall>j tags c. A (i, j) \<noteq> Some (l, rg, tags, c))"

definition fits :: "CapacityRange option \<Rightarrow> int \<Rightarrow> bool" where
  "fits r c \<longleftrightarrow> c = 0 \<or> (getRequiredBytes r \<le> c \<and> (getLimitBytes r = 0 \<or> c \<le> getLimitBytes r))"

text \<open>A provisioning that succeeds names the new volume or the one that was there; it may fail after the volume
  has been made, as when the API does not finish it in time. The response is the volume ID.\<close>

inductive volumeStep :: "volumeOp \<Rightarrow> goError + string \<Rightarrow> catalogue \<Rightarrow> catalogue \<Rightarrow> bool" where
  found: "A (i, j) = Some (l, rg, tags, c) \<Longrightarrow> fits r c \<Longrightarrow>
    volumeStep (Provision i l rg tags r) (Inr (formatVolumeHandle i j)) A A"
| made: "A (i, j) = None \<Longrightarrow> unused A i l rg \<Longrightarrow>
    volumeStep (Provision i l rg tags r) (Inr (formatVolumeHandle i j)) A
      (A((i, j) \<mapsto> (l, rg, tags, requestedCapacityBytes r)))"
| half_made: "A (i, j) = None \<Longrightarrow> unused A i l rg \<Longrightarrow>
    volumeStep (Provision i l rg tags r) (Inl e) A
      (A((i, j) \<mapsto> (l, rg, tags, requestedCapacityBytes r)))"
| removed: "volumeStep (Deprovision k) (Inr x) A (A(k := None))"
| not_removed: "volumeStep (Deprovision k) (Inl e) A A"
| refused: "volumeStep Refuse (Inl e) A A"
| ignored: "volumeStep Ignore x A A"

inductive_cases provisionE: "volumeStep (Provision i l rg tags r) x A A'"
inductive_cases otherE:
  "volumeStep (Deprovision k) x A A'" "volumeStep Refuse x A A'" "volumeStep Ignore x A A'"

inductive volumeTrace :: "volumeOp list \<Rightarrow> (goError + string) list \<Rightarrow> catalogue \<Rightarrow> catalogue \<Rightarrow> bool" where
  stop: "volumeTrace [] [] A A"
| request: "volumeStep op x A A1 \<Longrightarrow> volumeTrace ops xs A1 A' \<Longrightarrow> volumeTrace (op # ops) (x # xs) A A'"

inductive_cases volumeTrace_NilE: "volumeTrace [] xs A A'"
inductive_cases volumeTrace_ConsE: "volumeTrace (op # ops) xs A A'"

subsection \<open>What holds of the machine\<close>

definition uniqueLabels :: "catalogue \<Rightarrow> bool" where
  "uniqueLabels A \<longleftrightarrow> (\<forall>i j k l rg tags tags' c c'.
     A (i, j) = Some (l, rg, tags, c) \<longrightarrow> A (i, k) = Some (l, rg, tags', c') \<longrightarrow> j = k)"

lemma unique_upd: "uniqueLabels A \<Longrightarrow> unused A i l rg \<Longrightarrow> uniqueLabels (A((i, j) \<mapsto> (l, rg, tags, c)))"
  by (auto simp: uniqueLabels_def unused_def)

lemma unique_remove: "uniqueLabels A \<Longrightarrow> uniqueLabels (A(k := None))"
  by (auto simp: uniqueLabels_def)

lemma unique_step: "volumeStep op x A A' \<Longrightarrow> uniqueLabels A \<Longrightarrow> uniqueLabels A'"
  by (induction rule: volumeStep.induct) (simp_all add: unique_upd unique_remove)

lemma unique_trace: "volumeTrace ops xs A A' \<Longrightarrow> uniqueLabels A \<Longrightarrow> uniqueLabels A'"
  by (induction rule: volumeTrace.induct) (auto dest: unique_step)

lemma uniqueLabelsD:
  "uniqueLabels A \<Longrightarrow> A (i, j) = Some (l, rg, tags, c) \<Longrightarrow> A (i, k) = Some (l, rg, tags', c') \<Longrightarrow> j = k"
  unfolding uniqueLabels_def by blast

lemma unique_resize:
  assumes "uniqueLabels A" and "A (i, j) = Some (l, a, tags, c)"
  shows "uniqueLabels (A((i, j) \<mapsto> (l, a, tags', c')))"
  unfolding uniqueLabels_def
  using uniqueLabelsD [OF assms] uniqueLabelsD [OF assms(1)] by (auto split: if_splits)

text \<open>A volume stays where it is until it is removed.\<close>

lemma kept_step:
  "volumeStep op x A A' \<Longrightarrow> A k = Some info \<Longrightarrow> op \<noteq> Deprovision k \<Longrightarrow> A' k = Some info"
  by (induction rule: volumeStep.induct) auto

lemma kept_trace:
  "volumeTrace ops xs A A' \<Longrightarrow> A k = Some info \<Longrightarrow> Deprovision k \<notin> set ops \<Longrightarrow> A' k = Some info"
  by (induction rule: volumeTrace.induct) (auto dest: kept_step)

text \<open>A provisioning that succeeds leaves the volume it names under its label.\<close>

lemma provisioned_step:
  assumes "volumeStep (Provision i l rg tags r) (Inr x) A A'"
  shows "\<exists>j c. x = formatVolumeHandle i j \<and> A' (i, j) = Some (l, rg, tags, c)"
  using assms by (auto elim!: provisionE)

text \<open>Once a volume of a label is there, a provisioning under that label yields it.\<close>

lemma provisioned_again:
  assumes "volumeStep (Provision i l rg tags r) (Inr x) A A'" and "A (i, j) = Some (l, rg, tags', c)"
    and "uniqueLabels A"
  shows "x = formatVolumeHandle i j"
  using assms by (auto elim!: provisionE simp: unused_def dest: uniqueLabelsD)

subsection \<open>The abstraction\<close>

definition volumeInfo :: "NFSFilesystem \<Rightarrow> volumeInfo" where
  "volumeInfo f = (fs_Label f, fs_Region f, fs_Tags f, fs_MaxCapacityBytes f)"

definition volumesOf :: "(int \<times> int \<Rightarrow> NFSFilesystem option) \<Rightarrow> catalogue" where
  "volumesOf t k = map_option volumeInfo (t k)"

lemma volumesOf_upd: "volumesOf (t(k \<mapsto> f)) = (volumesOf t)(k \<mapsto> volumeInfo f)"
  by (simp add: volumesOf_def fun_eq_iff)

lemma volumesOf_remove: "volumesOf (t(k := None)) = (volumesOf t)(k := None)"
  by (simp add: volumesOf_def fun_eq_iff)

lemma volumesOf_same: "t k = Some g \<Longrightarrow> sameFilesystem g f \<Longrightarrow> volumesOf (t(k \<mapsto> f)) = volumesOf t"
  by (auto simp: volumesOf_def fun_eq_iff volumeInfo_def sameFilesystem_def)

text \<open>The requests of the machine, with the volume ID as their response.\<close>

datatype volumeRequest = CreateRequest CreateVolumeRequest | DeleteRequest string

primrec volumeHandler :: "ControllerServer \<Rightarrow> volumeRequest \<Rightarrow> (goError + string) prog" where
  "volumeHandler s (CreateRequest q) = bindE (CreateVolume s q) (\<lambda>vol. okE (vol_VolumeId vol))"
| "volumeHandler s (DeleteRequest volumeID) = bindE (DeleteVolume s volumeID) (\<lambda>_. okE volumeID)"

text \<open>The operation of a request: the space is the one the parameters name, the region the one of the cluster.\<close>

inductive opFor ::
    "ControllerServer \<Rightarrow> (string \<Rightarrow> int set) \<Rightarrow> string \<Rightarrow> volumeRequest \<Rightarrow> volumeOp \<Rightarrow> bool"
  for s labelled rg where
  provision: "checkCreateRequest q = Inr params \<Longrightarrow> spaceMatches labelled params i \<Longrightarrow>
    opFor s labelled rg (CreateRequest q)
      (Provision i (volumeLabel s (cv_Name q)) rg (elems (par_tags params)) (cv_CapacityRange q))"
| refuse: "opFor s labelled rg (CreateRequest q) Refuse"
| remove: "parseVolumeHandle volumeID = Inr h \<Longrightarrow>
    opFor s labelled rg (DeleteRequest volumeID) (Deprovision (handleKey h))"
| ignore: "parseVolumeHandle volumeID = Inl e \<Longrightarrow> opFor s labelled rg (DeleteRequest volumeID) Ignore"

subsection \<open>The steps of the controller\<close>

text \<open>What \<open>CreateVolume\<close> does once the region is known.\<close>

definition inRegion :: "ControllerServer \<Rightarrow> CreateVolumeRequest \<Rightarrow> createVolumeParameters \<Rightarrow> (goError + Volume) prog" where
  "inRegion s req params =
     bindE (resolveSpace s params) (\<lambda>space.
     bindE (getSpaceAccessPolicy s (space_ID space)) (\<lambda>sp.
     bindE (findExistingFilesystem s (space_ID space) (volumeLabel s (cv_Name req)) (par_region params)) (\<lambda>found.
     createOrReuse s req params (space_ID space) sp found)))"

lemma CreateVolume_inRegion:
  "CreateVolume s req =
     bindE (liftE (checkCreateRequest req)) (\<lambda>params.
     bindE (mapErr (\<lambda>err. StatusError FailedPrecondition ''resolve region: %v'' [AErr err]) Region) (\<lambda>region.
     inRegion s req (params\<lparr>par_region := region\<rparr>)))"
  by (simp add: CreateVolume_def inRegion_def createOrReuse_def Let_def)

context filesystem_store
begin

text \<open>What a step of a creation that makes no volume keeps.\<close>

definition sameVolumes :: "'w proc \<Rightarrow> 'w proc \<Rightarrow> bool" where
  "sameVolumes st st' \<longleftrightarrow> proc_region st' = proc_region st \<and>
     (good (proc_world st) \<longrightarrow> good (proc_world st') \<and>
        volumesOf (fss (proc_world st')) = volumesOf (fss (proc_world st)))"

lemma sameVolumes_rel [simp]: "reflp sameVolumes" "transp sameVolumes"
  by (auto simp: sameVolumes_def intro: reflpI transpI)

lemma sameVolumes_frame: "keeps v (procFrame good fss) p \<Longrightarrow> keeps v sameVolumes p"
  by (auto simp: keeps_def procFrame_def frame_def sameVolumes_def)

lemma sameVolumes_wait:
  "keeps v sameVolumes (call (WaitForNFSFilesystemStatus t i j NFSFilesystemStatusActive))"
proof -
  have "good w' \<and> volumesOf (fss w') = volumesOf (fss w)"
    if "lc_WaitForNFSFilesystemStatus (env_client v) t i j NFSFilesystemStatusActive w = (x, w')" "good w"
    for w x w'
    using wait_filesystem [OF that(2,1)] by (auto simp: volumesOf_same split: sum.splits)
  then show ?thesis by (auto simp: keeps_def sameVolumes_def run_simps split: prod.splits)
qed

lemma sameVolumes_existing: "keeps v sameVolumes (handleExistingFilesystem s f params sp cr src)"
  unfolding handleExistingFilesystem_def
  by (intro keeps_intros sameVolumes_rel sameVolumes_wait sameVolumes_frame [OF frame_finalize])

text \<open>Creating: the volume is new, or nothing has changed.\<close>

definition madeVolume ::
    "int \<Rightarrow> string \<Rightarrow> string \<Rightarrow> string list \<Rightarrow> int \<Rightarrow> 'w proc \<Rightarrow> 'w proc \<Rightarrow> bool" where
  "madeVolume i l rg tags c st st' \<longleftrightarrow>
     (\<exists>j. volumesOf (fss (proc_world st)) (i, j) = None \<and> unused (volumesOf (fss (proc_world st))) i l rg \<and>
        volumesOf (fss (proc_world st')) = (volumesOf (fss (proc_world st)))((i, j) \<mapsto> (l, rg, tags, c)))"

lemma madeVolume_same:
  "fss (proc_world st1) = fss (proc_world st) \<Longrightarrow> madeVolume i l rg tags c st1 st' = madeVolume i l rg tags c st st'"
  by (simp add: madeVolume_def)

lemma create_steps:
  assumes r: "run (createFilesystem s i label params sp cap) v st = (r, st')"
    and good: "good (proc_world st)"
    and none: "\<forall>j f. fss (proc_world st) (i, j) = Some f \<longrightarrow> fs_Label f = label \<longrightarrow> fs_Region f \<noteq> par_region params"
  shows "good (proc_world st') \<and> proc_region st' = proc_region st \<and>
    (volumesOf (fss (proc_world st')) = volumesOf (fss (proc_world st)) \<or>
     madeVolume i label (par_region params) (elems (par_tags params)) cap st st')"
proof -
  obtain c w1 where
    c: "lc_CreateNFSFilesystem (env_client v) i (createOptions label params cap) (proc_world st) = (c, w1)"
    by fastforce
  note created = create [OF good c]
  show ?thesis
  proof (cases c)
    case (Inl e)
    with r c created show ?thesis
      by (auto simp: createFilesystem_def run_bindE run_mapErr run_Do onWorld_def)
  next
    case (Inr f)
    let ?rest = "bindE (lwerr s ''wait for NFS filesystem active'' (call (WaitForNFSFilesystemStatus waitTimeout
        (fs_SpaceID f) (fs_ID f) NFSFilesystemStatusActive))) (\<lambda>f. finalizeFilesystemVolume s f params sp)"
    have "run ?rest v (st\<lparr>proc_world := w1\<rparr>) = (r, st')"
      using r c Inr by (simp add: createFilesystem_def run_bindE run_mapErr run_Do onWorld_def)
    moreover have "keeps v sameVolumes ?rest"
      by (intro keeps_intros sameVolumes_rel sameVolumes_wait sameVolumes_frame [OF frame_finalize])
    ultimately have rest: "sameVolumes (st\<lparr>proc_world := w1\<rparr>) st'" by (blast dest: keepsD)
    from created Inr none have
      f: "good w1" "fss w1 = (fss (proc_world st))((i, fs_ID f) \<mapsto> f)" "fss (proc_world st) (i, fs_ID f) = None"
      "volumeInfo f = (label, par_region params, elems (par_tags params), cap)"
      by (auto simp: createOptions_def requestedTags_def volumeInfo_def split: if_splits)
    have "unused (volumesOf (fss (proc_world st))) i label (par_region params)"
      using none by (auto simp: unused_def volumesOf_def volumeInfo_def)
    with f rest show ?thesis
      by (auto simp: sameVolumes_def madeVolume_def volumesOf_upd volumesOf_def intro!: exI [of _ "fs_ID f"])
  qed
qed

lemma run_bindE_ok_or_same:
  assumes "run (bindE p f) v st = (r, st')" and "keeps v sameVolumes p"
  obtains (same) e where "r = Inl e" "sameVolumes st st'"
    | (go) a st1 where "run p v st = (Inr a, st1)" "sameVolumes st st1" "run (f a) v st1 = (r, st')"
  using assms by (cases rule: run_bindE_cases) (blast dest: keepsD)+

lemma keeps_region_same: "keeps v sameVolumes p \<Longrightarrow> run p v st = (r, st') \<Longrightarrow> proc_region st' = proc_region st"
  by (auto dest: keepsD simp: sameVolumes_def)

lemma createOrReuse_steps:
  assumes r: "run (createOrReuse s req params i sp found) v st = (r, st')" and good: "good (proc_world st)"
    and none: "found = None \<Longrightarrow> \<forall>j f. fss (proc_world st) (i, j) = Some f \<longrightarrow>
      fs_Label f = volumeLabel s (cv_Name req) \<longrightarrow> fs_Region f \<noteq> par_region params"
  shows "sameVolumes st st' \<or> good (proc_world st') \<and> proc_region st' = proc_region st \<and>
    madeVolume i (volumeLabel s (cv_Name req)) (par_region params) (elems (par_tags params))
      (requestedCapacityBytes (cv_CapacityRange req)) st st'"
proof (cases found)
  case None
  with create_steps [OF _ good none, of s sp "requestedCapacityBytes (cv_CapacityRange req)" r st'] r show ?thesis
    by (auto simp: createOrReuse_def sameVolumes_def)
next
  case (Some g)
  with r keepsD [OF sameVolumes_existing] show ?thesis by (auto simp: createOrReuse_def)
qed

lemma inRegion_steps:
  assumes run: "run (inRegion s req params) v st = (r, st')" and lg: "cs_linodego s = lg"
    and good: "good (proc_world st)" and space: "par_spaceID params = 0 \<longrightarrow> par_spaceLabel params \<noteq> []"
  shows "sameVolumes st st' \<or> good (proc_world st') \<and> proc_region st' = proc_region st \<and>
    (\<exists>i. spaceMatches labelled params i \<and>
       madeVolume i (volumeLabel s (cv_Name req)) (par_region params) (elems (par_tags params))
         (requestedCapacityBytes (cv_CapacityRange req)) st st')"
  using run [unfolded inRegion_def] sameVolumes_frame [OF frame_resolve]
proof (cases rule: run_bindE_ok_or_same)
  case (go space st2)
  have m: "spaceMatches labelled params (space_ID space)"
    using resolve_ok [OF go(1) lg good] space by simp
  have st2: "sameVolumes st st2" "fss (proc_world st2) = fss (proc_world st)" "good (proc_world st2)"
    using go(2) keepsD [OF frame_resolve go(1)] good by (auto simp: procFrame_def frame_def)
  from go(3) sameVolumes_frame [OF frame_spacePolicy] show ?thesis
  proof (cases rule: run_bindE_ok_or_same)
    case (go sp st3)
    have st3: "sameVolumes st st3" "fss (proc_world st3) = fss (proc_world st)" "good (proc_world st3)"
      using transpD [OF sameVolumes_rel(2) st2(1) go(2)] keepsD [OF frame_spacePolicy go(1)] st2
      by (auto simp: procFrame_def frame_def)
    from go(3) sameVolumes_frame [OF frame_find] show ?thesis
    proof (cases rule: run_bindE_ok_or_same)
      case (go found st4)
      have st4: "sameVolumes st st4" "fss (proc_world st4) = fss (proc_world st)" "good (proc_world st4)"
        using transpD [OF sameVolumes_rel(2) st3(1) go(2)] keepsD [OF frame_find go(1)] st3
        by (auto simp: procFrame_def frame_def)
      have "found = None \<Longrightarrow> \<forall>j f. fss (proc_world st4) (space_ID space, j) = Some f \<longrightarrow>
          fs_Label f = volumeLabel s (cv_Name req) \<longrightarrow> fs_Region f \<noteq> par_region params"
        using find_ok [OF go(1) lg st3(3)] st3(2) st4(2) by simp
      from createOrReuse_steps [OF go(3) st4(3) this] m st4 transpD [OF sameVolumes_rel(2) st4(1)]
      show ?thesis by (auto simp: sameVolumes_def madeVolume_def)
    qed (use transpD [OF sameVolumes_rel(2) st3(1)] in blast)
  qed (use transpD [OF sameVolumes_rel(2) st2(1)] in blast)
qed simp

text \<open>A run of \<open>CreateVolume\<close>, whatever it returns, changes no volume or makes the one asked for.\<close>

lemma CreateVolume_steps:
  assumes run: "run (CreateVolume s req) v st = (r, st')" and lg: "cs_linodego s = lg"
    and good: "good (proc_world st)"
  shows "good (proc_world st') \<and> (proc_region st \<noteq> [] \<longrightarrow> proc_region st' = proc_region st) \<and>
    (volumesOf (fss (proc_world st')) = volumesOf (fss (proc_world st)) \<or>
     proc_region st' \<noteq> [] \<and> (\<exists>params i. checkCreateRequest req = Inr params \<and> spaceMatches labelled params i \<and>
       madeVolume i (volumeLabel s (cv_Name req)) (proc_region st') (elems (par_tags params))
         (requestedCapacityBytes (cv_CapacityRange req)) st st'))"
proof (cases "checkCreateRequest req")
  case (Inl e)
  with run good show ?thesis by (simp add: CreateVolume_inRegion run_bindE_Ret)
next
  case (Inr params)
  obtain rg st1 where R: "run Region v st = (rg, st1)" by fastforce
  from frame_Region [OF R] good have st1: "good (proc_world st1)" "fss (proc_world st1) = fss (proc_world st)"
    by (auto simp: frame_def)
  from R regionFromNode_not_Nil have
    reg: "proc_region st \<noteq> [] \<longrightarrow> proc_region st1 = proc_region st" "\<And>a. rg = Inr a \<Longrightarrow> proc_region st1 = a \<and> a \<noteq> []"
    by (auto simp: run_Region Let_def split: if_splits prod.splits sum.splits list.splits)
  show ?thesis
  proof (cases rg)
    case (Inl e)
    with run R Inr have "st' = st1" by (simp add: CreateVolume_inRegion run_bindE_Ret run_bindE run_mapErr)
    with st1 reg show ?thesis by simp
  next
    case (Inr region)
    with run R \<open>checkCreateRequest req = Inr params\<close> have
      "run (inRegion s req (params\<lparr>par_region := region\<rparr>)) v st1 = (r, st')"
      by (simp add: CreateVolume_inRegion run_bindE_Ret run_bindE run_mapErr)
    from inRegion_steps [OF this lg st1(1)] checkCreateRequest_space [OF \<open>checkCreateRequest req = Inr params\<close>]
      st1 reg Inr \<open>checkCreateRequest req = Inr params\<close>
    show ?thesis by (auto simp: sameVolumes_def madeVolume_same [OF st1(2)])
  qed
qed

lemma DeleteVolume_steps:
  assumes "run (DeleteVolume s volumeID) v st = (r, st')" and "good (proc_world st)"
  shows "good (proc_world st') \<and> proc_region st' = proc_region st"
proof -
  have "good w \<longrightarrow> good w'" if "lc_DeleteNFSFilesystem (env_client v) i j w = (d, w')" for i j w d w'
    using delete [OF _ that] by blast
  then show ?thesis
    using assms by (auto simp: DeleteVolume_def run_simps split: if_splits sum.splits prod.splits option.splits)
qed

text \<open>Every request is a step of the machine. The region is that of any later moment.\<close>

lemma create_step:
  assumes run: "run (CreateVolume s req) v st = (r, st')" and lg: "cs_linodego s = lg"
    and good: "good (proc_world st)" and rg: "proc_region st' \<noteq> [] \<longrightarrow> rg = proc_region st'"
  shows "\<exists>op. opFor s labelled rg (CreateRequest req) op \<and>
    volumeStep op (map_sum (\<lambda>e. e) vol_VolumeId r)
      (volumesOf (fss (proc_world st))) (volumesOf (fss (proc_world st')))"
proof (cases r)
  case (Inl e)
  from CreateVolume_steps [OF run lg good] consider
      (same) "volumesOf (fss (proc_world st')) = volumesOf (fss (proc_world st))"
    | (made) params i where "checkCreateRequest req = Inr params" "spaceMatches labelled params i"
        "madeVolume i (volumeLabel s (cv_Name req)) rg (elems (par_tags params))
          (requestedCapacityBytes (cv_CapacityRange req)) st st'"
    using rg by auto
  then show ?thesis
  proof cases
    case same
    with Inl show ?thesis by (auto intro: opFor.refuse volumeStep.refused)
  next
    case made
    then show ?thesis unfolding Inl madeVolume_def
      by (auto intro!: exI opFor.provision intro: volumeStep.half_made)
  qed
next
  case (Inr vol)
  note ok = CreateVolume_ok [OF run [unfolded Inr] lg good]
  then obtain params i f mtls where params: "checkCreateRequest req = Inr params" "spaceMatches labelled params i"
    and vol: "vol_VolumeId vol = formatVolumeHandle i (fs_ID f)"
    and post: "fs_Label f = volumeLabel s (cv_Name req)" "fs_Region f = rg" "fs_Tags f = elems (par_tags params)"
      "fss (proc_world st') = (fss (proc_world st))((i, fs_ID f) \<mapsto> f)"
    and old: "case fss (proc_world st) (i, fs_ID f) of
       None \<Rightarrow> fs_MaxCapacityBytes f = requestedCapacityBytes (cv_CapacityRange req)
     | Some g \<Rightarrow> sameFilesystem g f \<and>
         validateExistingFilesystemCapacity f (cv_CapacityRange req) = Inr ()"
    using rg by (auto simp: csiVolume_def volumePost_def)
  show ?thesis
  proof (cases "fss (proc_world st) (i, fs_ID f)")
    case (Some g)
    with old have "volumesOf (fss (proc_world st')) = volumesOf (fss (proc_world st))"
      "fits (cv_CapacityRange req) (fs_MaxCapacityBytes f)"
      by (auto simp: post(4) volumesOf_same fits_def validateExistingFilesystemCapacity_def Let_def split: if_splits)
    moreover have "volumesOf (fss (proc_world st)) (i, fs_ID f) = Some (fs_Label f, rg, fs_Tags f, fs_MaxCapacityBytes f)"
      using Some old post(2) by (auto simp: volumesOf_def volumeInfo_def sameFilesystem_def)
    ultimately show ?thesis
      using params Inr vol post(1,3) by (auto intro!: exI opFor.provision intro: volumeStep.found)
  next
    case None
    let ?A = "volumesOf (fss (proc_world st))"
    have A: "?A (i, fs_ID f) = None" using None by (simp add: volumesOf_def)
    have A': "volumesOf (fss (proc_world st')) =
        ?A((i, fs_ID f) \<mapsto> (fs_Label f, rg, fs_Tags f, requestedCapacityBytes (cv_CapacityRange req)))"
      using None old post by (simp add: volumesOf_upd volumeInfo_def)
    then have "volumesOf (fss (proc_world st')) \<noteq> ?A" using A by (metis fun_upd_same option.distinct(1))
    with CreateVolume_steps [OF run lg good] rg ok obtain params' i' where
      p: "checkCreateRequest req = Inr params'" "spaceMatches labelled params' i'"
      "madeVolume i' (volumeLabel s (cv_Name req)) rg (elems (par_tags params'))
         (requestedCapacityBytes (cv_CapacityRange req)) st st'" by auto
    with params have "i' = i" by (auto simp: spaceMatches_def split: if_splits)
    with p have "unused ?A i (fs_Label f) rg" unfolding madeVolume_def post(1) by blast
    from volumeStep.made [of ?A i "fs_ID f", OF A this] show ?thesis
      using params Inr vol post(1,3) by (auto simp: A' intro!: exI opFor.provision)
  qed
qed

lemma delete_step:
  assumes run: "run (DeleteVolume s volumeID) v st = (r, st')" and lg: "cs_linodego s = lg"
    and good: "good (proc_world st)"
  shows "\<exists>op. opFor s labelled rg (DeleteRequest volumeID) op \<and>
    volumeStep op (map_sum (\<lambda>e. e) (\<lambda>_. volumeID) r)
      (volumesOf (fss (proc_world st))) (volumesOf (fss (proc_world st')))"
proof -
  have "filesystem_store v (cs_linodego s) fss good labelled" using filesystem_store_axioms lg by simp
  note effect = delete_effect [OF this good run]
  show ?thesis
  proof (cases "parseVolumeHandle volumeID")
    case (Inl e)
    with effect show ?thesis by (auto intro!: exI opFor.ignore volumeStep.ignored)
  next
    case (Inr h)
    then have op: "opFor s labelled rg (DeleteRequest volumeID) (Deprovision (handleKey h))" by (rule opFor.remove)
    show ?thesis
    proof (cases r)
      case (Inl e)
      with effect Inr op show ?thesis by (auto intro: volumeStep.not_removed)
    next
      case (Inr u)
      with effect \<open>parseVolumeHandle volumeID = Inr h\<close> op show ?thesis
        by (auto simp: volumesOf_remove intro!: exI volumeStep.removed)
    qed
  qed
qed

lemma handler_step:
  assumes run: "run (volumeHandler s req) v st = (r, st')" and lg: "cs_linodego s = lg"
    and good: "good (proc_world st)" and rg: "proc_region st' \<noteq> [] \<longrightarrow> rg = proc_region st'"
  shows "good (proc_world st') \<and> (proc_region st \<noteq> [] \<longrightarrow> proc_region st' = proc_region st) \<and>
    (\<exists>op. opFor s labelled rg req op \<and>
       volumeStep op r (volumesOf (fss (proc_world st))) (volumesOf (fss (proc_world st'))))"
proof (cases req)
  case (CreateRequest q)
  with run obtain x where x: "run (CreateVolume s q) v st = (x, st')" "r = map_sum (\<lambda>e. e) vol_VolumeId x"
    by (auto simp: run_bindE run_Ret split: prod.splits sum.splits)
  from create_step [OF x(1) lg good rg] CreateVolume_steps [OF x(1) lg good] show ?thesis
    unfolding x(2) CreateRequest by blast
next
  case (DeleteRequest i)
  with run obtain x where x: "run (DeleteVolume s i) v st = (x, st')" "r = map_sum (\<lambda>e. e) (\<lambda>_. i) x"
    by (auto simp: run_bindE run_Ret split: prod.splits sum.splits)
  from delete_step [OF x(1) lg good] DeleteVolume_steps [OF x(1) good] show ?thesis
    unfolding x(2) DeleteRequest by blast
qed

lemma trace_region:
  "serial v (map (volumeHandler s) reqs) st = (rs, st') \<Longrightarrow> cs_linodego s = lg \<Longrightarrow> good (proc_world st) \<Longrightarrow>
     proc_region st \<noteq> [] \<longrightarrow> proc_region st' = proc_region st"
  by (induction reqs arbitrary: st rs) (fastforce split: prod.splits dest: handler_step)+

lemma trace_refines:
  assumes "serial v (map (volumeHandler s) reqs) st = (rs, st')" and lg: "cs_linodego s = lg"
    and "good (proc_world st)"
  shows "\<exists>ops. list_all2 (opFor s labelled (proc_region st')) reqs ops \<and>
    volumeTrace ops rs (volumesOf (fss (proc_world st))) (volumesOf (fss (proc_world st')))"
  using assms(1,3)
proof (induction reqs arbitrary: st rs)
  case Nil
  then show ?case by (auto intro: volumeTrace.stop)
next
  case (Cons req reqs)
  then obtain r st1 rs1 where r: "run (volumeHandler s req) v st = (r, st1)"
    "serial v (map (volumeHandler s) reqs) st1 = (rs1, st')" "rs = r # rs1" by (auto split: prod.splits)
  have good1: "good (proc_world st1)" using handler_step [OF r(1) lg Cons.prems(2)] by blast
  with handler_step [OF r(1) lg Cons.prems(2)] trace_region [OF r(2) lg] obtain op where
    "opFor s labelled (proc_region st') req op"
    "volumeStep op r (volumesOf (fss (proc_world st))) (volumesOf (fss (proc_world st1)))" by metis
  with Cons.IH [OF r(2) good1] r(3) show ?case
    by (auto intro: volumeTrace.request list_all2_Cons [THEN iffD2])
qed

end

subsection \<open>Properties\<close>

text \<open>Sequences of \<open>CreateVolume\<close> and \<open>DeleteVolume\<close> requests refine the abstract catalogue of volumes:
  whatever the API answers, each request is one step of the machine, a creation that succeeds the
  provisioning its parameters and capacity range ask for, under the normalized name, in the space the
  parameters name and the region of the cluster, a deletion the removal of the volume of its ID.\<close>

lemma volume_refines:
  assumes "filesystem_store v (cs_linodego s) fss good labelled" and "good (proc_world st)"
    and "serial v (map (volumeHandler s) reqs) st = (rs, st')"
  shows "\<exists>ops. list_all2 (opFor s labelled (proc_region st')) reqs ops \<and>
    volumeTrace ops rs (volumesOf (fss (proc_world st))) (volumesOf (fss (proc_world st')))"
  by (rule filesystem_store.trace_refines [OF assms(1,3) refl assms(2)])

definition lifeRequests :: "volumeRequest list" where
  "lifeRequests = [CreateRequest createReq, DeleteRequest ''2/1'', CreateRequest createReq]"

definition lifeEnd :: "SanityWorld proc" where
  "lifeEnd = snd (serial sanityEnv (map (volumeHandler sanityServer) lifeRequests) sanityProc)"

lemma lifeEnd:
  "serial sanityEnv (map (volumeHandler sanityServer) lifeRequests) sanityProc =
     ([Inr ''1/10000'', Inr ''2/1'', Inr ''1/10000''], lifeEnd)"
proof -
  have "fst (serial sanityEnv (map (volumeHandler sanityServer) lifeRequests) sanityProc) =
      [Inr ''1/10000'', Inr ''2/1'', Inr ''1/10000'']"
    by code_simp
  then show ?thesis unfolding lifeEnd_def by (metis prod.collapse)
qed

lemma sanityProc_volumes: "volumesOf (sanityFilesystems (proc_world sanityProc)) = (\<lambda>_. None)"
  by (simp add: volumesOf_def fun_eq_iff sanityFilesystems_def sanityProc_def newFakeSanityLinodeClient_def)

theorem volume_refines_witness:
  "\<exists>ops. list_all2 (opFor sanityServer sanityLabelled (proc_region lifeEnd)) lifeRequests ops \<and>
    volumeTrace ops [Inr ''1/10000'', Inr ''2/1'', Inr ''1/10000''] (\<lambda>_. None)
      (volumesOf (sanityFilesystems (proc_world lifeEnd)))"
  using volume_refines [OF sanityServer_store sanityGood_initial lifeEnd] by (simp add: sanityProc_volumes)

text \<open>What the machine says of a request that is repeated.\<close>

lemma volumeTrace_append:
  "volumeTrace (ops @ ops') xs A A' \<Longrightarrow>
     \<exists>ys zs A1. xs = ys @ zs \<and> length ys = length ops \<and> volumeTrace ops ys A A1 \<and> volumeTrace ops' zs A1 A'"
proof (induction ops arbitrary: xs A)
  case Nil
  then show ?case by (auto intro: volumeTrace.stop)
next
  case (Cons op ops)
  then obtain x xs' A1 where "xs = x # xs'" "volumeStep op x A A1" "volumeTrace (ops @ ops') xs' A1 A'"
    by (auto elim: volumeTrace_ConsE)
  moreover from Cons.IH [OF this(3)] obtain ys zs A2 where
    "xs' = ys @ zs" "length ys = length ops" "volumeTrace ops ys A1 A2" "volumeTrace ops' zs A2 A'" by blast
  ultimately show ?case
    by (intro exI [of _ "x # ys"] exI [of _ zs] exI [of _ A2]) (auto intro: volumeTrace.request)
qed

lemma opFor_created:
  assumes "opFor s labelled rg (CreateRequest q) op" and "volumeStep op (Inr x) A A'"
  obtains params i where "checkCreateRequest q = Inr params" "spaceMatches labelled params i"
    "op = Provision i (volumeLabel s (cv_Name q)) rg (elems (par_tags params)) (cv_CapacityRange q)"
  using assms by (auto elim: opFor.cases otherE)

lemma opFor_removed:
  "opFor s labelled rg req (Deprovision k) \<Longrightarrow>
     \<exists>volumeID h. req = DeleteRequest volumeID \<and> parseVolumeHandle volumeID = Inr h \<and> k = handleKey h"
  by (erule opFor.cases) auto

lemma repeated_provision:
  assumes ops: "list_all2 (opFor s labelled rg) (CreateRequest q # mid @ [CreateRequest q]) ops"
    and trace: "volumeTrace ops (Inr x # rs @ [Inr y]) A A'" and len: "length rs = length mid"
    and unique: "uniqueLabels A"
    and no: "\<And>volumeID h. DeleteRequest volumeID \<in> set mid \<Longrightarrow> parseVolumeHandle volumeID = Inr h \<Longrightarrow>
      formatVolumeHandle (vh_spaceID h) (vh_filesystemID h) \<noteq> x"
  shows "y = x"
proof -
  from ops obtain op1 mops op2 where o: "ops = op1 # mops @ [op2]" "opFor s labelled rg (CreateRequest q) op1"
    "list_all2 (opFor s labelled rg) mid mops" "opFor s labelled rg (CreateRequest q) op2"
    by (auto simp: list_all2_Cons1 list_all2_append1)
  from trace o(1) obtain A1 where t1: "volumeStep op1 (Inr x) A A1" "volumeTrace (mops @ [op2]) (rs @ [Inr y]) A1 A'"
    by (auto elim: volumeTrace_ConsE)
  from volumeTrace_append [OF t1(2)] len list_all2_lengthD [OF o(3)] obtain A2 where
    t2: "volumeTrace mops rs A1 A2" "volumeStep op2 (Inr y) A2 A'"
    by (auto elim!: volumeTrace_ConsE volumeTrace_NilE)
  from opFor_created [OF o(2) t1(1)] obtain params i where p: "checkCreateRequest q = Inr params"
    "spaceMatches labelled params i" and
    op1: "op1 = Provision i (volumeLabel s (cv_Name q)) rg (elems (par_tags params)) (cv_CapacityRange q)" .
  from opFor_created [OF o(4) t2(2)] obtain params' i' where p': "checkCreateRequest q = Inr params'"
    "spaceMatches labelled params' i'" and
    op2: "op2 = Provision i' (volumeLabel s (cv_Name q)) rg (elems (par_tags params')) (cv_CapacityRange q)" .
  have same: "params' = params" "i' = i" using p p' by (auto simp: spaceMatches_def split: if_splits)
  from provisioned_step [OF t1(1) [unfolded op1]] obtain j c where
    j: "x = formatVolumeHandle i j" "A1 (i, j) = Some (volumeLabel s (cv_Name q), rg, elems (par_tags params), c)"
    by blast
  have "Deprovision (i, j) \<notin> set mops"
  proof
    assume "Deprovision (i, j) \<in> set mops"
    with o(3) obtain req where "req \<in> set mid" "opFor s labelled rg req (Deprovision (i, j))"
      by (metis in_set_conv_nth list_all2_conv_all_nth)
    with opFor_removed no j(1) show False by (fastforce simp: handleKey_def)
  qed
  from kept_trace [OF t2(1) j(2) this] have "A2 (i, j) = Some (volumeLabel s (cv_Name q), rg, elems (par_tags params), c)" .
  from provisioned_again [OF t2(2) [unfolded op2 same] this] unique_trace [OF t2(1)] unique_step [OF t1(1) unique]
  show ?thesis by (simp add: j(1))
qed

text \<open>C5: a name is one volume: repeating a create request gets the volume it got before, whatever creations
  and deletions lie in between and however they end, unless that volume is deleted. At the end, too, no two volumes of one space and
  region have one label.\<close>

theorem repeated_create:
  assumes "filesystem_store v (cs_linodego s) fss good labelled" and "good (proc_world st)"
    and "uniqueLabels (volumesOf (fss (proc_world st)))"
    and "serial v (map (volumeHandler s) (CreateRequest q # mid @ [CreateRequest q])) st = (Inr x # rs @ [Inr y], st')"
    and "\<And>volumeID h. DeleteRequest volumeID \<in> set mid \<Longrightarrow> parseVolumeHandle volumeID = Inr h \<Longrightarrow>
      formatVolumeHandle (vh_spaceID h) (vh_filesystemID h) \<noteq> x"
  shows "y = x \<and> uniqueLabels (volumesOf (fss (proc_world st')))"
proof -
  from filesystem_store.trace_refines [OF assms(1,4) refl assms(2)] obtain ops where
    o: "list_all2 (opFor s labelled (proc_region st')) (CreateRequest q # mid @ [CreateRequest q]) ops"
    "volumeTrace ops (Inr x # rs @ [Inr y]) (volumesOf (fss (proc_world st))) (volumesOf (fss (proc_world st')))"
    by blast
  from repeated_provision [OF o _ assms(3,5)] serial_length [OF assms(4)] unique_trace [OF o(2) assms(3)]
  show ?thesis by simp
qed

theorem repeated_create_witness:
  "(case fst (serial sanityEnv (map (volumeHandler sanityServer) lifeRequests) sanityProc) of
      rs \<Rightarrow> last rs = hd rs) \<and> uniqueLabels (volumesOf (sanityFilesystems (proc_world lifeEnd)))"
proof -
  have "parseVolumeHandle ''2/1'' = Inr \<lparr>vh_spaceID = 2, vh_filesystemID = 1\<rparr>" by code_simp
  moreover have "formatVolumeHandle 2 1 \<noteq> ''1/10000''" by code_simp
  ultimately have other: "formatVolumeHandle (vh_spaceID h) (vh_filesystemID h) \<noteq> ''1/10000''"
    if "DeleteRequest volumeID \<in> set [DeleteRequest ''2/1'']" "parseVolumeHandle volumeID = Inr h" for volumeID h
    using that by auto
  have fresh: "uniqueLabels (volumesOf (sanityFilesystems (proc_world sanityProc)))"
    by (simp add: sanityProc_volumes uniqueLabels_def)
  have "serial sanityEnv (map (volumeHandler sanityServer)
      (CreateRequest createReq # [DeleteRequest ''2/1''] @ [CreateRequest createReq])) sanityProc =
      (Inr ''1/10000'' # [Inr ''2/1''] @ [Inr ''1/10000''], lifeEnd)"
    using lifeEnd unfolding lifeRequests_def append_Cons append_Nil .
  from repeated_create [OF sanityServer_store sanityGood_initial fresh this] other
  have "uniqueLabels (volumesOf (sanityFilesystems (proc_world lifeEnd)))" by blast
  then show ?thesis using lifeEnd by simp
qed

end
