(* ===== verification/ConcurrentCreate.thy ===== *)
theory ConcurrentCreate
  imports RelyGuarantee VolumeSpec BackendInvariant
begin

text \<open>
  Concurrent creations. \<open>CreateVolume\<close> takes no lock: two requests for one name may both find no volume and
  both create one. What keeps them apart is the API, which never makes a second filesystem of one label in a
  space and region (\<open>unique_store\<close>). Over that contract, under every interleaving, requests for one name get one
  volume, by the rely-guarantee rule: the catalogue of volumes only grows (\<open>catalogueGrows\<close>). The relation leaves
  room for requests that delete the volumes of a set \<open>D\<close> and expand those of a set \<open>E\<close>, so that \<open>ConcurrentRpcs\<close>
  can put the creations among all other requests; creations alone have \<open>D = E = {}\<close>.
\<close>

subsection \<open>The rely of a creation\<close>

text \<open>The region that the nodes of the cluster are in.\<close>

definition clusterRegion :: "'w env \<Rightarrow> string \<Rightarrow> bool" where
  "clusterRegion v rg \<longleftrightarrow> (\<forall>w node rest a.
     fst (mc_ListNodes (env_metadata v) w) = Inr (node # rest) \<longrightarrow> regionFromNode (Some node) = Inr a \<longrightarrow> a = rg)"

definition createInv ::
    "('w \<Rightarrow> bool) \<Rightarrow> ('w \<Rightarrow> int \<times> int \<Rightarrow> NFSFilesystem option) \<Rightarrow> string \<Rightarrow> 'w proc \<Rightarrow> bool" where
  "createInv good fss rg st \<longleftrightarrow> good (proc_world st) \<and> uniqueLabels (volumesOf (fss (proc_world st))) \<and>
     (proc_region st = [] \<or> proc_region st = rg)"

text \<open>A volume stays what it is, but one that is asked to be deleted (\<open>D\<close>), and the capacity of one that is asked
  to be expanded (\<open>E\<close>), which may grow.\<close>

definition outlives :: "(int \<times> int) set \<Rightarrow> (int \<times> int) set \<Rightarrow> catalogue \<Rightarrow> catalogue \<Rightarrow> bool" where
  "outlives D E A A' \<longleftrightarrow> (\<forall>k l rg tags c. k \<notin> D \<longrightarrow> A k = Some (l, rg, tags, c) \<longrightarrow>
     (\<exists>c'. A' k = Some (l, rg, tags, c') \<and> c \<le> c' \<and> (k \<notin> E \<longrightarrow> c' = c)))"

lemma outlives_refl [simp]: "outlives D E A A"
  by (simp add: outlives_def)

lemma outlivesD:
  "outlives D E A A' \<Longrightarrow> A k = Some (l, rg, tags, c) \<Longrightarrow> k \<notin> D \<Longrightarrow> \<exists>c'. A' k = Some (l, rg, tags, c') \<and> c \<le> c'"
  unfolding outlives_def by blast

lemma outlives_trans: "outlives D E A B \<Longrightarrow> outlives D E B C \<Longrightarrow> outlives D E A C"
proof -
  assume ab: "outlives D E A B" and bc: "outlives D E B C"
  show ?thesis
    unfolding outlives_def
  proof (intro allI impI)
    fix k l rg tags c
    assume k: "k \<notin> D" "A k = Some (l, rg, tags, c)"
    then obtain c1 where c1: "B k = Some (l, rg, tags, c1)" "c \<le> c1" "k \<notin> E \<longrightarrow> c1 = c"
      using ab unfolding outlives_def by blast
    then obtain c2 where "C k = Some (l, rg, tags, c2)" "c1 \<le> c2" "k \<notin> E \<longrightarrow> c2 = c1"
      using bc k(1) unfolding outlives_def by blast
    with c1 show "\<exists>c2. C k = Some (l, rg, tags, c2) \<and> c \<le> c2 \<and> (k \<notin> E \<longrightarrow> c2 = c)" by auto
  qed
qed

lemma outlives_map_le: "A \<subseteq>\<^sub>m A' \<Longrightarrow> outlives D E A A'"
  unfolding outlives_def map_le_def by (metis domI order_refl)

lemma outlives_none [simp]: "outlives {} {} A A' \<longleftrightarrow> A \<subseteq>\<^sub>m A'"
  by (auto simp: outlives_def map_le_def dom_def)

definition catalogueGrows ::
    "('w \<Rightarrow> bool) \<Rightarrow> ('w \<Rightarrow> int \<times> int \<Rightarrow> NFSFilesystem option) \<Rightarrow> string \<Rightarrow> (int \<times> int) set \<Rightarrow> (int \<times> int) set
       \<Rightarrow> 'w proc \<Rightarrow> 'w proc \<Rightarrow> bool" where
  "catalogueGrows good fss rg D E st st' \<longleftrightarrow> (createInv good fss rg st \<longrightarrow> createInv good fss rg st' \<and>
     outlives D E (volumesOf (fss (proc_world st))) (volumesOf (fss (proc_world st'))))"

lemma catalogueGrows_preorder [simp]: "preorder (catalogueGrows good fss rg D E)"
  by (auto simp: preorder_def catalogueGrows_def intro!: reflpI transpI intro: outlives_trans)

lemma catalogueGrows_frame: "procFrame good fss st st' \<Longrightarrow> catalogueGrows good fss rg D E st st'"
  by (auto simp: procFrame_def frame_def catalogueGrows_def createInv_def)

text \<open>A volume is in the catalogue with this label, region and tags, unless it is asked to be deleted.\<close>

definition recorded :: "(int \<times> int) set \<Rightarrow> catalogue \<Rightarrow> int \<times> int \<Rightarrow> string \<Rightarrow> string \<Rightarrow> string list \<Rightarrow> bool" where
  "recorded D A k l rg tags \<longleftrightarrow> k \<in> D \<or> (\<exists>c. A k = Some (l, rg, tags, c))"

lemma recordedI: "A k = Some (l, rg, tags, c) \<Longrightarrow> recorded D A k l rg tags"
  by (auto simp: recorded_def)

lemma recorded_outlives: "recorded D A k l rg tags \<Longrightarrow> outlives D E A A' \<Longrightarrow> recorded D A' k l rg tags"
  unfolding recorded_def outlives_def by metis

lemma recorded_same:
  "recorded D A k l rg tags \<Longrightarrow> recorded D A k l' rg' tags' \<Longrightarrow> k \<in> D \<or> l' = l \<and> rg' = rg \<and> tags' = tags"
  by (auto simp: recorded_def)

text \<open>What a creation that returns a volume promises.\<close>

definition createdIn ::
    "ControllerServer \<Rightarrow> (string \<Rightarrow> int set) \<Rightarrow> string \<Rightarrow> (int \<times> int) set \<Rightarrow> CreateVolumeRequest \<Rightarrow> catalogue
       \<Rightarrow> string \<Rightarrow> bool" where
  "createdIn s labelled rg D req A volumeID \<longleftrightarrow> (\<exists>params i j.
     checkCreateRequest req = Inr params \<and> spaceMatches labelled params i \<and> volumeID = formatVolumeHandle i j \<and>
     recorded D A (i, j) (volumeLabel s (cv_Name req)) rg (elems (par_tags params)))"

definition namesVolume ::
    "(int \<times> int) set \<Rightarrow> int \<Rightarrow> string \<Rightarrow> string \<Rightarrow> string list \<Rightarrow> goError + Volume \<Rightarrow> catalogue \<Rightarrow> bool" where
  "namesVolume D i label rg tags r A \<longleftrightarrow> (case r of Inl e \<Rightarrow> True
     | Inr vol \<Rightarrow> \<exists>j. vol_VolumeId vol = formatVolumeHandle i j \<and> recorded D A (i, j) label rg tags)"

lemma namesVolume_Inl [simp]: "namesVolume D i label rg tags (Inl e) A"
  by (simp add: namesVolume_def)

text \<open>The space that the parameters of a request name.\<close>

definition spaceOf :: "(string \<Rightarrow> int set) \<Rightarrow> CreateVolumeRequest \<Rightarrow> int \<Rightarrow> bool" where
  "spaceOf labelled req i \<longleftrightarrow> (\<exists>params. checkCreateRequest req = Inr params \<and> spaceMatches labelled params i)"

locale unique_store = filesystem_store v lg fss good labelled
  for v :: "'w env" and lg and fss and good and labelled +
  assumes single: "good w \<Longrightarrow> lc_CreateNFSFilesystem (env_client v) i o' w = (Inr f, w') \<Longrightarrow>
    fss w (i, j) = Some g \<Longrightarrow> fs_Label g = cr_Label o' \<Longrightarrow> fs_Region g = cr_Region o' \<Longrightarrow> fs_ID f = j"

context unique_store
begin

text \<open>Programs that keep the rely, whatever they return.\<close>

definition quiet :: "string \<Rightarrow> (int \<times> int) set \<Rightarrow> (int \<times> int) set \<Rightarrow> 'a prog \<Rightarrow> bool" where
  "quiet rg D E p \<longleftrightarrow> (\<forall>st. sat v (catalogueGrows good fss rg D E) (\<lambda>_ _. True) p st)"

lemma quietD: "quiet rg D E p \<Longrightarrow> sat v (catalogueGrows good fss rg D E) (\<lambda>_ _. True) p st"
  by (simp add: quiet_def)

lemma quiet_Ret: "quiet rg D E (Ret a)"
  by (simp add: quiet_def sat_Ret)

lemma quiet_bindE: "quiet rg D E p \<Longrightarrow> (\<And>a. quiet rg D E (f a)) \<Longrightarrow> quiet rg D E (bindE p f)"
  by (auto simp: quiet_def sat_Ret intro: sat_bindE)

lemma quiet_mapErr: "quiet rg D E p \<Longrightarrow> quiet rg D E (mapErr h p)"
  by (auto simp: quiet_def sat_Ret intro: sat_mapErr)

lemmas quiet_intros = quiet_Ret quiet_bindE quiet_mapErr

lemma quiet_oneCall: "oneCall p \<Longrightarrow> keeps v (procFrame good fss) p \<Longrightarrow> quiet rg D E p"
  unfolding quiet_def by (blast intro: sat_oneCall catalogueGrows_preorder catalogueGrows_frame dest: keepsD)

lemma quiet_calls:
  "quiet rg D E (call (GetNFSFilesystemAccessPolicy i j))"
  "quiet rg D E (call (UpdateNFSFilesystemAccessPolicy i j o2))"
  "quiet rg D E (call (WaitForNFSFilesystemAccessPolicyStatus t i j status))"
  by (rule quiet_oneCall, simp, rule frame_calls)+

lemma quiet_squash: "quiet rg D E (setInitialSquashPolicy s i j p)"
  unfolding setInitialSquashPolicy_def waitForFilesystemAccessPolicyActive_def
  by (auto intro!: quiet_intros quiet_calls split: prod.split)

text \<open>Region discovery.\<close>

lemma createInv_later: "catalogueGrows good fss rg D E st st' \<Longrightarrow> createInv good fss rg st \<Longrightarrow> createInv good fss rg st'"
  by (simp add: catalogueGrows_def)

lemma quiet_regionMu: "quiet rg D E (call LockRegionMu)" "quiet rg D E (call UnlockRegionMu)"
  unfolding quiet_def
  by (auto intro!: sat_oneCall simp: run_simps catalogueGrows_def createInv_def)

lemma sat_discoverRegion:
  assumes rg: "clusterRegion v rg" and inv: "createInv good fss rg st"
  shows "sat v (catalogueGrows good fss rg D E) (\<lambda>r _. case r of Inl e \<Rightarrow> True | Inr a \<Rightarrow> a = rg) discoverRegion st"
proof -
  let ?R = "catalogueGrows good fss rg D E"
  have nodes: "sat v ?R (\<lambda>r _. case r of Inr (node # rest) \<Rightarrow> \<forall>a. regionFromNode (Some node) = Inr a \<longrightarrow> a = rg | _ \<Rightarrow> True)
      (mapErr (Wrapf ''list kubernetes nodes: %w'' []) (call ListNodes)) st" for st
  proof (rule sat_oneCall)
    fix st1 r st2
    assume r: "run (mapErr (Wrapf ''list kubernetes nodes: %w'' []) (call ListNodes)) v st1 = (r, st2)"
    then have "frame good fss (proc_world st1) (proc_world st2)" "proc_region st2 = proc_region st1"
      using frame_list_nodes [of "proc_world st1"] by (auto simp: run_simps split: prod.splits sum.splits)
    then show "?R st1 st2" by (intro catalogueGrows_frame) (simp add: procFrame_def)
    have "fst (mc_ListNodes (env_metadata v) (proc_world st1)) = Inr (node # rest)" if "r = Inr (node # rest)" for node rest
      using r that by (auto simp: run_simps split: prod.splits sum.splits)
    with rg show "case r of Inr (node # rest) \<Rightarrow> \<forall>a. regionFromNode (Some node) = Inr a \<longrightarrow> a = rg | _ \<Rightarrow> True"
      unfolding clusterRegion_def by (auto split: sum.split list.split) blast
  qed (auto intro: oneCall_mapErr)
  have wr: "sat v ?R (\<lambda>_ _. True) (call (WriteRegion rg)) st" for st
    by (rule sat_oneCall) (auto simp: run_simps catalogueGrows_def createInv_def)
  show ?thesis
    unfolding discoverRegion_def
  proof (rule sat_bindE [OF nodes catalogueGrows_preorder], goal_cases)
    case (1 nodes st1)
    then show ?case
    proof (cases nodes)
      case (Cons node rest)
      show ?thesis
      proof (cases "regionFromNode (Some node)")
        case (Inr a)
        with 1 Cons have "a = rg" by simp
        moreover have "sat v ?R (\<lambda>r _. case r of Inl e \<Rightarrow> True | Inr a \<Rightarrow> a = rg)
            (bindP (call (WriteRegion rg)) (\<lambda>_. okE rg)) st1"
          by (rule sat_bindP [OF wr catalogueGrows_preorder]) (simp add: sat_Ret)
        ultimately show ?thesis using Cons Inr by simp
      qed (simp add: Cons sat_Ret)
    qed (simp add: sat_Ret)
  qed (simp add: sat_Ret)
qed

lemma sat_Region:
  assumes rg: "clusterRegion v rg" and inv: "createInv good fss rg st"
  shows "sat v (catalogueGrows good fss rg D E) (\<lambda>r _. case r of Inl e \<Rightarrow> True | Inr a \<Rightarrow> a = rg) Region st"
proof -
  let ?R = "catalogueGrows good fss rg D E"
  let ?Q = "\<lambda>(r :: goError + string) (_ :: 'w proc). case r of Inl e \<Rightarrow> True | Inr a \<Rightarrow> a = rg"
  have rd: "sat v ?R (\<lambda>c _. c = [] \<or> c = rg) (call ReadRegion) st" if "createInv good fss rg st" for st
    using that
    by (intro sat_oneCall) (auto simp: run_simps preorderD dest!: createInv_later simp: createInv_def)
  show ?thesis
    unfolding Region_def
  proof (rule sat_bindP [OF quietD [OF quiet_regionMu(1)] catalogueGrows_preorder], rule sat_bindP [OF rd catalogueGrows_preorder])
    fix a st1 assume "?R st st1"
    with inv show inv1: "createInv good fss rg st1" by (rule createInv_later [rotated])
    fix c st2 assume c: "c = [] \<or> c = rg" and "?R st1 st2"
    with inv1 have inv2: "createInv good fss rg st2" by (simp add: createInv_later)
    have "sat v ?R ?Q (if c \<noteq> [] then okE c else discoverRegion) st2"
      using c sat_discoverRegion [OF rg inv2] by (cases "c = []") (auto simp: sat_Ret)
    then show "sat v ?R ?Q (bindP (if c \<noteq> [] then okE c else discoverRegion)
        (\<lambda>r. bindP (call UnlockRegionMu) (\<lambda>_. Ret r))) st2"
      by (rule sat_bindP [OF _ catalogueGrows_preorder],
          intro sat_bindP [OF quietD [OF quiet_regionMu(2)] catalogueGrows_preorder]) (simp add: sat_Ret)
  qed
qed

subsection \<open>The steps of a creation\<close>

lemma createInv_good: "createInv good fss rg st \<Longrightarrow> good (proc_world st)"
  by (simp add: createInv_def)

lemma recorded_later:
  "catalogueGrows good fss rg D E st st' \<Longrightarrow> createInv good fss rg st \<Longrightarrow>
     recorded D (volumesOf (fss (proc_world st))) k l a tags \<Longrightarrow>
     recorded D (volumesOf (fss (proc_world st'))) k l a tags"
  unfolding catalogueGrows_def by (blast intro: recorded_outlives)

lemma recorded_entry:
  "fss w k = Some f \<Longrightarrow> recorded D (volumesOf (fss w)) k (fs_Label f) (fs_Region f) (fs_Tags f)"
  by (simp add: recorded_def volumesOf_def volumeInfo_def)

lemma oneCall_resolve: "oneCall (resolveSpace s params)"
  unfolding resolveSpace_def
  by (auto intro!: oneCall_liftE oneCall_bindE oneCall_mapErr split: list.split)

lemma oneCall_find: "oneCall (findExistingFilesystem s i l r)"
  unfolding findExistingFilesystem_def
  by (auto intro!: oneCall_liftE oneCall_bindE oneCall_mapErr split: list.split)

lemma oneCall_spacePolicy: "oneCall (getSpaceAccessPolicy s i)"
  unfolding getSpaceAccessPolicy_def by (auto intro!: oneCall_bindE oneCall_mapErr split: option.split)

lemma sat_resolve:
  assumes inv: "createInv good fss rg st" and "cs_linodego s = lg"
    and "par_spaceID params = 0 \<longrightarrow> par_spaceLabel params \<noteq> []"
  shows "sat v (catalogueGrows good fss rg D E) (\<lambda>r _. case r of Inl e \<Rightarrow> True
    | Inr sp \<Rightarrow> spaceMatches labelled params (space_ID sp)) (resolveSpace s params) st"
proof (rule sat_oneCall [OF oneCall_resolve catalogueGrows_preorder])
  fix st1 r st2 assume st1: "catalogueGrows good fss rg D E st st1" and r: "run (resolveSpace s params) v st1 = (r, st2)"
  show "catalogueGrows good fss rg D E st1 st2" by (rule catalogueGrows_frame [OF keepsD [OF frame_resolve r]])
  show "case r of Inl e \<Rightarrow> True | Inr sp \<Rightarrow> spaceMatches labelled params (space_ID sp)"
    using resolve_ok [OF _ assms(2) createInv_good [OF createInv_later [OF st1 inv]] assms(3)] r
    by (auto split: sum.split)
qed

text \<open>A filesystem that the lookup finds is in the catalogue, with the label and region.\<close>

lemma sat_find:
  assumes inv: "createInv good fss rg st" and lg: "cs_linodego s = lg"
  shows "sat v (catalogueGrows good fss rg D E) (\<lambda>r st'. case r of Inr (Some f) \<Rightarrow> fs_SpaceID f = i \<and> fs_Label f = l \<and>
      fs_Region f = a \<and> recorded D (volumesOf (fss (proc_world st'))) (i, fs_ID f) l a (fs_Tags f) | _ \<Rightarrow> True)
    (findExistingFilesystem s i l a) st"
proof (rule sat_oneCall [OF oneCall_find catalogueGrows_preorder])
  fix st1 r st2 st3
  assume st1: "catalogueGrows good fss rg D E st st1" and r: "run (findExistingFilesystem s i l a) v st1 = (r, st2)"
  show st2: "catalogueGrows good fss rg D E st1 st2" by (rule catalogueGrows_frame [OF keepsD [OF frame_find r]])
  assume st3: "catalogueGrows good fss rg D E st2 st3"
  note inv1 = createInv_later [OF st1 inv]
  have "fs_SpaceID f = i \<and> fs_Label f = l \<and> fs_Region f = a \<and>
      recorded D (volumesOf (fss (proc_world st3))) (i, fs_ID f) l a (fs_Tags f)" if x: "r = Inr (Some f)" for f
  proof -
    from find_ok [OF r [unfolded x] lg createInv_good [OF inv1]] have
      f: "fs_SpaceID f = i" "fs_Label f = l" "fs_Region f = a" "fss (proc_world st1) (i, fs_ID f) = Some f" by auto
    from recorded_later [OF st3 createInv_later [OF st2 inv1] recorded_later [OF st2 inv1 recorded_entry [OF f(4)]]] f
    show ?thesis by simp
  qed
  then show "case r of Inr (Some f) \<Rightarrow> fs_SpaceID f = i \<and> fs_Label f = l \<and>
      fs_Region f = a \<and> recorded D (volumesOf (fss (proc_world st3))) (i, fs_ID f) l a (fs_Tags f) | _ \<Rightarrow> True"
    by (auto split: sum.split option.split)
qed

lemma sat_wait:
  assumes inv: "createInv good fss rg st"
  shows "sat v (catalogueGrows good fss rg D E) (\<lambda>r st'. case r of Inl e \<Rightarrow> True | Inr f \<Rightarrow> fs_SpaceID f = i \<and> fs_ID f = j \<and>
      recorded D (volumesOf (fss (proc_world st'))) (i, j) (fs_Label f) (fs_Region f) (fs_Tags f))
    (lwerr s m (call (WaitForNFSFilesystemStatus t i j NFSFilesystemStatusActive))) st"
    (is "sat v ?R ?Q ?p st")
proof (rule sat_oneCall)
  fix st1 r st2 st3
  assume st1: "?R st st1" and r: "run ?p v st1 = (r, st2)"
  note inv1 = createInv_later [OF st1 inv]
  have "sameVolumes st1 st2"
    by (rule keepsD [OF keeps_mapErr [OF sameVolumes_rel sameVolumes_wait] r])
  then show st2: "?R st1 st2" by (auto simp: sameVolumes_def catalogueGrows_def createInv_def)
  assume st3: "?R st2 st3"
  have "fs_SpaceID f = i \<and> fs_ID f = j \<and>
      recorded D (volumesOf (fss (proc_world st3))) (i, j) (fs_Label f) (fs_Region f) (fs_Tags f)"
    if x: "r = Inr f" for f
  proof -
    from wait_ok [OF r [unfolded x] createInv_good [OF inv1]] have
      f: "fs_SpaceID f = i" "fs_ID f = j" "fss (proc_world st2) (i, j) = Some f" by auto
    from recorded_later [OF st3 createInv_later [OF st2 inv1] recorded_entry [OF f(3)]] f show ?thesis by simp
  qed
  then show "?Q r st3" by (auto split: sum.split)
qed (auto intro: oneCall_mapErr)

lemma upd_new: "t k = None \<Longrightarrow> (t = t(k \<mapsto> x)) = False"
  by (metis fun_upd_same option.distinct(1))

lemma create_grows:
  assumes "run (lerr s m (call (CreateNFSFilesystem i o'))) v st = (r, st')" and inv: "createInv good fss rg st"
  shows "catalogueGrows good fss rg D E st st' \<and> (\<forall>f. r = Inr f \<longrightarrow> fs_SpaceID f = i \<and>
    recorded D (volumesOf (fss (proc_world st'))) (i, fs_ID f) (cr_Label o') (cr_Region o') (requestedTags o'))"
proof -
  obtain x w where c: "lc_CreateNFSFilesystem (env_client v) i o' (proc_world st) = (x, w)" by fastforce
  with assms(1) have st': "st' = st\<lparr>proc_world := w\<rparr>" "r = Inr f \<longleftrightarrow> x = Inr f" for f
    by (auto simp: run_simps split: sum.splits)
  note created = create [OF createInv_good [OF inv] c]
  show ?thesis
  proof (cases "fss w = fss (proc_world st)")
    case True
    with created inv st' show ?thesis
      by (auto simp: catalogueGrows_def createInv_def recorded_def volumesOf_def volumeInfo_def upd_new
          split: sum.splits)
  next
    case False
    let ?A = "volumesOf (fss (proc_world st))"
    from False created obtain f where f: "x = Inr f" "fs_SpaceID f = i" "fs_Label f = cr_Label o'"
      "fs_Region f = cr_Region o'" "fs_Tags f = requestedTags o'" "good w"
      "fss w = (fss (proc_world st))((i, fs_ID f) \<mapsto> f)" "fss (proc_world st) (i, fs_ID f) = None"
      by (auto split: sum.splits)
    have A: "?A (i, fs_ID f) = None" using f(8) by (simp add: volumesOf_def)
    have A': "volumesOf (fss w) = ?A((i, fs_ID f) \<mapsto> volumeInfo f)" by (simp add: f(7) volumesOf_upd)
    have "unused ?A i (cr_Label o') (cr_Region o')"
      using single [OF createInv_good [OF inv] c [unfolded f(1)]] f(8)
      by (fastforce simp: unused_def volumesOf_def volumeInfo_def)
    then have "uniqueLabels ?A \<Longrightarrow> uniqueLabels (volumesOf (fss w))"
      using A' f(3-5) by (simp add: volumeInfo_def unique_upd)
    moreover have "outlives D E ?A (volumesOf (fss w))"
      using A by (intro outlives_map_le) (auto simp: A' map_le_def)
    ultimately show ?thesis
      using inv f A' st' by (simp add: catalogueGrows_def createInv_def volumeInfo_def recorded_def)
  qed
qed

lemma sat_create:
  assumes inv: "createInv good fss rg st"
  shows "sat v (catalogueGrows good fss rg D E) (\<lambda>r st'. case r of Inl e \<Rightarrow> True | Inr f \<Rightarrow> fs_SpaceID f = i \<and>
      recorded D (volumesOf (fss (proc_world st'))) (i, fs_ID f) (cr_Label o') (cr_Region o') (requestedTags o'))
    (lerr s m (call (CreateNFSFilesystem i o'))) st"
    (is "sat v ?R ?Q ?p st")
proof (rule sat_oneCall)
  fix st1 r st2 st3
  assume st1: "?R st st1" and r: "run ?p v st1 = (r, st2)"
  note inv1 = createInv_later [OF st1 inv]
  note g = create_grows [OF r inv1]
  then show st2: "?R st1 st2" by simp
  assume st3: "?R st2 st3"
  from g recorded_later [OF st3 createInv_later [OF st2 inv1]] show "?Q r st3" by (fastforce split: sum.split)
qed (auto intro: oneCall_mapErr)

text \<open>The end of a creation: what the volume is, is known before the squash policy is set.\<close>

lemma sat_finalize:
  "sat v (catalogueGrows good fss rg D E) (\<lambda>r _. case r of Inl e \<Rightarrow> True | Inr vol \<Rightarrow> vol = csiVolume f (sp_MTLSMode sp))
     (finalizeFilesystemVolume s f params sp) st"
  unfolding finalizeFilesystemVolume_def
proof (rule sat_bindE [OF quietD [OF quiet_Ret] catalogueGrows_preorder], goal_cases)
  case (1 a st')
  have "quiet rg D E (if par_squashPolicySet params
      then setInitialSquashPolicy s (fs_SpaceID f) (fs_ID f) (par_squashPolicy params) else okE ())"
    by (auto intro: quiet_squash quiet_intros)
  then show ?case by (rule sat_bindE [OF quietD catalogueGrows_preorder]) (simp_all add: sat_Ret)
qed (simp add: sat_Ret)

lemma sat_volume:
  assumes inv: "createInv good fss rg st"
    and "recorded D (volumesOf (fss (proc_world st))) (i, j) label rg tags" and k: "fs_SpaceID f = i" "fs_ID f = j"
  shows "sat v (catalogueGrows good fss rg D E) (\<lambda>r st'. namesVolume D i label rg tags r (volumesOf (fss (proc_world st'))))
    (finalizeFilesystemVolume s f params sp) st"
proof (rule sat_mono [OF sat_finalize catalogueGrows_preorder])
  fix r :: "goError + Volume" and st'
  assume "case r of Inl e \<Rightarrow> True | Inr vol \<Rightarrow> vol = csiVolume f (sp_MTLSMode sp)"
    and "catalogueGrows good fss rg D E st st'"
  with recorded_later [OF this(2) inv assms(2)] k show "namesVolume D i label rg tags r (volumesOf (fss (proc_world st')))"
    by (auto simp: namesVolume_def csiVolume_def split: sum.splits)
qed

lemma sat_existing:
  assumes inv: "createInv good fss rg st" and g: "fs_SpaceID g = i"
    "recorded D (volumesOf (fss (proc_world st))) (i, fs_ID g) label rg tags"
  shows "sat v (catalogueGrows good fss rg D E)
    (\<lambda>r st'. namesVolume D i label rg (elems (par_tags params)) r (volumesOf (fss (proc_world st'))))
    (handleExistingFilesystem s g params sp cr None) st"
    (is "sat v ?R ?Q _ st")
  unfolding handleExistingFilesystem_def checkSource_def option.case bindE_Ret g(1)
proof (rule sat_bindE [OF sat_wait [OF inv] catalogueGrows_preorder], goal_cases)
  case (1 f st1)
  then have f: "fs_SpaceID f = i" "fs_ID f = fs_ID g"
    "recorded D (volumesOf (fss (proc_world st1))) (i, fs_ID g) (fs_Label f) (fs_Region f) (fs_Tags f)" by auto
  have inv1: "createInv good fss rg st1" by (rule createInv_later [OF 1(2) inv])
  from recorded_same [OF recorded_later [OF 1(2) inv g(2)] f(3)] f(3)
  have info: "recorded D (volumesOf (fss (proc_world st1))) (i, fs_ID g) label rg (fs_Tags f)"
    by (auto simp: recorded_def)
  show ?case
  proof (cases "validateExistingFilesystemCapacity f cr = Inr () \<and> validateExistingFilesystem f params = Inr ()")
    case True
    then have "fs_Tags f = elems (par_tags params)" by (auto simp: validateExistingFilesystem_def split: if_splits)
    with sat_volume [OF inv1 info f(1,2), of E s params sp] True show ?thesis by simp
  next
    case False
    then show ?thesis
      by (cases "validateExistingFilesystemCapacity f cr"; cases "validateExistingFilesystem f params")
        (auto simp: sat_Ret)
  qed
qed (simp add: sat_Ret)

lemma sat_createFilesystem:
  assumes inv: "createInv good fss rg st" and region: "par_region params = rg"
  shows "sat v (catalogueGrows good fss rg D E) (\<lambda>r st'. namesVolume D i label rg (elems (par_tags params)) r (volumesOf (fss (proc_world st'))))
    (createFilesystem s i label params sp cap) st"
    (is "sat v ?R ?Q _ st")
  unfolding createFilesystem_def
proof (rule sat_bindE [OF sat_create [OF inv] catalogueGrows_preorder], goal_cases)
  case (1 g st1)
  then have g: "fs_SpaceID g = i"
    "recorded D (volumesOf (fss (proc_world st1))) (i, fs_ID g) label rg (elems (par_tags params))"
    using region by (auto simp: createOptions_def requestedTags_def split: if_splits)
  have inv1: "createInv good fss rg st1" by (rule createInv_later [OF 1(2) inv])
  show ?case
  proof (rule sat_bindE [OF sat_wait [OF inv1] catalogueGrows_preorder], goal_cases)
    case (1 f st2)
    then have f: "fs_SpaceID f = i" "fs_ID f = fs_ID g" using g(1) by auto
    show ?case
      by (rule sat_volume [OF createInv_later [OF 1(2) inv1] recorded_later [OF 1(2) inv1 g(2)] f])
  qed (simp add: sat_Ret)
qed (simp add: sat_Ret)

lemma sat_createOrReuse:
  assumes inv: "createInv good fss rg st" and region: "par_region params = rg"
    and found: "\<And>f. found = Some f \<Longrightarrow> fs_SpaceID f = i \<and>
      recorded D (volumesOf (fss (proc_world st))) (i, fs_ID f) (volumeLabel s (cv_Name req)) rg (fs_Tags f)"
  shows "sat v (catalogueGrows good fss rg D E)
    (\<lambda>r st'. namesVolume D i (volumeLabel s (cv_Name req)) rg (elems (par_tags params)) r (volumesOf (fss (proc_world st'))))
    (createOrReuse s req params i sp found) st"
proof (cases found)
  case None
  with sat_createFilesystem [OF inv region] show ?thesis by (simp add: createOrReuse_def)
next
  case (Some f)
  with found have "fs_SpaceID f = i"
    "recorded D (volumesOf (fss (proc_world st))) (i, fs_ID f) (volumeLabel s (cv_Name req)) rg (fs_Tags f)"
    by blast+
  from sat_existing [OF inv this] Some show ?thesis by (simp add: createOrReuse_def)
qed

lemma sat_inRegion:
  assumes lg: "cs_linodego s = lg" and inv: "createInv good fss rg st" and region: "par_region params = rg"
    and space: "par_spaceID params = 0 \<longrightarrow> par_spaceLabel params \<noteq> []"
  shows "sat v (catalogueGrows good fss rg D E) (\<lambda>r st'. case r of Inl e \<Rightarrow> True
      | Inr vol \<Rightarrow> \<exists>i. spaceMatches labelled params i \<and>
          namesVolume D i (volumeLabel s (cv_Name req)) rg (elems (par_tags params)) r (volumesOf (fss (proc_world st'))))
    (inRegion s req params) st"
  unfolding inRegion_def region
proof (rule sat_bindE [OF sat_resolve [OF inv lg space] catalogueGrows_preorder], goal_cases)
  case (1 space st2)
  then have i: "spaceMatches labelled params (space_ID space)" and inv2: "createInv good fss rg st2"
    using inv by (simp_all add: createInv_later)
  show ?case
  proof (rule sat_bindE [OF quietD [OF quiet_oneCall [OF oneCall_spacePolicy frame_spacePolicy]] catalogueGrows_preorder],
      goal_cases)
    case (1 sp st3)
    then have inv3: "createInv good fss rg st3" using inv2 by (simp add: createInv_later)
    show ?case
    proof (rule sat_bindE [OF sat_find [OF inv3 lg] catalogueGrows_preorder], goal_cases)
      case (1 found st4)
      have "sat v (catalogueGrows good fss rg D E)
          (\<lambda>r st'. namesVolume D (space_ID space) (volumeLabel s (cv_Name req)) rg (elems (par_tags params)) r
            (volumesOf (fss (proc_world st')))) (createOrReuse s req params (space_ID space) sp found) st4"
        by (rule sat_createOrReuse [OF createInv_later [OF 1(2) inv3] region]) (use 1(1) in auto)
      then show ?case by (rule sat_mono) (use i in \<open>auto split: sum.split\<close>)
    qed (simp add: sat_Ret)
  qed (simp add: sat_Ret)
qed (simp add: sat_Ret)

text \<open>The whole of \<open>CreateVolume\<close>.\<close>

lemma sat_CreateVolume:
  assumes rg: "clusterRegion v rg" and lg: "cs_linodego s = lg" and inv: "createInv good fss rg st"
  shows "sat v (catalogueGrows good fss rg D E) (\<lambda>r st'. case r of Inl e \<Rightarrow> True
      | Inr vol \<Rightarrow> createdIn s labelled rg D req (volumesOf (fss (proc_world st'))) (vol_VolumeId vol))
    (CreateVolume s req) st"
    (is "sat v ?R ?Q _ st")
proof (cases "checkCreateRequest req")
  case (Inl e)
  then show ?thesis by (simp add: CreateVolume_inRegion sat_Ret)
next
  case (Inr params)
  have "sat v ?R ?Q (inRegion s req (params\<lparr>par_region := rg\<rparr>)) st1" if "createInv good fss rg st1" for st1
    by (rule sat_mono [OF sat_inRegion [OF lg that]])
      (use checkCreateRequest_space [OF Inr] Inr in \<open>auto simp: namesVolume_def createdIn_def split: sum.splits\<close>)
  note rest = this
  have region: "sat v ?R (\<lambda>r _. case r of Inl e \<Rightarrow> True | Inr a \<Rightarrow> a = rg)
      (mapErr (\<lambda>err. StatusError FailedPrecondition ''resolve region: %v'' [AErr err]) Region) st"
    by (rule sat_mapErr [OF sat_Region [OF rg inv] catalogueGrows_preorder]) (auto simp: sat_Ret)
  show ?thesis
    unfolding CreateVolume_inRegion Inr bindE_Ret
    by (rule sat_bindE [OF region catalogueGrows_preorder]) (auto simp: sat_Ret intro: rest createInv_later [OF _ inv])
qed

lemma concurrent:
  assumes rg: "clusterRegion v rg" and lg: "cs_linodego s = lg" and inv: "createInv good fss rg st"
    and reach: "reach v (map (CreateVolume s) reqs, st) (ts, st')"
  shows "createInv good fss rg st' \<and> volumesOf (fss (proc_world st)) \<subseteq>\<^sub>m volumesOf (fss (proc_world st')) \<and>
    (\<forall>m < length reqs. \<forall>vol. ts ! m = Ret (Inr vol) \<longrightarrow>
       createdIn s labelled rg {} (reqs ! m) (volumesOf (fss (proc_world st'))) (vol_VolumeId vol))"
proof -
  have each: "sat v (catalogueGrows good fss rg {} {}) (\<lambda>r st'. case r of Inl e \<Rightarrow> True
      | Inr vol \<Rightarrow> createdIn s labelled rg {} (reqs ! m) (volumesOf (fss (proc_world st'))) (vol_VolumeId vol))
    (fst (map (CreateVolume s) reqs, st) ! m) (snd (map (CreateVolume s) reqs, st))"
    if "m < length (fst (map (CreateVolume s) reqs, st))" for m
    using sat_CreateVolume [OF rg lg inv] that by simp
  from sat_concurrent [OF reach catalogueGrows_preorder each] have
    s: "catalogueGrows good fss rg {} {} st st'" "length ts = length reqs" and
    q: "\<And>m. m < length reqs \<Longrightarrow> sat v (catalogueGrows good fss rg {} {}) (\<lambda>r st'. case r of Inl e \<Rightarrow> True
      | Inr vol \<Rightarrow> createdIn s labelled rg {} (reqs ! m) (volumesOf (fss (proc_world st'))) (vol_VolumeId vol))
      (ts ! m) st'" by auto
  have "createdIn s labelled rg {} (reqs ! m) (volumesOf (fss (proc_world st'))) (vol_VolumeId vol)"
    if "m < length reqs" "ts ! m = Ret (Inr vol)" for m vol
    using sat_result [OF catalogueGrows_preorder q [OF that(1), unfolded that(2)]] by simp
  with s(1) inv show ?thesis by (simp add: catalogueGrows_def)
qed

end

text \<open>The volume IDs of a set of volumes.\<close>

definition handlesOf :: "(int \<times> int) set \<Rightarrow> string set" where
  "handlesOf D = (\<lambda>(i, j). formatVolumeHandle i j) ` D"

lemma handlesOf_none [simp]: "handlesOf {} = {}"
  by (simp add: handlesOf_def)

lemma recorded_present:
  "recorded D A (i, j) l rg tags \<Longrightarrow> formatVolumeHandle i j \<notin> handlesOf D \<Longrightarrow> \<exists>c. A (i, j) = Some (l, rg, tags, c)"
  by (auto simp: recorded_def handlesOf_def)

lemma createdIn_entry:
  assumes "createdIn s labelled rg D q A x" and "spaceOf labelled q i" and "x \<notin> handlesOf D"
  obtains j c tags where "x = formatVolumeHandle i j" "A (i, j) = Some (volumeLabel s (cv_Name q), rg, tags, c)"
  using assms unfolding createdIn_def spaceOf_def spaceMatches_def
  by (auto split: if_splits dest!: recorded_present)

lemma createdIn_same:
  assumes "createdIn s labelled rg D q A x" and "createdIn s labelled rg D q' A y" and "uniqueLabels A"
    and "volumeLabel s (cv_Name q) = volumeLabel s (cv_Name q')"
    and "spaceOf labelled q i" and "spaceOf labelled q' i" and "x \<notin> handlesOf D" and "y \<notin> handlesOf D"
  shows "x = y"
proof -
  from createdIn_entry [OF assms(1,5,7)] obtain j c tags where
    x: "x = formatVolumeHandle i j" "A (i, j) = Some (volumeLabel s (cv_Name q), rg, tags, c)" .
  from createdIn_entry [OF assms(2,6,8)] obtain j' c' tags' where
    y: "y = formatVolumeHandle i j'" "A (i, j') = Some (volumeLabel s (cv_Name q'), rg, tags', c')" .
  from uniqueLabelsD [OF assms(3) x(2)] y(2) assms(4) have "j = j'" by simp
  with x y show ?thesis by simp
qed

subsection \<open>The in-memory backend\<close>

text \<open>A contract that holds under one invariant of the backend holds under a stronger one.\<close>

lemma keepsWorld_call:
  assumes "keepsWorld v I" and "I w" and "\<And>s. step v e s = onWorld f (\<lambda>_. ()) s"
  shows "I (snd (f w))"
  using keepsWorld_step [OF assms(1), of "undefined\<lparr>proc_world := w\<rparr>" e] assms(2)
  by (simp add: assms(3) onWorld_def split: prod.splits)

lemma keepsWorld_calls:
  assumes "keepsWorld v I" and "I w"
  shows "I (snd (lc_ListNFSSpaces (env_client v) o1 w))" "I (snd (lc_GetNFSSpace (env_client v) i w))"
    "I (snd (lc_ListNFSFilesystems (env_client v) i o1 w))"
    "I (snd (lc_CreateNFSFilesystem (env_client v) i o' w))"
    "I (snd (lc_WaitForNFSFilesystemStatus (env_client v) t i j st w))"
    "I (snd (lc_DeleteNFSFilesystem (env_client v) i j w))"
    "I (snd (lc_GetNFSSpaceAccessPolicy (env_client v) i w))"
    "I (snd (lc_GetNFSFilesystemAccessPolicy (env_client v) i j w))"
    "I (snd (lc_UpdateNFSFilesystemAccessPolicy (env_client v) i j o2 w))"
    "I (snd (lc_WaitForNFSFilesystemAccessPolicyStatus (env_client v) t i j status w))"
    "I (snd (mc_ListNodes (env_metadata v) w))"
  by (rule keepsWorld_call [OF assms step.simps(1)] keepsWorld_call [OF assms step.simps(2)]
      keepsWorld_call [OF assms step.simps(3)] keepsWorld_call [OF assms step.simps(5)]
      keepsWorld_call [OF assms step.simps(6)] keepsWorld_call [OF assms step.simps(7)]
      keepsWorld_call [OF assms step.simps(10)] keepsWorld_call [OF assms step.simps(11)]
      keepsWorld_call [OF assms step.simps(12)] keepsWorld_call [OF assms step.simps(13)]
      keepsWorld_call [OF assms step.simps(15)])+

lemma frame_stronger:
  "frame good fss w w' \<Longrightarrow> (\<And>w. I w \<Longrightarrow> good w) \<Longrightarrow> (I w \<Longrightarrow> I w') \<Longrightarrow> frame I fss w w'"
  by (auto simp: frame_def)

lemma filesystem_store_stronger:
  assumes s: "filesystem_store v lg fss good labelled" and g: "\<And>w. I w \<Longrightarrow> good w" and k: "keepsWorld v I"
  shows "filesystem_store v lg fss I labelled"
proof (unfold_locales, goal_cases)
  case (1 w i j f)
  then show ?case using filesystem_store.keys [OF s] g by blast
next
  case (2 l r b w i fs w')
  then show ?case using filesystem_store.list_filesystems [OF s] g by blast
next
  case (3 w i o' x w')
  then show ?case using filesystem_store.create [OF s g] keepsWorld_calls(4) [OF k, of w i o'] by auto
next
  case (4 w t i j x w')
  then show ?case
    using filesystem_store.wait_filesystem [OF s g] keepsWorld_calls(5) [OF k, of w t i j NFSFilesystemStatusActive] by auto
next
  case (5 w i j d w')
  then show ?case using filesystem_store.delete [OF s g] keepsWorld_calls(6) [OF k, of w i j] by auto
next
  case (6 i w y w')
  then show ?case
    using filesystem_store.get_space [OF s 6] keepsWorld_calls(2) [OF k, of w i] frame_stronger [OF _ g] by fastforce
next
  case (7 l b w sps w')
  then show ?case using filesystem_store.list_spaces [OF s] g by blast
next
  case 8
  show ?case
    by (rule frame_stronger [where good = good], rule filesystem_store.frame_list_spaces [OF s], erule g, erule keepsWorld_calls(1) [OF k])
next
  case 9
  show ?case
    by (rule frame_stronger [where good = good], rule filesystem_store.frame_list_filesystems [OF s], erule g, erule keepsWorld_calls(3) [OF k])
next
  case 10
  show ?case
    by (rule frame_stronger [where good = good], rule filesystem_store.frame_space_policy [OF s], erule g, erule keepsWorld_calls(7) [OF k])
next
  case 11
  show ?case
    by (rule frame_stronger [where good = good], rule filesystem_store.frame_get_policy [OF s], erule g, erule keepsWorld_calls(8) [OF k])
next
  case 12
  show ?case
    by (rule frame_stronger [where good = good], rule filesystem_store.frame_update_policy [OF s], erule g, erule keepsWorld_calls(9) [OF k])
next
  case 13
  show ?case
    by (rule frame_stronger [where good = good], rule filesystem_store.frame_wait_policy [OF s], erule g, erule keepsWorld_calls(10) [OF k])
next
  case 14
  show ?case
    by (rule frame_stronger [where good = good], rule filesystem_store.frame_list_nodes [OF s], erule g, erule keepsWorld_calls(11) [OF k])
qed

lemma backend_single:
  assumes w: "backendWf w" and c: "san_CreateNFSFilesystem i o' w = (Inr f, w')"
    and g: "sanityFilesystems w (i, j) = Some g" "fs_Label g = cr_Label o'"
  shows "fs_ID f = j"
proof -
  from g have i: "i = fakeSanitySpaceID" "map_of (sw_filesystems w) j = Some g"
    by (auto simp: sanityFilesystems_def split: if_splits)
  with w g(2) have "map_of (sw_filesystemByName w) (fakeSanityFilesystemName i (cr_Label o')) = Some j"
    unfolding backendWf_def namesMatch_def by metis
  with c i(2) have "f = g" by (auto simp: san_CreateNFSFilesystem_def Let_def split: sum.splits if_splits)
  with wf_at [OF w i(2)] show ?thesis by simp
qed

lemma sanity_filesystem_store: "filesystem_store sanityEnv sanityLinodego sanityFilesystems backendWf sanityLabelled"
  by (rule filesystem_store_stronger [OF sanity_store.filesystem_store_axioms _ keepsWorld_backend(2)])
    (simp add: backendWf_def)

interpretation sanity_unique: unique_store sanityEnv sanityLinodego sanityFilesystems backendWf sanityLabelled
  by (intro unique_store.intro unique_store_axioms.intro sanity_filesystem_store)
    (auto simp: sanityEnv_def sanityClient_def intro: backend_single)

subsection \<open>Properties\<close>

text \<open>Concurrent creations of one name get one volume: under every interleaving of any number of
  \<open>CreateVolume\<close> calls in a cluster of one region, no volume goes away, no two volumes of one space and region
  have one label, every call that has succeeded names a volume with its label, region and tags, and two that
  succeeded for names with one label, in one space, name the same volume.\<close>

lemma concurrent_creates:
  assumes "unique_store v (cs_linodego s) fss good labelled" and "clusterRegion v rg"
    and "createInv good fss rg st" and "reach v (map (CreateVolume s) reqs, st) (ts, st')"
  shows "createInv good fss rg st' \<and> volumesOf (fss (proc_world st)) \<subseteq>\<^sub>m volumesOf (fss (proc_world st')) \<and>
    (\<forall>m < length reqs. \<forall>vol. ts ! m = Ret (Inr vol) \<longrightarrow>
       createdIn s labelled rg {} (reqs ! m) (volumesOf (fss (proc_world st'))) (vol_VolumeId vol)) \<and>
    (\<forall>m < length reqs. \<forall>n < length reqs. \<forall>vol vol' i. ts ! m = Ret (Inr vol) \<longrightarrow> ts ! n = Ret (Inr vol') \<longrightarrow>
       volumeLabel s (cv_Name (reqs ! m)) = volumeLabel s (cv_Name (reqs ! n)) \<longrightarrow>
       spaceOf labelled (reqs ! m) i \<longrightarrow> spaceOf labelled (reqs ! n) i \<longrightarrow> vol_VolumeId vol = vol_VolumeId vol')"
proof -
  note c = unique_store.concurrent [OF assms(1,2) refl assms(3,4)]
  then have u: "uniqueLabels (volumesOf (fss (proc_world st')))" by (simp add: createInv_def)
  have "vol_VolumeId vol = vol_VolumeId vol'"
    if "m < length reqs" "n < length reqs" "ts ! m = Ret (Inr vol)" "ts ! n = Ret (Inr vol')"
      "volumeLabel s (cv_Name (reqs ! m)) = volumeLabel s (cv_Name (reqs ! n))"
      "spaceOf labelled (reqs ! m) i" "spaceOf labelled (reqs ! n) i" for m n vol vol' i
  proof (rule createdIn_same [OF _ _ u that(5-7)])
    show "createdIn s labelled rg {} (reqs ! m) (volumesOf (fss (proc_world st'))) (vol_VolumeId vol)"
      "createdIn s labelled rg {} (reqs ! n) (volumesOf (fss (proc_world st'))) (vol_VolumeId vol')"
      using c that(1-4) by blast+
  qed simp_all
  with c show ?thesis by blast
qed

text \<open>Two requests for one name, with different capacities, that both find no volume before either creates it.\<close>

definition largeReq :: CreateVolumeRequest where
  "largeReq = createReq\<lparr>cv_CapacityRange := Some \<lparr>cap_RequiredBytes = 5000, cap_LimitBytes = 0\<rparr>\<rparr>"

definition creationsEnd :: "(goError + Volume, SanityWorld) config" where
  "creationsEnd = runSchedule sanityEnv ([0,0,0,0,0,0,0,0] @ [1,1,1,1,1,1] @ [0,1,0,1])
     (map (CreateVolume sanityServer) [createReq, largeReq], sanityProc)"

lemma creationsEnd_results: "map progResult (fst creationsEnd) = [Some (Inr createdVolume), Some (Inr createdVolume)]"
  by code_simp

lemma creationsEnd_finished: "fst creationsEnd = [Ret (Inr createdVolume), Ret (Inr createdVolume)]"
  using creationsEnd_results by (auto simp: map_eq_Cons_conv progResult_Some)

lemma creationsEnd_reach:
  "reach sanityEnv (map (CreateVolume sanityServer) [createReq, largeReq], sanityProc) (fst creationsEnd, snd creationsEnd)"
  unfolding prod.collapse creationsEnd_def by (rule runSchedule_reach) (rule HOL.refl)

theorem concurrent_creates_witness:
  "createdIn sanityServer sanityLabelled sanityRegion {} createReq
     (volumesOf (sanityFilesystems (proc_world (snd creationsEnd)))) (vol_VolumeId createdVolume) \<and>
   uniqueLabels (volumesOf (sanityFilesystems (proc_world (snd creationsEnd))))"
proof -
  have store: "unique_store sanityEnv (cs_linodego sanityServer) sanityFilesystems backendWf sanityLabelled"
    using sanity_unique.unique_store_axioms by (simp add: sanityServer_def)
  have "regionFromNode (Some sanityNode) = Inr sanityRegion" by code_simp
  then have rg: "clusterRegion sanityEnv sanityRegion"
    by (simp add: clusterRegion_def sanityEnv_def sanityMetadata_def)
  have inv: "createInv backendWf sanityFilesystems sanityRegion sanityProc"
    by (simp add: createInv_def sanityProc_volumes uniqueLabels_def) (simp add: sanityProc_def backendWf_start)
  note c = concurrent_creates [OF store rg inv creationsEnd_reach]
  from conjunct1 [OF c] have "uniqueLabels (volumesOf (sanityFilesystems (proc_world (snd creationsEnd))))"
    by (simp add: createInv_def)
  with conjunct1 [OF conjunct2 [OF conjunct2 [OF c]], rule_format, of 0 createdVolume] show ?thesis
    by (simp add: creationsEnd_finished)
qed

end
