(* ===== verification/ConcurrentRpcs.thy ===== *)
theory ConcurrentRpcs
  imports ConcurrentCreate LockedRpcs CreateAvailable
begin

text \<open>
  Creations among all other requests. A process serves the RPCs of both services at once, and \<open>CreateVolume\<close>
  and \<open>DeleteVolume\<close> take no lock. Whatever requests run concurrently, a volume that none of them asks to delete
  stays in the catalogue with its label, region and tags, its capacity never shrinks and changes only if one of
  them asks to expand it, labels stay unique, and every creation that succeeds names a volume with the label, region
  and tags of its request. Each handler but \<open>CreateVolume\<close> is shown to keep the relation that the creations rely
  on (\<open>catalogueGrows\<close>), call by call.
\<close>

subsection \<open>The requests and their answers\<close>

datatype rpcResponse =
    Done
  | Created Volume
  | Validated ValidateVolumeCapabilitiesResponse
  | Expanded ControllerExpandVolumeResponse
  | Found ControllerGetVolumeResponse
  | Usage "VolumeUsage list"
  | Info string

text \<open>The handler of a request with its whole answer.\<close>

primrec answerRpc :: "ControllerServer \<Rightarrow> NodeServer \<Rightarrow> rpc \<Rightarrow> (goError + rpcResponse) prog" where
  "answerRpc cs ns (RpcCreateVolume r) = respond Created (CreateVolume cs r)"
| "answerRpc cs ns (RpcDeleteVolume r) = respond (\<lambda>_. Done) (DeleteVolume cs r)"
| "answerRpc cs ns (RpcPublishVolume r) = respond (\<lambda>_. Done) (ControllerPublishVolume cs r)"
| "answerRpc cs ns (RpcUnpublishVolume r) = respond (\<lambda>_. Done) (ControllerUnpublishVolume cs r)"
| "answerRpc cs ns (RpcValidateCapabilities r) = respond Validated (ValidateVolumeCapabilities cs r)"
| "answerRpc cs ns (RpcExpandVolume r) = respond Expanded (ControllerExpandVolume cs r)"
| "answerRpc cs ns (RpcGetVolume r) = respond Found (ControllerGetVolume cs r)"
| "answerRpc cs ns (RpcNodeStage r) = respond (\<lambda>_. Done) (NodeStageVolume ns r)"
| "answerRpc cs ns (RpcNodeUnstage r) = respond (\<lambda>_. Done) (NodeUnstageVolume ns r)"
| "answerRpc cs ns (RpcNodePublish r) = respond (\<lambda>_. Done) (NodePublishVolume ns r)"
| "answerRpc cs ns (RpcNodeUnpublish r) = respond (\<lambda>_. Done) (NodeUnpublishVolume ns r)"
| "answerRpc cs ns (RpcNodeStats r) = respond Usage (NodeGetVolumeStats ns r)"
| "answerRpc cs ns RpcNodeInfo = respond Info (NodeGetInfo ns)"

text \<open>It is the handler of the progress proof.\<close>

lemma outcome_respond:
  fixes p :: "(goError + 'a) prog" and f :: "'a \<Rightarrow> 'b"
  shows "outcome (respond f p) = outcome p"
proof -
  have "bindP (case r of Inl e \<Rightarrow> failE e | Inr x \<Rightarrow> okE (f x)) (\<lambda>r. Ret (case r of Inl e \<Rightarrow> Some e | Inr _ \<Rightarrow> None)) =
      Ret (case r of Inl e \<Rightarrow> Some e | Inr _ \<Rightarrow> None)" for r :: "goError + 'a"
    by (cases r) simp_all
  then show ?thesis by (simp add: outcome_def respond_def bindE_def bindP_assoc)
qed

lemma outcome_answerRpc: "outcome (answerRpc cs ns r) = serveRpc cs ns r"
  by (cases r) (simp_all add: outcome_respond)

text \<open>The volumes that requests ask to delete and to expand.\<close>

definition namedVolume :: "string \<Rightarrow> (int \<times> int) set" where
  "namedVolume volumeID = (case parseVolumeHandle volumeID of Inl e \<Rightarrow> {} | Inr h \<Rightarrow> {handleKey h})"

fun deletedBy :: "rpc \<Rightarrow> (int \<times> int) set" where
  "deletedBy (RpcDeleteVolume volumeID) = namedVolume volumeID"
| "deletedBy r = {}"

fun expandedBy :: "rpc \<Rightarrow> (int \<times> int) set" where
  "expandedBy (RpcExpandVolume r) = namedVolume (ev_VolumeId r)"
| "expandedBy r = {}"

definition deletions :: "rpc list \<Rightarrow> (int \<times> int) set" where
  "deletions reqs = \<Union> (deletedBy ` set reqs)"

definition expansions :: "rpc list \<Rightarrow> (int \<times> int) set" where
  "expansions reqs = \<Union> (expandedBy ` set reqs)"

subsection \<open>The contract of the other calls\<close>

text \<open>An update of a filesystem changes its capacity alone, and never makes it smaller; no call on the nodes, the
  metadata service or the host concerns filesystems.\<close>

locale rpc_store = unique_store v lg fss good labelled
  for v :: "'w env" and lg and fss and good and labelled +
  assumes resize: "good w \<Longrightarrow> lc_UpdateNFSFilesystem (env_client v) i j u w = (x, w') \<Longrightarrow>
      good w' \<and> (fss w' = fss w \<or> (\<exists>g c. fss w (i, j) = Some g \<and> fs_MaxCapacityBytes g \<le> c \<and>
        fss w' = (fss w)((i, j) \<mapsto> g\<lparr>fs_MaxCapacityBytes := c\<rparr>)))"
    and frame_get_filesystem: "frame good fss w (snd (lc_GetNFSFilesystemInSpace (env_client v) i j w))"
    and frame_list_quotas: "frame good fss w (snd (lc_ListNFSQuotas (env_client v) i j w))"
    and frame_get_node: "frame good fss w (snd (mc_GetNode (env_metadata v) n w))"
    and frame_get_instance: "frame good fss w (snd (mc_GetInstance (env_metadata v) w))"
    and frame_get_network: "frame good fss w (snd (mc_GetNetwork (env_metadata v) w))"
    and frame_not_mount: "frame good fss w (snd (h_IsLikelyNotMountPoint (env_host v) path w))"
    and frame_mount: "frame good fss w (snd (h_Mount (env_host v) source target fstype opts w))"
    and frame_cleanup: "frame good fss w (snd (h_CleanupMountPoint (env_host v) path ext w))"
    and frame_mkdir: "frame good fss w (snd (h_MkdirAll (env_host v) path w))"
    and frame_statfs: "frame good fss w (snd (h_Statfs (env_host v) path w))"

text \<open>The calls that neither touch the table of filesystems nor set the cached region.\<close>

fun bystander :: "'k eff \<Rightarrow> bool" where
  "bystander (CreateNFSFilesystem i opts k) = False"
| "bystander (WaitForNFSFilesystemStatus t i j st k) = False"
| "bystander (DeleteNFSFilesystem i j k) = False"
| "bystander (UpdateNFSFilesystem i j u k) = False"
| "bystander (WriteRegion r k) = False"
| "bystander e = True"

lemma onWorld_frame:
  assumes "\<And>w. frame good fss w (snd (f w))" and "onWorld f k st = (p, st')"
  shows "procFrame good fss st st'"
  using assms(1) [of "proc_world st"] assms(2)
  by (auto simp: onWorld_def procFrame_def split: prod.splits)

context rpc_store
begin

lemma frame_bystander:
  assumes "bystander e" and "step v e st = (p, st')"
  shows "procFrame good fss st st'"
  using assms frame_rel(1) [THEN reflpD]
  by (cases e)
    (auto simp: procFrame_def split: prod.splits
      elim!: onWorld_frame [rotated, unfolded procFrame_def]
      intro: frame_get_filesystem frame_list_quotas frame_get_node frame_get_instance frame_get_network
        frame_not_mount frame_mount frame_cleanup frame_mkdir frame_statfs frame_list_spaces
        frame_list_filesystems frame_space_policy frame_get_policy frame_update_policy frame_wait_policy
        frame_list_nodes get_space [THEN conjunct1, OF prod.collapse [symmetric]])

text \<open>Rules for the calls, for requests that delete the volumes \<open>D\<close> and expand the volumes \<open>E\<close>.\<close>

lemma quiet_step:
  assumes "\<And>st p st'. step v e st = (p, st') \<Longrightarrow> catalogueGrows good fss rg D E st st'"
    and "\<And>p. p \<in> set_eff e \<Longrightarrow> quiet rg D E p"
  shows "quiet rg D E (Do e)"
  unfolding quiet_def
proof (intro allI sat.perform)
  fix st st1 st2 and p :: "'a prog"
  assume s: "step v e st1 = (p, st2)"
  then show "catalogueGrows good fss rg D E st1 st2" by (rule assms(1))
  have "p \<in> set_eff e" using step_set [of v e st1] s by simp
  then show "sat v (catalogueGrows good fss rg D E) (\<lambda>_ _. True) p st2" by (intro quietD assms(2))
qed

lemma quiet_call: "bystander e \<Longrightarrow> (\<And>p. p \<in> set_eff e \<Longrightarrow> quiet rg D E p) \<Longrightarrow> quiet rg D E (Do e)"
  by (rule quiet_step) (auto intro: catalogueGrows_frame frame_bystander)

lemma quiet_delete:
  assumes "(i, j) \<in> D" and "\<And>d. quiet rg D E (k d)"
  shows "quiet rg D E (Do (DeleteNFSFilesystem i j k))"
proof (rule quiet_step)
  fix st p st'
  assume s: "step v (DeleteNFSFilesystem i j k) st = (p, st')"
  show "catalogueGrows good fss rg D E st st'"
    unfolding catalogueGrows_def
  proof (intro impI)
    assume inv: "createInv good fss rg st"
    let ?A = "volumesOf (fss (proc_world st))"
    from s obtain d where "lc_DeleteNFSFilesystem (env_client v) i j (proc_world st) = (d, proc_world st')"
      and region: "proc_region st' = proc_region st" by (auto simp: onWorld_def split: prod.splits)
    from delete [OF createInv_good [OF inv] this(1)] have "good (proc_world st')"
      "fss (proc_world st') = fss (proc_world st) \<or> fss (proc_world st') = (fss (proc_world st))((i, j) := None)"
      by (auto split: option.splits)
    moreover have "outlives D E ?A (?A((i, j) := None))" using assms(1) by (auto simp: outlives_def)
    ultimately show "createInv good fss rg st' \<and> outlives D E ?A (volumesOf (fss (proc_world st')))"
      using inv region by (auto simp: createInv_def volumesOf_remove unique_remove)
  qed
qed (use assms(2) in auto)

lemma quiet_resize:
  assumes "(i, j) \<in> E" and "\<And>x. quiet rg D E (k x)"
  shows "quiet rg D E (Do (UpdateNFSFilesystem i j u k))"
proof (rule quiet_step)
  fix st p st'
  assume s: "step v (UpdateNFSFilesystem i j u k) st = (p, st')"
  show "catalogueGrows good fss rg D E st st'"
    unfolding catalogueGrows_def
  proof (intro impI)
    assume inv: "createInv good fss rg st"
    let ?A = "volumesOf (fss (proc_world st))"
    from s obtain x where "lc_UpdateNFSFilesystem (env_client v) i j u (proc_world st) = (x, proc_world st')"
      "proc_region st' = proc_region st" by (auto simp: onWorld_def split: prod.splits)
    with resize [OF createInv_good [OF inv] this(1)] consider "volumesOf (fss (proc_world st')) = ?A"
      "good (proc_world st')" "proc_region st' = proc_region st"
      | l a tags c c' where "?A (i, j) = Some (l, a, tags, c)" "c \<le> c'" "good (proc_world st')"
        "volumesOf (fss (proc_world st')) = ?A((i, j) \<mapsto> (l, a, tags, c'))" "proc_region st' = proc_region st"
      by (auto simp: volumesOf_upd volumesOf_def volumeInfo_def)
    then show "createInv good fss rg st' \<and> outlives D E ?A (volumesOf (fss (proc_world st')))"
    proof cases
      case 1
      with inv show ?thesis by (simp add: createInv_def)
    next
      case 2
      have "uniqueLabels ?A \<Longrightarrow> uniqueLabels (?A((i, j) \<mapsto> (l, a, tags, c')))"
        using 2(1) by (blast intro: unique_resize)
      moreover have "outlives D E ?A (?A((i, j) \<mapsto> (l, a, tags, c')))"
        using 2(1,2) assms(1) by (auto simp: outlives_def)
      ultimately show ?thesis using 2 inv by (simp add: createInv_def)
    qed
  qed
qed (use assms(2) in auto)

lemma quiet_bindP: "quiet rg D E p \<Longrightarrow> (\<And>a. quiet rg D E (f a)) \<Longrightarrow> quiet rg D E (bindP p f)"
  by (auto simp: quiet_def intro: sat_bindP)

lemma quiet_checkErr: "quiet rg D E p \<Longrightarrow> quiet rg D E (checkErr p)"
  unfolding checkErr_def by (rule quiet_bindP) (auto intro: quiet_Ret split: option.split)

lemmas quiet_rules = quiet_Ret quiet_bindE quiet_mapErr quiet_bindP quiet_checkErr quiet_call

lemma quiet_locked: "quiet rg D E body \<Longrightarrow> quiet rg D E (withVolumeLock key body)"
  by (auto simp: withVolumeLock_def intro!: quiet_rules)

subsection \<open>The handlers\<close>

lemma quiet_respond: "quiet rg D E p \<Longrightarrow> quiet rg D E (respond f p)"
  unfolding respond_def by (auto intro: quiet_rules)

lemma quiet_steps:
  "quiet rg D E (waitForFilesystemAccessPolicyActive s i j)"
  "quiet rg D E (getFilesystemPolicyForVolumeAndNode x y)"
  "quiet rg D E (ensureMountPoint path)"
  "quiet rg D E (mountStage sreq source opts)"
  "quiet rg D E (cleanupAt path msg)"
  "quiet rg D E (NodeByName name)"
  "quiet rg D E (currentNodeFromMetadata m)"
  by (auto simp: waitForFilesystemAccessPolicyActive_def getFilesystemPolicyForVolumeAndNode_def
      ensureMountPoint_def mountStage_def cleanupAt_def NodeByName_def currentNodeFromMetadata_def
      intro!: quiet_rules split: option.split)

lemma quiet_locked_bodies:
  "quiet rg D E (updatePolicyAndWait s h opts)"
  "quiet rg D E (publishLocked s preq)"
  "quiet rg D E (unpublishLocked s ureq)"
  "quiet rg D E (stageLocked sreq source ips)"
  "quiet rg D E (nodePublishLocked nreq)"
  by (auto simp: updatePolicyAndWait_def publishLocked_def unpublishLocked_def
      stageLocked_def nodeStageVolume_def nodePublishLocked_def nodePublishVolume_def Let_def
      intro!: quiet_rules quiet_steps split: sum.split option.split)

lemma quiet_expand: "handleKey h \<in> E \<Longrightarrow> quiet rg D E (expandLocked s h r l c)"
  by (auto simp: expandLocked_def handleKey_def
      intro!: quiet_Ret quiet_bindE quiet_mapErr quiet_call quiet_resize split: option.split)

lemma quiet_answer:
  assumes "\<And>q. r \<noteq> RpcCreateVolume q" and D: "deletedBy r \<subseteq> D" and E: "expandedBy r \<subseteq> E"
  shows "quiet rg D E (answerRpc cs ns r)"
proof (cases r)
  case (RpcCreateVolume q)
  with assms(1) show ?thesis by blast
next
  case (RpcDeleteVolume volumeID)
  with D show ?thesis
    by (auto simp: DeleteVolume_def namedVolume_def handleKey_def
        intro!: quiet_respond quiet_Ret quiet_bindP quiet_delete split: sum.splits option.split)
next
  case (RpcExpandVolume q)
  show ?thesis
  proof (cases "parseVolumeHandle (ev_VolumeId q)")
    case (Inr h)
    with E RpcExpandVolume have "handleKey h \<in> E" by (simp add: namedVolume_def)
    with Inr RpcExpandVolume show ?thesis
      by (auto simp: ControllerExpandVolume_def Let_def
          intro!: quiet_respond quiet_rules quiet_locked quiet_expand split: option.split)
  qed (auto simp: RpcExpandVolume ControllerExpandVolume_def Let_def
      intro!: quiet_respond quiet_rules split: option.split)
next
  case RpcNodeInfo
  then show ?thesis
    by (auto simp: NodeGetInfo_def CurrentNode_def intro!: quiet_respond quiet_rules quiet_steps
        split: option.split sum.split)
qed (auto simp: ControllerPublishVolume_def ControllerUnpublishVolume_def
    ValidateVolumeCapabilities_def ControllerGetVolume_def NodeStageVolume_def
    NodeUnstageVolume_def NodePublishVolume_def NodeUnpublishVolume_def NodeGetVolumeStats_def Let_def
    intro!: quiet_respond quiet_locked quiet_rules quiet_steps quiet_locked_bodies
    split: sum.split option.split prod.split)

lemma createdIn_outlives:
  "createdIn s labelled rg D q A x \<Longrightarrow> outlives D E A A' \<Longrightarrow> createdIn s labelled rg D q A' x"
  unfolding createdIn_def by (blast intro: recorded_outlives)

text \<open>Every request keeps the relation, and a creation names a volume of the catalogue.\<close>

lemma sat_answer:
  assumes rg: "clusterRegion v rg" and lg: "cs_linodego cs = lg" and inv: "createInv good fss rg st"
    and D: "deletedBy r \<subseteq> D" and E: "expandedBy r \<subseteq> E"
  shows "sat v (catalogueGrows good fss rg D E)
    (\<lambda>x st'. \<forall>q vol. r = RpcCreateVolume q \<longrightarrow> x = Inr (Created vol) \<longrightarrow>
       createdIn cs labelled rg D q (volumesOf (fss (proc_world st'))) (vol_VolumeId vol))
    (answerRpc cs ns r) st"
proof (cases "\<exists>q. r = RpcCreateVolume q")
  case False
  then have "quiet rg D E (answerRpc cs ns r)" by (intro quiet_answer D E) blast
  from quietD [OF this, of st] show ?thesis by (rule sat_mono) (use False in auto)
next
  case True
  then obtain q where q: "r = RpcCreateVolume q" by blast
  have "sat v (catalogueGrows good fss rg D E)
      (\<lambda>x st'. \<forall>vol. x = Inr (Created vol) \<longrightarrow>
         createdIn cs labelled rg D q (volumesOf (fss (proc_world st'))) (vol_VolumeId vol))
      (answerRpc cs ns r) st"
    unfolding q answerRpc.simps respond_def
    by (rule sat_bindE [OF sat_CreateVolume [OF rg lg inv] catalogueGrows_preorder])
      (use inv in \<open>auto simp: sat_Ret catalogueGrows_def intro: createdIn_outlives\<close>)
  then show ?thesis by (rule sat_mono) (use q in auto)
qed

lemma concurrent_answers:
  assumes rg: "clusterRegion v rg" and lg: "cs_linodego cs = lg" and inv: "createInv good fss rg st"
    and reach: "reach v (map (answerRpc cs ns) reqs, st) (ts, st')"
  shows "createInv good fss rg st' \<and>
    outlives (deletions reqs) (expansions reqs) (volumesOf (fss (proc_world st))) (volumesOf (fss (proc_world st'))) \<and>
    (\<forall>m < length reqs. \<forall>q vol. reqs ! m = RpcCreateVolume q \<longrightarrow> ts ! m = Ret (Inr (Created vol)) \<longrightarrow>
       createdIn cs labelled rg (deletions reqs) q (volumesOf (fss (proc_world st'))) (vol_VolumeId vol))"
proof -
  let ?R = "catalogueGrows good fss rg (deletions reqs) (expansions reqs)"
  let ?Q = "\<lambda>m (x :: goError + rpcResponse) st'. \<forall>q vol. reqs ! m = RpcCreateVolume q \<longrightarrow> x = Inr (Created vol) \<longrightarrow>
       createdIn cs labelled rg (deletions reqs) q (volumesOf (fss (proc_world st'))) (vol_VolumeId vol)"
  have each: "sat v ?R (?Q m) (fst (map (answerRpc cs ns) reqs, st) ! m) (snd (map (answerRpc cs ns) reqs, st))"
    if "m < length (fst (map (answerRpc cs ns) reqs, st))" for m
  proof -
    from that have "reqs ! m \<in> set reqs" by simp
    then have "deletedBy (reqs ! m) \<subseteq> deletions reqs" "expandedBy (reqs ! m) \<subseteq> expansions reqs"
      by (auto simp: deletions_def expansions_def)
    from sat_answer [OF rg lg inv this] that show ?thesis by simp
  qed
  from sat_concurrent [OF reach catalogueGrows_preorder each] have
    s: "?R st st'" "length ts = length reqs" and q: "\<And>m. m < length reqs \<Longrightarrow> sat v ?R (?Q m) (ts ! m) st'" by auto
  have "?Q m (Inr (Created vol)) st'" if "m < length reqs" "ts ! m = Ret (Inr (Created vol))" for m vol
    using sat_result [OF catalogueGrows_preorder q [OF that(1), unfolded that(2)]] .
  with s(1) inv show ?thesis unfolding catalogueGrows_def by blast
qed

end

subsection \<open>The in-memory backend\<close>

lemma filesystem_store_env:
  assumes "filesystem_store v lg fss good labelled" and "env_client v' = env_client v"
    and "env_metadata v' = env_metadata v"
  shows "filesystem_store v' lg fss good labelled"
  using assms(1) unfolding filesystem_store_def assms(2,3) .

lemma backend_resize:
  assumes w: "backendWf w" and r: "san_UpdateNFSFilesystem i j u w = (x, w')"
  shows "sanityFilesystems w' = sanityFilesystems w \<or>
    (\<exists>g c. sanityFilesystems w (i, j) = Some g \<and> fs_MaxCapacityBytes g \<le> c \<and>
       sanityFilesystems w' = (sanityFilesystems w)((i, j) \<mapsto> g\<lparr>fs_MaxCapacityBytes := c\<rparr>))"
proof (cases "filesystemLocked w i j")
  case (Inr g)
  from locked_Some [OF w this] Inr r show ?thesis
    by (cases "uf_MaxCapacityBytes u")
      (auto simp: san_UpdateNFSFilesystem_def Let_def sanityFilesystems_def update_conv' fun_eq_iff split: if_splits, metis not_less)
qed (use r in \<open>simp add: san_UpdateNFSFilesystem_def\<close>)

text \<open>The calls on the host leave the backend alone.\<close>

lemma sanityFilesystems_host [simp]:
  "sanityFilesystems (w\<lparr>fm_mounts := m\<rparr>) = sanityFilesystems w"
  "sanityFilesystems (w\<lparr>sw_dirs := d\<rparr>) = sanityFilesystems w"
  by (simp_all add: sanityFilesystems_def fun_eq_iff)

lemma sanityHost_frame:
  "frame backendWf sanityFilesystems w (snd (h_IsLikelyNotMountPoint sanityHost path w))"
  "frame backendWf sanityFilesystems w (snd (h_Mount sanityHost source target fstype opts w))"
  "frame backendWf sanityFilesystems w (snd (h_CleanupMountPoint sanityHost path ext w))"
  "frame backendWf sanityFilesystems w (snd (h_MkdirAll sanityHost path w))"
  "frame backendWf sanityFilesystems w (snd (h_Statfs sanityHost path w))"
  by (simp_all add: frame_def sanityHost_def host_Statfs_def nodeHost_def
      newFakeSanitySafeMounter_def fakeMounterInterface_def fake_IsLikelyNotMountPoint_def fake_Mount_def
      fake_mount_def fake_Unmount_def sanityOS_def sanityMountPackage_def NewFileSystem_def
      OSFileSystem_MkdirAll_def keeps_host Let_def split: option.split sum.split prod.split)

lemma backend_single_env: "unique_store nodeEnv sanityLinodego sanityFilesystems backendWf sanityLabelled"
  by (intro unique_store.intro unique_store_axioms.intro filesystem_store_env [OF sanity_filesystem_store])
    (auto simp: nodeEnv_def sanityEnv_def sanityClient_def intro: backend_single)

interpretation node_rpcs: rpc_store nodeEnv sanityLinodego sanityFilesystems backendWf sanityLabelled
proof (intro rpc_store.intro rpc_store_axioms.intro backend_single_env, goal_cases)
  case (1 w i j u x w')
  then have "san_UpdateNFSFilesystem i j u w = (x, w')" by (simp add: nodeEnv_def sanityEnv_def sanityClient_def)
  from backend_resize [OF 1(1) this] keeps_update [OF 1(1), of i j u] this show ?case by simp
qed (simp_all add: nodeEnv_def sanityEnv_def sanityClient_def sanityMetadata_def sanityHost_frame
    san_GetNFSFilesystemInSpace_def san_ListNFSQuotas_def frame_rel(1) [THEN reflpD])

subsection \<open>Properties\<close>

text \<open>Over any API that keeps the contract, on a cluster of one region.\<close>

lemma concurrent_rpcs_contract:
  assumes "rpc_store v (cs_linodego cs) fss good labelled" and "clusterRegion v rg"
    and "createInv good fss rg st" and "reach v (map (answerRpc cs ns) reqs, st) (ts, st')"
  shows "createInv good fss rg st' \<and>
    outlives (deletions reqs) (expansions reqs) (volumesOf (fss (proc_world st))) (volumesOf (fss (proc_world st'))) \<and>
    (\<forall>m < length reqs. \<forall>q vol. reqs ! m = RpcCreateVolume q \<longrightarrow> ts ! m = Ret (Inr (Created vol)) \<longrightarrow>
       createdIn cs labelled rg (deletions reqs) q (volumesOf (fss (proc_world st'))) (vol_VolumeId vol)) \<and>
    (\<forall>m < length reqs. \<forall>n < length reqs. \<forall>q q' vol vol' i.
       reqs ! m = RpcCreateVolume q \<longrightarrow> ts ! m = Ret (Inr (Created vol)) \<longrightarrow>
       reqs ! n = RpcCreateVolume q' \<longrightarrow> ts ! n = Ret (Inr (Created vol')) \<longrightarrow>
       volumeLabel cs (cv_Name q) = volumeLabel cs (cv_Name q') \<longrightarrow>
       spaceOf labelled q i \<longrightarrow> spaceOf labelled q' i \<longrightarrow>
       vol_VolumeId vol \<notin> handlesOf (deletions reqs) \<longrightarrow> vol_VolumeId vol' \<notin> handlesOf (deletions reqs) \<longrightarrow>
       vol_VolumeId vol = vol_VolumeId vol')"
proof -
  note c = rpc_store.concurrent_answers [OF assms(1,2) refl assms(3,4)]
  then have u: "uniqueLabels (volumesOf (fss (proc_world st')))" by (simp add: createInv_def)
  have "vol_VolumeId vol = vol_VolumeId vol'"
    if "m < length reqs" "n < length reqs" "reqs ! m = RpcCreateVolume q" "ts ! m = Ret (Inr (Created vol))"
      "reqs ! n = RpcCreateVolume q'" "ts ! n = Ret (Inr (Created vol'))"
      "volumeLabel cs (cv_Name q) = volumeLabel cs (cv_Name q')" "spaceOf labelled q i" "spaceOf labelled q' i"
      "vol_VolumeId vol \<notin> handlesOf (deletions reqs)" "vol_VolumeId vol' \<notin> handlesOf (deletions reqs)"
    for m n q q' vol vol' i
  proof (rule createdIn_same [OF _ _ u that(7-11)])
    show "createdIn cs labelled rg (deletions reqs) q (volumesOf (fss (proc_world st'))) (vol_VolumeId vol)"
      using c that(1,3,4) by blast
    show "createdIn cs labelled rg (deletions reqs) q' (volumesOf (fss (proc_world st'))) (vol_VolumeId vol')"
      using c that(2,5,6) by blast
  qed
  with c show ?thesis by blast
qed

lemma backend_uniqueLabels: "backendWf w \<Longrightarrow> uniqueLabels (volumesOf (sanityFilesystems w))"
  by (auto simp: uniqueLabels_def volumesOf_def volumeInfo_def sanityFilesystems_def intro: backendWf_label
      split: if_splits)

lemma sanity_clusterRegion: "clusterRegion nodeEnv sanityRegion"
proof -
  have "regionFromNode (Some sanityNode) = Inr sanityRegion" by code_simp
  then show ?thesis by (simp add: clusterRegion_def nodeEnv_def sanityEnv_def sanityMetadata_def)
qed

text \<open>C6: on the in-memory backend, from any consistent state, whatever RPCs of both services run concurrently (and
  wherever the calls of their handlers interleave), at every moment: labels are unique in a space and region;
  every volume that no request of the run asks to delete is there with its label, region and tags, with no smaller
  capacity, and the same one unless a request asks to expand it; every \<open>CreateVolume\<close> that has succeeded
  has returned the ID of a volume in the space its request names, which is in the catalogue with the label of its
  name, the region and its tags, or which a request of the run asks to delete; and two that
  succeeded for names with one label in one space returned the same ID, unless a request asks to delete one of the
  two volumes.\<close>

theorem concurrent_rpcs:
  assumes "cs_linodego cs = sanityLinodego" and "backendWf (proc_world st)"
    and "proc_region st = [] \<or> proc_region st = sanityRegion"
    and "reach nodeEnv (map (answerRpc cs ns) reqs, st) (ts, st')"
  shows "uniqueLabels (volumesOf (sanityFilesystems (proc_world st'))) \<and>
    (\<forall>k label region tags c. k \<notin> deletions reqs \<longrightarrow>
       volumesOf (sanityFilesystems (proc_world st)) k = Some (label, region, tags, c) \<longrightarrow>
       (\<exists>c' \<ge> c. volumesOf (sanityFilesystems (proc_world st')) k = Some (label, region, tags, c') \<and>
          (k \<notin> expansions reqs \<longrightarrow> c' = c))) \<and>
    (\<forall>m < length reqs. \<forall>q vol. reqs ! m = RpcCreateVolume q \<longrightarrow> ts ! m = Ret (Inr (Created vol)) \<longrightarrow>
       createdIn cs sanityLabelled sanityRegion (deletions reqs) q (volumesOf (sanityFilesystems (proc_world st')))
         (vol_VolumeId vol)) \<and>
    (\<forall>m < length reqs. \<forall>n < length reqs. \<forall>q q' vol vol' i.
       reqs ! m = RpcCreateVolume q \<longrightarrow> ts ! m = Ret (Inr (Created vol)) \<longrightarrow>
       reqs ! n = RpcCreateVolume q' \<longrightarrow> ts ! n = Ret (Inr (Created vol')) \<longrightarrow>
       volumeLabel cs (cv_Name q) = volumeLabel cs (cv_Name q') \<longrightarrow>
       spaceOf sanityLabelled q i \<longrightarrow> spaceOf sanityLabelled q' i \<longrightarrow>
       vol_VolumeId vol \<notin> handlesOf (deletions reqs) \<longrightarrow> vol_VolumeId vol' \<notin> handlesOf (deletions reqs) \<longrightarrow>
       vol_VolumeId vol = vol_VolumeId vol')"
proof -
  have store: "rpc_store nodeEnv (cs_linodego cs) sanityFilesystems backendWf sanityLabelled"
    using node_rpcs.rpc_store_axioms assms(1) by simp
  have inv: "createInv backendWf sanityFilesystems sanityRegion st"
    using assms(2,3) by (simp add: createInv_def backend_uniqueLabels)
  note c = concurrent_rpcs_contract [OF store sanity_clusterRegion inv assms(4)]
  then have "uniqueLabels (volumesOf (sanityFilesystems (proc_world st')))" by (simp add: createInv_def)
  with c show ?thesis unfolding outlives_def by blast
qed

text \<open>A volume is created again while it is expanded; another one is created and then deleted.\<close>

definition mixedRequests :: "rpc list" where
  "mixedRequests = [RpcCreateVolume createReq, RpcCreateVolume secondReq, RpcExpandVolume expandReq,
     RpcDeleteVolume ''1/10001'', RpcNodeInfo]"

definition mixedEnd :: "(goError + rpcResponse, SanityWorld) config" where
  "mixedEnd = runSchedule nodeEnv [0, 2, 4, 0, 2, 4, 0, 1, 2, 0, 1, 2, 0, 1, 0, 1, 0, 1, 1, 1, 1, 1, 1, 1, 3]
     (map (answerRpc sanityServer sanityNodeServer) mixedRequests, createdProc)"

lemma mixedEnd_reach:
  "reach nodeEnv (map (answerRpc sanityServer sanityNodeServer) mixedRequests, createdProc) (fst mixedEnd, snd mixedEnd)"
  unfolding prod.collapse mixedEnd_def by (rule runSchedule_reach) (rule HOL.refl)

fun createdID :: "goError + rpcResponse \<Rightarrow> string option" where
  "createdID (Inr (Created vol)) = Some (vol_VolumeId vol)"
| "createdID _ = None"

lemma createdID_Some: "createdID x = Some i \<longleftrightarrow> (\<exists>vol. x = Inr (Created vol) \<and> vol_VolumeId vol = i)"
  by (cases x rule: createdID.cases) simp_all

lemma mixedEnd_results:
  "map (\<lambda>t. map_option createdID (progResult t)) (fst mixedEnd) =
   [Some (Some ''1/10000''), Some (Some ''1/10001''), Some None, Some None, Some None]"
  by code_simp

lemma mixedEnd_created: "\<exists>vol. fst mixedEnd ! 0 = Ret (Inr (Created vol)) \<and> vol_VolumeId vol = ''1/10000''"
proof -
  have "map_option createdID (progResult (fst mixedEnd ! 0)) = Some (Some ''1/10000'')"
    using mixedEnd_results by (cases "fst mixedEnd") auto
  then show ?thesis by (auto simp: progResult_Some createdID_Some)
qed

lemma mixedEnd_deletions: "deletions mixedRequests = {(1, 10001)}"
proof -
  have "parseVolumeHandle ''1/10001'' = Inr \<lparr>vh_spaceID = 1, vh_filesystemID = 10001\<rparr>" by code_simp
  then show ?thesis by (simp add: deletions_def mixedRequests_def namedVolume_def handleKey_def)
qed

lemma createdProc_inv: "createInv backendWf sanityFilesystems sanityRegion createdProc"
proof -
  have "backendWf (proc_world sanityProc)" by (simp add: sanityProc_def backendWf_start)
  then have "backendWf (proc_world createdProc)"
    unfolding createdProc_def by (rule keepsWorld_run [OF keepsWorld_backend(2)])
  moreover have "proc_region createdProc = sanityRegion" by code_simp
  ultimately show ?thesis by (simp add: createInv_def backend_uniqueLabels)
qed

theorem concurrent_rpcs_witness:
  "uniqueLabels (volumesOf (sanityFilesystems (proc_world (snd mixedEnd)))) \<and>
   (\<exists>c \<ge> 1000. volumesOf (sanityFilesystems (proc_world (snd mixedEnd))) (1, 10000) =
      Some (''pvc-1'', sanityRegion, [], c)) \<and>
   createdIn sanityServer sanityLabelled sanityRegion {(1, 10001)} createReq
     (volumesOf (sanityFilesystems (proc_world (snd mixedEnd)))) ''1/10000''"
proof -
  have start: "cs_linodego sanityServer = sanityLinodego" "backendWf (proc_world createdProc)"
    "proc_region createdProc = [] \<or> proc_region createdProc = sanityRegion"
    using createdProc_inv by (simp_all add: sanityServer_def createInv_def)
  note c = concurrent_rpcs [OF start mixedEnd_reach, unfolded mixedEnd_deletions]
  have "volumesOf (sanityFilesystems (proc_world createdProc)) (1, 10000) = Some (''pvc-1'', sanityRegion, [], 1000)"
    by code_simp
  from conjunct1 [OF conjunct2 [OF c], rule_format, OF _ this] have
    old: "\<exists>c \<ge> 1000. volumesOf (sanityFilesystems (proc_world (snd mixedEnd))) (1, 10000) =
      Some (''pvc-1'', sanityRegion, [], c)"
    by auto
  from mixedEnd_created obtain vol where
    vol: "fst mixedEnd ! 0 = Ret (Inr (Created vol))" "vol_VolumeId vol = ''1/10000''" by blast
  have "mixedRequests ! 0 = RpcCreateVolume createReq" "0 < length mixedRequests" by (simp_all add: mixedRequests_def)
  with conjunct1 [OF conjunct2 [OF conjunct2 [OF c]], rule_format, of 0 createReq vol] vol
  have "createdIn sanityServer sanityLabelled sanityRegion {(1, 10001)} createReq
     (volumesOf (sanityFilesystems (proc_world (snd mixedEnd)))) ''1/10000''" by simp
  with conjunct1 [OF c] old show ?thesis by blast
qed

end
