(* ===== verification/CapacitySpec.thy ===== *)
theory CapacitySpec
  imports ConcurrentRpcs
begin

text \<open>
  Capacity. The abstract catalogue of \<open>VolumeSpec\<close> with one operation more: to resize a volume into a capacity
  range. Sequences of \<open>CreateVolume\<close>, \<open>DeleteVolume\<close> and \<open>ControllerExpandVolume\<close> requests refine it, over an API
  whose root quota is the capacity of the filesystem (\<open>quota_store\<close>): an expansion that succeeds reports the capacity that the volume
  then has, one that fails changes nothing, and no capacity ever shrinks.
\<close>

subsection \<open>The abstract machine\<close>

datatype catalogueOp = Lifetime volumeOp | Resize "int \<times> int" CapacityRange

datatype catalogueAnswer = VolumeID string | Capacity int

definition inRange :: "CapacityRange \<Rightarrow> int \<Rightarrow> bool" where
  "inRange r c \<longleftrightarrow> cap_RequiredBytes r \<le> c \<and> (cap_LimitBytes r = 0 \<or> c \<le> cap_LimitBytes r)"

text \<open>A volume in the range stays as it is; another one gets the capacity that is asked for, if that is larger.\<close>

inductive catalogueStep :: "catalogueOp \<Rightarrow> goError + catalogueAnswer \<Rightarrow> catalogue \<Rightarrow> catalogue \<Rightarrow> bool" where
  lifetime: "volumeStep op x A A' \<Longrightarrow> catalogueStep (Lifetime op) (map_sum (\<lambda>e. e) VolumeID x) A A'"
| in_range: "A k = Some (l, rg, tags, c) \<Longrightarrow> inRange r c \<Longrightarrow> catalogueStep (Resize k r) (Inr (Capacity c)) A A"
| resized: "A k = Some (l, rg, tags, c) \<Longrightarrow> c \<le> n \<Longrightarrow> inRange r n \<Longrightarrow> n = requestedCapacityBytes (Some r) \<Longrightarrow>
    catalogueStep (Resize k r) (Inr (Capacity n)) A (A(k \<mapsto> (l, rg, tags, n)))"
| not_resized: "catalogueStep (Resize k r) (Inl e) A A"

inductive catalogueTrace ::
    "catalogueOp list \<Rightarrow> (goError + catalogueAnswer) list \<Rightarrow> catalogue \<Rightarrow> catalogue \<Rightarrow> bool" where
  stop: "catalogueTrace [] [] A A"
| request: "catalogueStep op x A A1 \<Longrightarrow> catalogueTrace ops xs A1 A' \<Longrightarrow> catalogueTrace (op # ops) (x # xs) A A'"

inductive_cases catalogueStepE:
  "catalogueStep (Resize k r) x A A'" "catalogueStep (Lifetime op) x A A'"

text \<open>What holds of the machine: labels stay unique, and a volume stays, with no smaller capacity, until it is removed.\<close>

definition removedBy :: "catalogueOp \<Rightarrow> (int \<times> int) set" where
  "removedBy op = (case op of Lifetime (Deprovision k) \<Rightarrow> {k} | _ \<Rightarrow> {})"

definition resizedBy :: "catalogueOp \<Rightarrow> (int \<times> int) set" where
  "resizedBy op = (case op of Resize k r \<Rightarrow> {k} | _ \<Rightarrow> {})"

lemma catalogue_unique: "catalogueStep op x A A' \<Longrightarrow> uniqueLabels A \<Longrightarrow> uniqueLabels A'"
proof (induction rule: catalogueStep.induct)
  case (lifetime op x A A')
  then show ?case by (rule unique_step)
next
  case (resized A k l rg tags c n r)
  then show ?case by (cases k) (blast intro: unique_resize)
qed simp_all

lemma volumeStep_outlives:
  "volumeStep op x A A' \<Longrightarrow> outlives (removedBy (Lifetime op)) E A A'"
  by (induction rule: volumeStep.induct) (auto simp: removedBy_def outlives_def)

lemma catalogueStep_outlives: "catalogueStep op x A A' \<Longrightarrow> outlives (removedBy op) (resizedBy op) A A'"
proof (induction rule: catalogueStep.induct)
  case (lifetime op x A A')
  then show ?case by (rule volumeStep_outlives)
qed (auto simp: outlives_def resizedBy_def)

lemma outlives_more: "outlives D E A A' \<Longrightarrow> D \<subseteq> D' \<Longrightarrow> E \<subseteq> E' \<Longrightarrow> outlives D' E' A A'"
  unfolding outlives_def by blast

lemma catalogueTrace_outlives:
  "catalogueTrace ops xs A A' \<Longrightarrow> outlives (\<Union> (removedBy ` set ops)) (\<Union> (resizedBy ` set ops)) A A'"
proof (induction rule: catalogueTrace.induct)
  case (request op x A A1 ops xs A')
  show ?case
    by (rule outlives_trans, rule outlives_more [OF catalogueStep_outlives [OF request.hyps(1)]])
      (auto intro: outlives_more [OF request.IH])
qed simp

lemma catalogueTrace_unique: "catalogueTrace ops xs A A' \<Longrightarrow> uniqueLabels A \<Longrightarrow> uniqueLabels A'"
  by (induction rule: catalogueTrace.induct) (auto dest: catalogue_unique)

subsection \<open>Requests\<close>

datatype catalogueRequest = LifetimeRequest volumeRequest | ExpandRequest ControllerExpandVolumeRequest

primrec catalogueHandler :: "ControllerServer \<Rightarrow> catalogueRequest \<Rightarrow> (goError + catalogueAnswer) prog" where
  "catalogueHandler s (LifetimeRequest q) = respond VolumeID (volumeHandler s q)"
| "catalogueHandler s (ExpandRequest q) = respond (\<lambda>resp. Capacity (er_CapacityBytes resp)) (ControllerExpandVolume s q)"

text \<open>The operation of a request; an expansion without a volume or a range is refused.\<close>

inductive requestOp ::
    "ControllerServer \<Rightarrow> (string \<Rightarrow> int set) \<Rightarrow> string \<Rightarrow> catalogueRequest \<Rightarrow> catalogueOp \<Rightarrow> bool"
  for s labelled rg where
  lifetime_op: "opFor s labelled rg q op \<Longrightarrow> requestOp s labelled rg (LifetimeRequest q) (Lifetime op)"
| resize_op: "parseVolumeHandle (ev_VolumeId q) = Inr h \<Longrightarrow> ev_CapacityRange q = Some r \<Longrightarrow>
    requestOp s labelled rg (ExpandRequest q) (Resize (handleKey h) r)"
| refuse_op: "requestOp s labelled rg (ExpandRequest q) (Lifetime Refuse)"

subsection \<open>The contract of the quotas\<close>

locale quota_store = rpc_store v lg fss good labelled
  for v :: "'w env" and lg and fss and good and labelled +
  assumes root_quota: "good w \<Longrightarrow> lc_ListNFSQuotas (env_client v) i j w = (Inr qs, w') \<Longrightarrow>
      rootQuota qs = Some q \<Longrightarrow> quota_MaxCapacityBytes q = Some c \<Longrightarrow>
      \<exists>f. fss w (i, j) = Some f \<and> fs_MaxCapacityBytes f = c"
    and update_capacity: "good w \<Longrightarrow>
      lc_UpdateNFSFilesystem (env_client v) i j \<lparr>uf_MaxCapacityBytes = Some n\<rparr> w = (x, w') \<Longrightarrow>
      (case x of Inl e \<Rightarrow> fss w' = fss w
        | Inr f \<Rightarrow> \<forall>g. fss w (i, j) = Some g \<longrightarrow> fss w' = (fss w)((i, j) \<mapsto> g\<lparr>fs_MaxCapacityBytes := n\<rparr>))"

context quota_store
begin

lemma expandLocked_step:
  assumes run: "run (expandLocked s h (cap_RequiredBytes r) (cap_LimitBytes r) (requestedCapacityBytes (Some r))) v st
      = (x, st')" and good: "good (proc_world st)"
    and range: "inRange r (requestedCapacityBytes (Some r))"
  shows "good (proc_world st') \<and> proc_region st' = proc_region st \<and>
    catalogueStep (Resize (handleKey h) r) (map_sum (\<lambda>e. e) (\<lambda>resp. Capacity (er_CapacityBytes resp)) x)
      (volumesOf (fss (proc_world st))) (volumesOf (fss (proc_world st')))"
proof -
  let ?i = "vh_spaceID h" and ?j = "vh_filesystemID h" and ?n = "requestedCapacityBytes (Some r)"
  let ?A = "volumesOf (fss (proc_world st))"
  obtain qs w where l: "lc_ListNFSQuotas (env_client v) ?i ?j (proc_world st) = (qs, w)" by fastforce
  from frame_list_quotas [of "proc_world st" ?i ?j] l good have w: "good w" "fss w = fss (proc_world st)"
    by (auto simp: frame_def)
  show ?thesis
  proof (cases "\<exists>quotas q c. qs = Inr quotas \<and> rootQuota quotas = Some q \<and> quota_MaxCapacityBytes q = Some c")
    case False
    with run l w show ?thesis
      by (auto simp: expandLocked_def run_simps split: sum.splits option.splits intro: catalogueStep.not_resized)
  next
    case True
    then obtain quotas q c where q: "qs = Inr quotas" "rootQuota quotas = Some q" "quota_MaxCapacityBytes q = Some c"
      by blast
    from root_quota [OF good l [unfolded q(1)] q(2,3)] obtain f where f: "fss w (?i, ?j) = Some f" "fs_MaxCapacityBytes f = c"
      unfolding w(2) by blast
    then have A: "?A (handleKey h) = Some (fs_Label f, fs_Region f, fs_Tags f, c)"
      by (simp add: w(2) volumesOf_def volumeInfo_def handleKey_def)
    consider (same) "inRange r c \<or> ?n = c" | (smaller) "\<not> inRange r c" "?n < c" | (larger) "\<not> inRange r c" "c < ?n"
      by fastforce
    then show ?thesis
    proof cases
      case same
      then have "inRange r c" using range by auto
      then have "catalogueStep (Resize (handleKey h) r) (Inr (Capacity c)) ?A ?A" using A by (blast intro: catalogueStep.in_range)
      with run l q w same show ?thesis
        by (auto simp: expandLocked_def run_simps inRange_def split: if_splits)
    next
      case smaller
      with run l q w show ?thesis
        by (auto simp: expandLocked_def run_simps inRange_def intro: catalogueStep.not_resized split: if_splits)
    next
      case larger
      obtain u w2 where u: "lc_UpdateNFSFilesystem (env_client v) ?i ?j \<lparr>uf_MaxCapacityBytes = Some ?n\<rparr> w = (u, w2)"
        by fastforce
      from resize [OF w(1) u] have good2: "good w2" by blast
      from larger run l q u have x: "st' = st\<lparr>proc_world := w2\<rparr>"
        "x = (case u of Inl e \<Rightarrow> Inl (linodeError (cs_linodego s) e ''update NFS filesystem'')
           | Inr f \<Rightarrow> Inr \<lparr>er_CapacityBytes = ?n, er_NodeExpansionRequired = False\<rparr>)"
        by (auto simp: expandLocked_def run_simps inRange_def split: sum.splits if_splits)
      have "catalogueStep (Resize (handleKey h) r) (Inr (Capacity ?n)) ?A
          (?A(handleKey h \<mapsto> (fs_Label f, fs_Region f, fs_Tags f, ?n)))"
        using A range larger(2) by (auto intro: catalogueStep.resized)
      with update_capacity [OF w(1) u] f x good2 w(2)
      show ?thesis
        by (cases u)
          (auto simp: volumesOf_upd volumeInfo_def handleKey_def intro: catalogueStep.not_resized)
    qed
  qed
qed

lemma expand_step:
  assumes run: "run (ControllerExpandVolume s q) v st = (x, st')" and good: "good (proc_world st)"
  shows "good (proc_world st') \<and> proc_region st' = proc_region st \<and>
    (\<exists>op. requestOp s labelled rg (ExpandRequest q) op \<and>
       catalogueStep op (map_sum (\<lambda>e. e) (\<lambda>resp. Capacity (er_CapacityBytes resp)) x)
         (volumesOf (fss (proc_world st))) (volumesOf (fss (proc_world st'))))"
proof (cases "\<exists>e. x = Inl e \<and> st' = st")
  case True
  have "catalogueStep (Lifetime Refuse) (map_sum (\<lambda>e. e) VolumeID (Inl e)) A A" for e A
    by (intro catalogueStep.lifetime volumeStep.refused)
  with True good show ?thesis by (auto intro: requestOp.refuse_op)
next
  case False
  with run obtain h r where h: "parseVolumeHandle (ev_VolumeId q) = Inr h" and r: "ev_CapacityRange q = Some r"
    and range: "inRange r (requestedCapacityBytes (Some r))"
    and lock: "run (withVolumeLock (ev_VolumeId q) (expandLocked s h (cap_RequiredBytes r)
        (cap_LimitBytes r) (requestedCapacityBytes (Some r)))) v st = (x, st')"
    by (auto simp: ControllerExpandVolume_def run_bindE_Ret Let_def not_less inRange_def requestedCapacityBytes_def
        split: sum.splits option.splits if_splits)
  have free: "ev_VolumeId q \<notin> vl_locks (proc_locks st)"
    using lock False by (auto simp: run_withVolumeLock_busy)
  from lock obtain st1 st2 where e: "run (expandLocked s h (cap_RequiredBytes r) (cap_LimitBytes r)
      (requestedCapacityBytes (Some r))) v st1 = (x, st2)" and
    same: "proc_world st1 = proc_world st" "proc_region st1 = proc_region st"
      "proc_world st' = proc_world st2" "proc_region st' = proc_region st2"
    by (auto simp: run_withVolumeLock_free [OF free] split: prod.splits)
  from expandLocked_step [OF e _ range] good same have
    "good (proc_world st') \<and> proc_region st' = proc_region st \<and>
     catalogueStep (Resize (handleKey h) r) (map_sum (\<lambda>e. e) (\<lambda>resp. Capacity (er_CapacityBytes resp)) x)
       (volumesOf (fss (proc_world st))) (volumesOf (fss (proc_world st')))" by simp
  with requestOp.resize_op [OF h r] show ?thesis by blast
qed

lemma catalogue_handler_step:
  assumes run: "run (catalogueHandler s req) v st = (r, st')" and lg: "cs_linodego s = lg"
    and good: "good (proc_world st)" and rg: "proc_region st' \<noteq> [] \<longrightarrow> rg = proc_region st'"
  shows "good (proc_world st') \<and> (proc_region st \<noteq> [] \<longrightarrow> proc_region st' = proc_region st) \<and>
    (\<exists>op. requestOp s labelled rg req op \<and>
       catalogueStep op r (volumesOf (fss (proc_world st))) (volumesOf (fss (proc_world st'))))"
proof (cases req)
  case (LifetimeRequest q)
  with run obtain x where x: "run (volumeHandler s q) v st = (x, st')" "r = map_sum (\<lambda>e. e) VolumeID x"
    by (auto simp: respond_def run_bindE run_Ret split: prod.splits sum.splits)
  from handler_step [OF x(1) lg good rg] show ?thesis
    unfolding x(2) LifetimeRequest by (blast intro: requestOp.lifetime_op catalogueStep.lifetime)
next
  case (ExpandRequest q)
  with run obtain x where x: "run (ControllerExpandVolume s q) v st = (x, st')"
    "r = map_sum (\<lambda>e. e) (\<lambda>resp. Capacity (er_CapacityBytes resp)) x"
    by (auto simp: respond_def run_bindE run_Ret split: prod.splits sum.splits)
  from expand_step [OF x(1) good] show ?thesis unfolding x(2) ExpandRequest by blast
qed

lemma catalogue_region:
  "serial v (map (catalogueHandler s) reqs) st = (rs, st') \<Longrightarrow> cs_linodego s = lg \<Longrightarrow> good (proc_world st) \<Longrightarrow>
     proc_region st \<noteq> [] \<longrightarrow> proc_region st' = proc_region st"
  by (induction reqs arbitrary: st rs) (fastforce split: prod.splits dest: catalogue_handler_step)+

lemma catalogue_trace_refines:
  assumes "serial v (map (catalogueHandler s) reqs) st = (rs, st')" and lg: "cs_linodego s = lg"
    and "good (proc_world st)"
  shows "\<exists>ops. list_all2 (requestOp s labelled (proc_region st')) reqs ops \<and>
    catalogueTrace ops rs (volumesOf (fss (proc_world st))) (volumesOf (fss (proc_world st')))"
  using assms(1,3)
proof (induction reqs arbitrary: st rs)
  case Nil
  then show ?case by (auto intro: catalogueTrace.stop)
next
  case (Cons req reqs)
  then obtain r st1 rs1 where r: "run (catalogueHandler s req) v st = (r, st1)"
    "serial v (map (catalogueHandler s) reqs) st1 = (rs1, st')" "rs = r # rs1" by (auto split: prod.splits)
  have good1: "good (proc_world st1)" using catalogue_handler_step [OF r(1) lg Cons.prems(2)] by blast
  with catalogue_handler_step [OF r(1) lg Cons.prems(2)] catalogue_region [OF r(2) lg] obtain op where
    "requestOp s labelled (proc_region st') req op"
    "catalogueStep op r (volumesOf (fss (proc_world st))) (volumesOf (fss (proc_world st1)))" by metis
  with Cons.IH [OF r(2) good1] r(3) show ?case
    by (auto intro: catalogueTrace.request list_all2_Cons [THEN iffD2])
qed

end

subsection \<open>The in-memory backend\<close>

lemma rootQuota_backend:
  assumes w: "backendWf w" and l: "san_ListNFSQuotas i j w = (Inr qs, w')" and q: "rootQuota qs = Some q"
    and c: "quota_MaxCapacityBytes q = Some c"
  shows "\<exists>f. sanityFilesystems w (i, j) = Some f \<and> fs_MaxCapacityBytes f = c"
proof -
  from l obtain f where f: "filesystemLocked w i j = Inr f"
    and qs: "qs = sort_key quota_ID (filter (\<lambda>q. quota_FilesystemID q = j) (map snd (sw_quotas w)))"
    by (auto simp: san_ListNFSQuotas_def bindR_eq_Inr_iff)
  from locked_Some [OF w f] have i: "i = fakeSanitySpaceID" and at: "map_of (sw_filesystems w) j = Some f" by simp_all
  from q have "q \<in> set qs" unfolding rootQuota_def by (auto simp: find_Some_iff)
  then obtain k where "(k, q) \<in> set (sw_quotas w)" "quota_FilesystemID q = j" unfolding qs by auto
  with w at have "quota_MaxCapacityBytes q = Some (fs_MaxCapacityBytes f)"
    unfolding backendWf_def quotasMatch_def by fastforce
  with c i at show ?thesis by (simp add: sanityFilesystems_def)
qed

lemma update_backend:
  assumes w: "backendWf w" and r: "san_UpdateNFSFilesystem i j \<lparr>uf_MaxCapacityBytes = Some n\<rparr> w = (x, w')"
  shows "case x of Inl e \<Rightarrow> sanityFilesystems w' = sanityFilesystems w
    | Inr f \<Rightarrow> \<forall>g. sanityFilesystems w (i, j) = Some g \<longrightarrow>
        sanityFilesystems w' = (sanityFilesystems w)((i, j) \<mapsto> g\<lparr>fs_MaxCapacityBytes := n\<rparr>)"
proof (cases "filesystemLocked w i j")
  case (Inr g)
  from locked_Some [OF w this] Inr r show ?thesis
    by (auto simp: san_UpdateNFSFilesystem_def Let_def sanityFilesystems_def update_conv' fun_eq_iff split: if_splits)
next
  case (Inl e)
  with r have "x = Inl e" "w' = w" by (simp_all add: san_UpdateNFSFilesystem_def)
  then show ?thesis by simp
qed

interpretation node_quotas: quota_store nodeEnv sanityLinodego sanityFilesystems backendWf sanityLabelled
  by (intro quota_store.intro quota_store_axioms.intro node_rpcs.rpc_store_axioms)
    (auto simp: nodeEnv_def sanityEnv_def sanityClient_def intro: rootQuota_backend dest: update_backend)

subsection \<open>Properties\<close>

text \<open>C4: sequences of \<open>CreateVolume\<close>, \<open>DeleteVolume\<close> and \<open>ControllerExpandVolume\<close> requests refine the abstract
  catalogue of volumes with capacities: whatever the API answers, each request is one step of the machine, a creation that
  succeeds the provisioning its parameters ask for, a deletion the removal of its volume, and an expansion that
  succeeds leaves the volume with the capacity it reports, which is in the range and no smaller than before.\<close>

theorem catalogue_refines:
  assumes "quota_store v (cs_linodego s) fss good labelled" and "good (proc_world st)"
    and "serial v (map (catalogueHandler s) reqs) st = (rs, st')"
  shows "\<exists>ops. list_all2 (requestOp s labelled (proc_region st')) reqs ops \<and>
    catalogueTrace ops rs (volumesOf (fss (proc_world st))) (volumesOf (fss (proc_world st')))"
  by (rule quota_store.catalogue_trace_refines [OF assms(1,3) refl assms(2)])

definition growthRequests :: "catalogueRequest list" where
  "growthRequests = [LifetimeRequest (CreateRequest createReq), ExpandRequest expandReq,
     ExpandRequest (expandReq\<lparr>ev_CapacityRange := Some \<lparr>cap_RequiredBytes = 0, cap_LimitBytes = 500\<rparr>\<rparr>),
     LifetimeRequest (CreateRequest createReq)]"

definition growthEnd :: "SanityWorld proc" where
  "growthEnd = snd (serial nodeEnv (map (catalogueHandler sanityServer) growthRequests) sanityProc)"

definition growthResults :: "(goError + catalogueAnswer) list" where
  "growthResults = fst (serial nodeEnv (map (catalogueHandler sanityServer) growthRequests) sanityProc)"

lemma growthEnd: "serial nodeEnv (map (catalogueHandler sanityServer) growthRequests) sanityProc = (growthResults, growthEnd)"
  by (simp add: growthEnd_def growthResults_def)

lemma growthResults_value: "map (map_sum statusCode id) growthResults =
  [Inr (VolumeID ''1/10000''), Inr (Capacity 2000), Inl InvalidArgument, Inr (VolumeID ''1/10000'')]"
  by code_simp

lemma nodeEnv_quotas: "quota_store nodeEnv (cs_linodego sanityServer) sanityFilesystems backendWf sanityLabelled"
  using node_quotas.quota_store_axioms by (simp add: sanityServer_def)

lemma sanityProc_wf: "backendWf (proc_world sanityProc)"
  by (simp add: sanityProc_def backendWf_start)

theorem catalogue_refines_witness:
  "\<exists>ops. list_all2 (requestOp sanityServer sanityLabelled (proc_region growthEnd)) growthRequests ops \<and>
    catalogueTrace ops growthResults (\<lambda>_. None) (volumesOf (sanityFilesystems (proc_world growthEnd)))"
  using catalogue_refines [OF nodeEnv_quotas sanityProc_wf growthEnd] by (simp add: sanityProc_volumes)

text \<open>What an expansion promises for the time after it.\<close>

lemma requestOp_removed:
  assumes "requestOp s labelled rg req op" and "k \<in> removedBy op"
  shows "\<exists>volumeID. req = LifetimeRequest (DeleteRequest volumeID) \<and> k \<in> namedVolume volumeID"
proof -
  from assms(2) have op: "op = Lifetime (Deprovision k)"
    by (auto simp: removedBy_def split: catalogueOp.splits volumeOp.splits)
  with assms(1) obtain q where "req = LifetimeRequest q" "opFor s labelled rg q (Deprovision k)"
    by (auto elim: requestOp.cases)
  with opFor_removed [OF this(2)] show ?thesis by (auto simp: namedVolume_def)
qed

lemma expanded_step:
  assumes "requestOp s labelled rg (ExpandRequest q) op" and "catalogueStep op (Inr (Capacity n)) A A'"
    and h: "parseVolumeHandle (ev_VolumeId q) = Inr h" and r: "ev_CapacityRange q = Some r"
  shows "inRange r n \<and> (\<exists>l a tags. A' (handleKey h) = Some (l, a, tags, n))"
  using assms(1)
proof cases
  case (resize_op h' r')
  with assms(2) h r show ?thesis by (auto elim: catalogueStepE)
next
  case refuse_op
  with assms(2) show ?thesis by (auto elim!: catalogueStepE otherE)
qed

text \<open>C21: an expansion lasts: after \<open>ControllerExpandVolume\<close> has reported a capacity, which lies in the range of the
  request, the volume has at least that capacity after any further requests to create, delete and expand volumes, whatever
  they return, unless one of them deletes this volume.\<close>

theorem expansion_lasts:
  assumes "quota_store v (cs_linodego s) fss good labelled" and "good (proc_world st)"
    and "serial v (map (catalogueHandler s) (ExpandRequest q # reqs)) st = (Inr (Capacity n) # rs, st')"
    and "parseVolumeHandle (ev_VolumeId q) = Inr h" and "ev_CapacityRange q = Some r"
    and "\<forall>volumeID. LifetimeRequest (DeleteRequest volumeID) \<in> set reqs \<longrightarrow> handleKey h \<notin> namedVolume volumeID"
  shows "inRange r n \<and> (\<exists>f. fss (proc_world st') (handleKey h) = Some f \<and> n \<le> fs_MaxCapacityBytes f)"
proof -
  from quota_store.catalogue_trace_refines [OF assms(1,3) refl assms(2)] obtain op ops where
    op: "requestOp s labelled (proc_region st') (ExpandRequest q) op" "list_all2 (requestOp s labelled (proc_region st')) reqs ops"
    and trace: "catalogueTrace (op # ops) (Inr (Capacity n) # rs) (volumesOf (fss (proc_world st))) (volumesOf (fss (proc_world st')))"
    by (auto simp: list_all2_Cons1)
  from trace obtain A1 where A1: "catalogueStep op (Inr (Capacity n)) (volumesOf (fss (proc_world st))) A1"
    "catalogueTrace ops rs A1 (volumesOf (fss (proc_world st')))" by (auto elim: catalogueTrace.cases)
  from expanded_step [OF op(1) A1(1) assms(4,5)] obtain l a tags where
    n: "inRange r n" "A1 (handleKey h) = Some (l, a, tags, n)" by blast
  have "handleKey h \<notin> \<Union> (removedBy ` set ops)"
  proof
    assume "handleKey h \<in> \<Union> (removedBy ` set ops)"
    then obtain m where m: "m < length ops" "handleKey h \<in> removedBy (ops ! m)" by (auto simp: in_set_conv_nth)
    with op(2) have "requestOp s labelled (proc_region st') (reqs ! m) (ops ! m)" "reqs ! m \<in> set reqs"
      by (auto simp: list_all2_conv_all_nth)
    from requestOp_removed [OF this(1) m(2)] this(2) assms(6) show False by metis
  qed
  from outlivesD [OF catalogueTrace_outlives [OF A1(2)] n(2) this] n(1) show ?thesis
    by (auto simp: volumesOf_def volumeInfo_def)
qed

definition laterEnd :: "SanityWorld proc" where
  "laterEnd = snd (serial nodeEnv (map (catalogueHandler sanityServer) (tl growthRequests)) createdProc)"

lemma laterEnd: "\<exists>rs. serial nodeEnv (map (catalogueHandler sanityServer) (tl growthRequests)) createdProc =
  (Inr (Capacity 2000) # rs, laterEnd)"
proof -
  have "map (map_sum statusCode id) (fst (serial nodeEnv (map (catalogueHandler sanityServer) (tl growthRequests)) createdProc)) =
    [Inr (Capacity 2000), Inl InvalidArgument, Inr (VolumeID ''1/10000'')]" by code_simp
  then obtain x rs where "fst (serial nodeEnv (map (catalogueHandler sanityServer) (tl growthRequests)) createdProc) = x # rs"
    "map_sum statusCode id x = Inr (Capacity 2000)" by (auto simp: map_eq_Cons_conv)
  then show ?thesis unfolding laterEnd_def by (cases x) (metis map_sum.simps id_apply prod.collapse sum.inject(2) sum.distinct(1))+
qed

theorem expansion_lasts_witness:
  "\<exists>f. sanityFilesystems (proc_world laterEnd) (1, 10000) = Some f \<and> 2000 \<le> fs_MaxCapacityBytes f"
proof -
  have wf: "backendWf (proc_world createdProc)" using createdProc_inv by (simp add: createInv_def)
  have h: "parseVolumeHandle (ev_VolumeId expandReq) = Inr \<lparr>vh_spaceID = 1, vh_filesystemID = 10000\<rparr>" by code_simp
  have reqs: "tl growthRequests = ExpandRequest expandReq # tl (tl growthRequests)" by (simp add: growthRequests_def)
  from laterEnd obtain rs where rs: "serial nodeEnv (map (catalogueHandler sanityServer)
      (ExpandRequest expandReq # tl (tl growthRequests))) createdProc = (Inr (Capacity 2000) # rs, laterEnd)"
    unfolding reqs [symmetric] by blast
  from expansion_lasts [OF nodeEnv_quotas wf rs h] show ?thesis
    by (simp add: growthRequests_def expandReq_def handleKey_def)
qed

end
