(* ===== verification/Findings.thy ===== *)
theory Findings
  imports ConcurrentRpcs PublishRace
begin

text \<open>
  Runs on the in-memory backend that show where the controller does less than its contract: a capacity that is
  not compared, a capacity range that is not validated, two spellings of one volume that do not exclude each
  other, and a publish that a concurrent creation undoes.
\<close>

text \<open>What the lookup of \<open>CreateVolume\<close> checks of an existing filesystem is not checked of the one the API returns:
  the API of the sanity suite returns the existing filesystem to the second creation, and the
  capacity range of that request is not compared, so that it gets a volume of 1000 bytes
  where it requires 5000. A request that comes later is refused.\<close>

theorem unchecked_capacity:
  "reach sanityEnv (map (CreateVolume sanityServer) [createReq, largeReq], sanityProc) creationsEnd \<and>
   fst creationsEnd ! 1 = Ret (Inr createdVolume) \<and>
   vol_CapacityBytes createdVolume < getRequiredBytes (cv_CapacityRange largeReq) \<and>
   isl (fst (run (CreateVolume sanityServer largeReq) sanityEnv createdProc))"
proof (intro conjI)
  show "reach sanityEnv (map (CreateVolume sanityServer) [createReq, largeReq], sanityProc) creationsEnd"
    using creationsEnd_reach unfolding prod.collapse .
  show "isl (fst (run (CreateVolume sanityServer largeReq) sanityEnv createdProc))" by code_simp
qed (simp_all add: creationsEnd_finished createdVolume_def largeReq_def getRequiredBytes_def)

text \<open>A request whose required capacity is above its limit is not refused: the first call makes a volume, and the
  same request is refused when it is repeated.\<close>

definition invertedReq :: CreateVolumeRequest where
  "invertedReq = createReq\<lparr>cv_CapacityRange := Some \<lparr>cap_RequiredBytes = 5000, cap_LimitBytes = 1000\<rparr>\<rparr>"

theorem inverted_range:
  "map (map_sum (\<lambda>e. statusCode e) vol_CapacityBytes)
     (fst (serial sanityEnv [CreateVolume sanityServer invertedReq, CreateVolume sanityServer invertedReq] sanityProc)) =
   [Inr 5000, Inl AlreadyExists]"
  by code_simp

text \<open>The lock key is the volume ID as the request spells it: two publishes of one volume, of which one spells the ID
  with a leading zero, are both past the lock, and have both read the policy that each is about to replace.\<close>

definition otherSpelling :: ControllerPublishVolumeRequest where
  "otherSpelling = publishReq\<lparr>pv_VolumeId := ''1/010000'', pv_NodeId := ''456''\<rparr>"

definition spellingsInside :: "(goError + unit, SanityWorld) config" where
  "spellingsInside = runSchedule sanityEnv [0, 0, 1, 1]
     (map (ControllerPublishVolume sanityServer) [publishReq, otherSpelling], createdProc)"

theorem two_spellings:
  "reach sanityEnv (map (ControllerPublishVolume sanityServer) [publishReq, otherSpelling], createdProc) spellingsInside \<and>
   parseVolumeHandle (pv_VolumeId otherSpelling) = parseVolumeHandle (pv_VolumeId publishReq) \<and>
   ''1/10000'' \<in> vl_locks (proc_locks (snd spellingsInside)) \<and> ''1/010000'' \<in> vl_locks (proc_locks (snd spellingsInside)) \<and>
   map progResult (fst spellingsInside) = [None, None]"
proof (intro conjI)
  show "reach sanityEnv (map (ControllerPublishVolume sanityServer) [publishReq, otherSpelling], createdProc) spellingsInside"
    unfolding spellingsInside_def by (rule runSchedule_reach) (rule HOL.refl)
  show "parseVolumeHandle (pv_VolumeId otherSpelling) = parseVolumeHandle (pv_VolumeId publishReq)" by code_simp
  show "''1/10000'' \<in> vl_locks (proc_locks (snd spellingsInside))" by code_simp
  show "''1/010000'' \<in> vl_locks (proc_locks (snd spellingsInside))" by code_simp
  show "map progResult (fst spellingsInside) = [None, None]" by code_simp
qed

text \<open>\<open>CreateVolume\<close> sets the squash policy without the volume lock, and sends the node list that it read. A creation
  that is slow reads the policy; the same request, repeated, sets it and returns the volume, and a node is published; then
  the slow creation writes the empty list it read. All three requests succeed, and the node is not admitted.\<close>

definition squashReq :: CreateVolumeRequest where
  "squashReq = createReq\<lparr>cv_Parameters := [(storageClassParamSpaceID, ''1''), (storageClassParamRootSquash, ''none'')]\<rparr>"

definition squashRequests :: "rpc list" where
  "squashRequests = [RpcCreateVolume squashReq, RpcCreateVolume squashReq, RpcPublishVolume publishReq]"

definition squashEnd :: "(goError + rpcResponse, SanityWorld) config" where
  "squashEnd = runSchedule nodeEnv (replicate 11 0 @ replicate 10 1 @ replicate 5 2 @ [0, 0])
     (map (answerRpc sanityServer sanityNodeServer) squashRequests, sanityProc)"

lemma squashEnd_value:
  "(case squashEnd of (ts, st) \<Rightarrow> (map (\<lambda>t. map_option (map_sum statusCode (\<lambda>_. ())) (progResult t)) ts,
      map_option (\<lambda>p. (pol_Enabled p, pol_LinodeACL p)) (sanityPolicies (proc_world st) (1, 10000)))) =
   ([Some (Inr ()), Some (Inr ()), Some (Inr ())], Some (False, []))"
  by code_simp

theorem publish_undone:
  "reach nodeEnv (map (answerRpc sanityServer sanityNodeServer) squashRequests, sanityProc) squashEnd \<and>
   map (\<lambda>t. map_option (map_sum statusCode (\<lambda>_. ())) (progResult t)) (fst squashEnd) =
     [Some (Inr ()), Some (Inr ()), Some (Inr ())] \<and>
   map_option (\<lambda>p. (pol_Enabled p, pol_LinodeACL p))
     (sanityPolicies (proc_world (snd squashEnd)) (1, 10000)) = Some (False, [])"
proof (intro conjI)
  show "reach nodeEnv (map (answerRpc sanityServer sanityNodeServer) squashRequests, sanityProc) squashEnd"
    unfolding squashEnd_def by (rule runSchedule_reach) (rule HOL.refl)
qed (use squashEnd_value in \<open>simp_all add: case_prod_unfold\<close>)

end
