(* ===== verification/Spec2Isabelle.thy ===== *)
theory Spec2Isabelle
  imports GrpcServer NetipFacts CreateAvailable AccessService LockedRpcs ProcessSetup VolumeQueries
    RpcTypes VolumeLife CapacitySpec Findings
begin

text \<open>
  A verification library of the Linode file storage CSI driver.

  \<^bold>\<open>The program.\<close> One binary (\<open>main.go\<close>) runs as the controller or as the node plugin of a CSI driver. The
  controller (\<open>internal/driver/controllerserver.go\<close>, \<open>controller_helpers.go\<close>) turns CSI requests into calls of
  the Linode API (\<open>pkg/linode-client\<close>): a volume is an NFS filesystem in a pre-created Space, its ID is
  \<open>space/filesystem\<close>, publishing a volume to a node adds the node to the filesystem's access policy. The
  node plugin (\<open>nodeserver.go\<close>, \<open>nodeserver_helpers.go\<close>) mounts the filesystem at a staging path and
  bind-mounts it for the pods. \<open>metadata.go\<close> finds out who the node is and in which region the workload
  runs, \<open>pkg/util/volume_lock.go\<close> is the lock set that keeps two operations on one volume apart, and
  \<open>driver.go\<close>, \<open>server.go\<close>, \<open>identityserver.go\<close> and \<open>capabilities.go\<close> assemble the process.

  \<^bold>\<open>How it is modelled.\<close> A handler is an interaction program (theory \<open>Effects\<close>): a tree of calls on the
  interfaces it was built with, on the lock set and on the mutex-guarded fields of its process. \<open>run\<close>
  executes a program alone against an environment of implementations, \<open>step\<close> performs one call. Every
  early return and every error of the source is a branch; errors are values of \<open>goError\<close> with their
  gRPC code and unrendered message.

  \<^item> \<open>Prelude\<close>: the collections of simplification rules, errors as sums, Go slices (nil or a list).
  \<^item> \<open>GoStrings\<close>, \<open>GoStrconv\<close>, \<open>GoNetip\<close>, \<open>GoFilepath\<close>: what the source uses of Go's \<open>strings\<close>, \<open>strconv\<close>,
    \<open>net/netip\<close> and \<open>path/filepath\<close>, on byte strings.
  \<^item> \<open>DriverErrors\<close>: \<open>errors.go\<close>, the mapping of Linode errors, the contract \<open>linodego_api\<close>.
  \<^item> \<open>Resources\<close>: the fields of API objects, CSI requests and responses that the driver reads or writes.
  \<^item> \<open>VolumeLocks\<close>: \<open>volume_lock.go\<close>.
  \<^item> \<open>ControllerHelpers\<close>, \<open>ControllerServer\<close>: the pure and the calling part of the controller.
  \<^item> \<open>Metadata\<close>, \<open>Capabilities\<close>, \<open>NodeServer\<close>, \<open>Driver\<close>: the files of the same names; \<open>Driver\<close> also has
    \<open>identityserver.go\<close>, \<open>test_services.go\<close>, the configuration of \<open>main.go\<close> and that of the client.
  \<^item> \<open>HostServices\<close>: \<open>pkg/filesystem\<close> and \<open>pkg/mount-manager\<close> over the packages \<open>os\<close> and \<open>k8s.io/utils/mount\<close>, and
    how they make up the host calls of the node service.
  \<^item> \<open>FakeMounter\<close>: the mounter of \<open>tests/sanity\<close>, whose mount table is keyed by cleaned paths.
  \<^item> \<open>SanityBackend\<close>: the in-memory API of \<open>tests/sanity\<close>, with its mutex as atomicity. It implements the
    interfaces, discharges the contracts below and is the world of the witnesses.

  \<^item> \<open>GrpcServer\<close>: \<open>server.go\<close>, the non-blocking server as threads over its wait group, channel and mutex, and
    \<open>LinodeDriver.Run\<close>, which starts one and waits: it ends the process (\<open>klog.Fatalf\<close>) or goes on serving.
  \<^item> \<open>ProcessSetup\<close>: the Kubernetes client of \<open>metadata.go\<close> over client-go, \<open>handle\<close> and \<open>main\<close>.

  \<^bold>\<open>Contracts.\<close> The API and the host are parameters. What a client relies on is a locale:
  \<open>linodego_api\<close> (error predicates), \<open>policy_store\<close> (reading and updating access policies),
  \<open>policy_store_errors\<close> (what a failed update may have done), \<open>policy_service\<close> (404 means absent),
  \<open>policy_reader\<close> and \<open>policy_available\<close> (its extensions for observers and for an API that answers),
  \<open>filesystem_store\<close> (listing, creating, waiting for and deleting filesystems) and its extensions \<open>unique_store\<close> (a label is
  made once), \<open>rpc_store\<close> (all other calls) and \<open>quota_store\<close> (the root quota is the capacity), \<open>mount_host\<close> (the mount
  table, by the canonical form of a path), \<open>fake_host\<close> (an operating system below the mounter of the suite, under
  which that mounter is a \<open>mount_host\<close>), \<open>key_locks\<close> (the lock set) and \<open>codec\<close> (IDs as text). Each is interpreted on the in-memory backend,
  on the host of theory \<open>NodeFacts\<close> or on the model's own functions.

  \<^bold>\<open>What is shown.\<close> \<open>HandleFacts\<close> and \<open>ParameterFacts\<close>: parsers equal their specifications, round trips,
  bounds of labels and capacities. \<open>PolicyFacts\<close> and \<open>ControllerFacts\<close>: the effect of publish and unpublish on
  the access policies. \<open>FilesystemFacts\<close> and \<open>CreateFacts\<close>: the effect of create and delete on the table of
  filesystems, and that a retry makes no second one. \<open>ControllerSafety\<close>: locks, refused requests,
  expansion, error codes. \<open>NodeFacts\<close>, \<open>NodeSafety\<close> and \<open>NetipFacts\<close>: the effect of the node RPCs on the mount
  table (a path that the host reports as mounted is taken as it is: the handlers do not look at what is mounted
  there), statistics, node identity, the text of mount addresses, which is the one RFC 5952 recommends
  (\<open>rfc5952\<close>). \<open>DriverFacts\<close> and
  \<open>ProcessSetup\<close>: setup, configuration, registration, credentials, and what becomes of the process, with every exit
  status. \<open>Lifecycle\<close> and
  \<open>VolumeQueries\<close>: what the controller returns, the node can stage and the controller confirms.
  \<open>VolumeLife\<close>: creating and deleting, and staging, publishing and going back, leave nothing behind.
  \<open>VolumeSpec\<close>: an abstract catalogue of labelled volumes, which sequences of creations and deletions refine,
  so that a name stays one volume (concurrent creations are not in it, as \<open>CreateVolume\<close> takes no lock: see
  \<open>ConcurrentCreate\<close>). \<open>CapacitySpec\<close>: the catalogue with an operation to resize a volume, which sequences of
  creations, deletions and expansions refine, so that a capacity once reported is there until the volume is deleted.
  \<open>RpcTypes\<close>: a typing judgement of interaction programs, and the gRPC codes each RPC can answer with.

  \<^bold>\<open>Concurrency.\<close> \<open>Interleaving\<close>: handlers as threads that interleave call by call, and mutual exclusion by
  the lock set. \<open>Serial\<close> and \<open>LockedRpcs\<close>: the RPCs that take one lock are serializable. \<open>AccessSpec\<close>: an abstract machine of which
  node may access which volume; publish and unpublish refine it, alone and under every interleaving.
  \<open>AccessService\<close>: \<open>ControllerGetVolume\<close> observes that machine, and requests succeed while the API answers.
  \<open>RelyGuarantee\<close>: a rule for handlers that run concurrently without a lock, each judged against what all of them
  keep. \<open>ConcurrentCreate\<close>: with it, concurrent creations of one name get one volume, over the contract
  \<open>unique_store\<close> that the API does not make a label twice. \<open>ConcurrentRpcs\<close>: the same among all the other RPCs of
  both services, deletions and expansions included: each handler is shown to keep, with every call, the volumes
  that no request deletes (contract \<open>rpc_store\<close>), and the property is the instance on the in-memory backend, whose
  calls are shown to keep that contract.
  \<open>PublishRace\<close>: at every moment of concurrent publishes no node is lost. \<open>Progress\<close>: the mutex of the
  region cache is released on every path, so no RPC deadlocks, and every run is finite.
  \<open>BackendInvariant\<close>: the in-memory backend stays consistent under any concurrent RPCs, and in every
  consistent state valid creations succeed (\<open>CreateAvailable\<close>). \<open>GrpcServer\<close>: the
  server shuts down under every interleaving of its methods.

  \<open>Findings\<close>: runs that show where the controller does less than its contract.

  \<^bold>\<open>Bounds and fuel.\<close> Loops are structural recursions or have a measure; only the JSON reader of the
  in-memory backend has fuel, the length of its input, which bounds the number of pairs. Go's \<open>int\<close> is an
  unbounded \<open>int\<close> with the range check of \<open>Atoi\<close> (\<open>int_range\<close>); the statistics of \<open>NodeGetVolumeStats\<close> are 64-bit
  words.

  \<^bold>\<open>Not modelled.\<close> The snapshot RPCs and helpers (commented out in the source, so there is no code to
  translate), logging but for the interceptor, sockets and the transport of grpc (\<open>GracefulStop\<close> is one step,
  without its wait for pending requests), signals and panics of handlers, \<open>GOMAXPROCS\<close>, the construction of TLS
  and metadata clients, generated mocks, charts and manifests. Contexts are not
  modelled except for the timeout of the waiting calls; a cancelled call is a call that returns the
  context's error. A call on an interface is atomic and returns; data races between calls are not
  modelled. \<open>strings.ToLower\<close> on non-ASCII names and the JSON filter of linodego are parameters.
\<close>

end
